(* ===== verification/Prelude.thy ===== *)
theory Prelude
  imports Main "HOL-Library.Word" "HOL-Library.Sublist"
begin

text \<open>
  Shared vocabulary of the development: the result type of fallible Go functions, Go's
  64-bit \<^verbatim>\<open>int\<close> arithmetic, the collections of facts the component theories extend, and
  list lemmas that several components use.
\<close>

section \<open>Automation collections\<close>

named_theorems go_defs \<open>definitions of modelled operations, unfolded together\<close>
named_theorems go_str \<open>facts about the modelled strings and strconv packages\<close>
named_theorems inv_intros \<open>an operation keeps an invariant\<close>

section \<open>Results and machine integers\<close>

text \<open>
  A Go function \<^verbatim>\<open>(T, error)\<close> is a sum: \<open>Inl\<close> is the non-nil error, \<open>Inr\<close> the value
  with a nil error. A Go function that only returns \<^verbatim>\<open>error\<close> is an option: \<open>None\<close> is nil.
\<close>

type_synonym ('e, 'a) result = "'e + 'a"

text \<open>
  Go's \<^verbatim>\<open>int\<close> is 64 bits wide on every platform the services are built for and its
  arithmetic wraps around. Values are kept as \<open>int\<close>; wherever an operation can leave the
  range, the model applies \<open>wrap64\<close>.
\<close>

definition wrap64 :: "int \<Rightarrow> int" where
  "wrap64 x = (x + 2 ^ 63) mod 2 ^ 64 - 2 ^ 63"

definition int64 :: "int \<Rightarrow> bool" where
  "int64 x \<longleftrightarrow> - (2 ^ 63) \<le> x \<and> x < 2 ^ 63"

lemma wrap64_id: "int64 x \<Longrightarrow> wrap64 x = x"
  by (simp add: wrap64_def int64_def)

lemma wrap64_int64 [simp]: "int64 (wrap64 x)"
  using pos_mod_bound [of "2 ^ 64" "x + 2 ^ 63"] pos_mod_sign [of "2 ^ 64" "x + 2 ^ 63"]
  by (simp add: wrap64_def int64_def)

lemma wrap64_word: "wrap64 x = sint (word_of_int x :: 64 word)"
  by (simp add: wrap64_def int_word_sint)

lemma wrap64_mod: "wrap64 (x mod 2 ^ 64) = wrap64 x"
  by (simp add: wrap64_def mod_add_left_eq)

lemma wrap64_cong: "x mod 2 ^ 64 = y mod 2 ^ 64 \<Longrightarrow> wrap64 x = wrap64 y"
  by (metis wrap64_mod)

lemma wrap64_mod_eq: "wrap64 x mod 2 ^ 64 = x mod 2 ^ 64"
proof -
  have "wrap64 x mod 2 ^ 64 = ((x + 2 ^ 63) mod 2 ^ 64 - 2 ^ 63) mod 2 ^ 64"
    by (simp add: wrap64_def)
  also have "\<dots> = (x + 2 ^ 63 - 2 ^ 63) mod 2 ^ 64"
    by (rule mod_diff_left_eq)
  finally show ?thesis by simp
qed

section \<open>Lists\<close>

lemma butlast_snoc_last: "xs \<noteq> [] \<Longrightarrow> butlast xs @ [last xs] = xs"
  by simp

lemma last_notin_butlast:
  assumes "distinct xs" and "xs \<noteq> []"
  shows "last xs \<notin> set (butlast xs)"
proof -
  from assms have "distinct (butlast xs @ [last xs])" by simp
  then show ?thesis by (simp only: distinct_append) simp
qed

lemma set_butlast_last:
  assumes "xs \<noteq> []"
  shows "set xs = insert (last xs) (set (butlast xs))"
proof -
  from assms have "set xs = set (butlast xs @ [last xs])" by simp
  then show ?thesis by (simp only: set_append) auto
qed

lemma takeWhile_append_stop:
  "\<forall>x \<in> set xs. P x \<Longrightarrow> \<not> P y \<Longrightarrow> takeWhile P (xs @ y # ys) = xs"
  by (induction xs) auto

lemma dropWhile_append_stop:
  "\<forall>x \<in> set xs. P x \<Longrightarrow> \<not> P y \<Longrightarrow> dropWhile P (xs @ y # ys) = y # ys"
  by (induction xs) auto

lemma dropWhile_id: "xs = [] \<or> \<not> P (hd xs) \<Longrightarrow> dropWhile P xs = xs"
  by (cases xs) auto

lemma distinct_map_inj_on: "distinct xs \<Longrightarrow> inj_on f (set xs) \<Longrightarrow> distinct (map f xs)"
  by (simp add: distinct_map)

end
