(* ===== verification/Go_Strings.thy ===== *)
theory Go_Strings
  imports Prelude
begin

text \<open>
  The parts of Go's \<^verbatim>\<open>strings\<close>, \<^verbatim>\<open>strconv\<close> and \<^verbatim>\<open>fmt\<close> packages that the services use, on
  byte strings: a Go string is a sequence of bytes, and so is an Isabelle \<open>string\<close> (a list of
  8-bit characters). The lemmas are the round trips and injectivity facts the components rest on.
\<close>

section \<open>Prefixes, suffixes, splitting and joining\<close>

definition HasPrefix :: "string \<Rightarrow> string \<Rightarrow> bool" where
  "HasPrefix s p \<longleftrightarrow> take (length p) s = p"

definition HasSuffix :: "string \<Rightarrow> string \<Rightarrow> bool" where
  "HasSuffix s p \<longleftrightarrow> length p \<le> length s \<and> drop (length s - length p) s = p"

definition TrimPrefix :: "string \<Rightarrow> string \<Rightarrow> string" where
  "TrimPrefix s p = (if HasPrefix s p then drop (length p) s else s)"

definition TrimSuffix :: "string \<Rightarrow> string \<Rightarrow> string" where
  "TrimSuffix s p = (if HasSuffix s p then take (length s - length p) s else s)"

definition CutPrefix :: "string \<Rightarrow> string \<Rightarrow> string \<times> bool" where
  "CutPrefix s p = (if HasPrefix s p then (drop (length p) s, True) else (s, False))"

fun Split :: "string \<Rightarrow> char \<Rightarrow> string list" where
  "Split [] c = [[]]"
| "Split (x # xs) c =
     (if x = c then [] # Split xs c
      else case Split xs c of [] \<Rightarrow> [[x]] | p # ps \<Rightarrow> (x # p) # ps)"

fun Join :: "string list \<Rightarrow> string \<Rightarrow> string" where
  "Join [] sep = []"
| "Join [p] sep = p"
| "Join (p # q # ps) sep = p @ sep @ Join (q # ps) sep"

text \<open>\<^verbatim>\<open>strings.ReplaceAll\<close> with a one-byte needle.\<close>

definition ReplaceAll :: "string \<Rightarrow> char \<Rightarrow> string \<Rightarrow> string" where
  "ReplaceAll s c r = concat (map (\<lambda>x. if x = c then r else [x]) s)"

lemma HasPrefix_prefix: "HasPrefix s p \<longleftrightarrow> prefix p s"
  by (metis HasPrefix_def append_eq_conv_conj append_take_drop_id prefixE prefixI)

lemma HasPrefix_append [simp]: "HasPrefix (p @ s) p"
  by (simp add: HasPrefix_def)

lemma HasSuffix_suffix: "HasSuffix s p \<longleftrightarrow> suffix p s"
proof
  assume "HasSuffix s p"
  then have "s = take (length s - length p) s @ p"
    by (metis HasSuffix_def append_take_drop_id)
  then show "suffix p s" by (metis suffixI)
next
  assume "suffix p s"
  then obtain t where "s = t @ p" by (auto elim: suffixE)
  then show "HasSuffix s p" by (simp add: HasSuffix_def)
qed

lemma HasSuffix_append [simp]: "HasSuffix (s @ p) p"
  by (simp add: HasSuffix_def)

lemma TrimSuffix_append [simp]: "TrimSuffix (s @ p) p = s"
  by (simp add: TrimSuffix_def)

lemma CutPrefix_append [simp]: "CutPrefix (p @ s) p = (s, True)"
  by (simp add: CutPrefix_def)

lemma Split_nonempty [simp]: "Split s c \<noteq> []"
  by (cases s) (auto split: list.split)

lemma Join_Cons: "ps \<noteq> [] \<Longrightarrow> Join (p # ps) sep = p @ sep @ Join ps sep"
  by (cases ps) auto

lemma Join_Split: "Join (Split s c) [c] = s"
proof (induction s c rule: Split.induct)
  case (1 c)
  then show ?case by simp
next
  case (2 x xs c)
  show ?case
  proof (cases "x = c")
    case True
    with 2 show ?thesis by (simp add: Join_Cons)
  next
    case False
    obtain p ps where ps: "Split xs c = p # ps"
      by (cases "Split xs c") auto
    with 2 False have "Join (p # ps) [c] = xs" by simp
    with ps False show ?thesis by (cases ps) auto
  qed
qed

lemma Split_no_sep: "p \<in> set (Split s c) \<Longrightarrow> c \<notin> set p"
proof (induction s c arbitrary: p rule: Split.induct)
  case (1 c)
  then show ?case by simp
next
  case (2 x xs c)
  then show ?case
    by (cases "Split xs c") (auto split: if_splits)
qed

lemma Split_append_sep:
  "c \<notin> set p \<Longrightarrow> Split (p @ c # s) c = p # Split s c"
  by (induction p) auto

lemma Split_no_sep_id: "c \<notin> set p \<Longrightarrow> Split p c = [p]"
  by (induction p) auto

lemma Split_Join:
  "ps \<noteq> [] \<Longrightarrow> \<forall>p \<in> set ps. c \<notin> set p \<Longrightarrow> Split (Join ps [c]) c = ps"
proof (induction ps "[c]" rule: Join.induct)
  case 1
  then show ?case by simp
next
  case (2 p)
  then show ?case by (simp add: Split_no_sep_id)
next
  case (3 p q ps)
  then show ?case by (simp add: Split_append_sep)
qed

lemma Split_append:
  "Split (s @ c # t) c = Split s c @ Split t c"
proof (induction s)
  case Nil
  then show ?case by simp
next
  case (Cons x s)
  then show ?case
    by (cases "Split s c") (auto split: list.split)
qed

lemma ReplaceAll_Nil [simp]: "ReplaceAll [] c r = []"
  by (simp add: ReplaceAll_def)

lemma ReplaceAll_Cons [simp]:
  "ReplaceAll (x # s) c r = (if x = c then r else [x]) @ ReplaceAll s c r"
  by (simp add: ReplaceAll_def)

section \<open>Printing numbers\<close>

text \<open>\<^verbatim>\<open>%d\<close> of a non-negative and of any integer, and \<^verbatim>\<open>%02X\<close>.\<close>

definition digit :: "nat \<Rightarrow> char" where
  "digit n = ''0123456789ABCDEF'' ! n"

fun dec :: "nat \<Rightarrow> string" where
  "dec n = (if n < 10 then [digit n] else dec (n div 10) @ [digit (n mod 10)])"

fun hexU :: "nat \<Rightarrow> string" where
  "hexU n = (if n < 16 then [digit n] else hexU (n div 16) @ [digit (n mod 16)])"

declare dec.simps [simp del] hexU.simps [simp del]

definition itoa :: "int \<Rightarrow> string" where
  "itoa i = (if i < 0 then ''-'' @ dec (nat (- i)) else dec (nat i))"

definition fmt_02X :: "nat \<Rightarrow> string" where
  "fmt_02X n = (let s = hexU n in replicate (2 - length s) (CHR ''0'') @ s)"

section \<open>Reading numbers\<close>

definition is_digit :: "char \<Rightarrow> bool" where
  "is_digit c \<longleftrightarrow> 48 \<le> (of_char c :: nat) \<and> (of_char c :: nat) \<le> 57"

definition digit_val :: "char \<Rightarrow> nat" where
  "digit_val c = of_char c - 48"

definition dec_val :: "string \<Rightarrow> nat" where
  "dec_val s = foldl (\<lambda>n c. 10 * n + digit_val c) 0 s"

text \<open>
  \<^verbatim>\<open>strconv.Atoi\<close>: an optional sign, then one or more decimal digits and nothing else; a
  value outside the 64-bit range is an error. Both failures are one error value here, since
  no caller distinguishes them.
\<close>

definition Atoi :: "string \<Rightarrow> int option" where
  "Atoi s =
     (let neg = (s \<noteq> [] \<and> hd s = CHR ''-'');
          ds = (if s \<noteq> [] \<and> (hd s = CHR ''-'' \<or> hd s = CHR ''+'') then tl s else s);
          v = (if neg then - int (dec_val ds) else int (dec_val ds))
      in if ds = [] \<or> \<not> list_all is_digit ds then None
         else if int64 v then Some v else None)"

lemma less_Suc_numeral_cases10:
  "n < (10::nat) \<Longrightarrow> n \<in> {0, 1, 2, 3, 4, 5, 6, 7, 8, 9}"
  by auto

lemma digit_is_digit: "n < 10 \<Longrightarrow> is_digit (digit n)"
  by (drule less_Suc_numeral_cases10) (auto simp: digit_def is_digit_def)

lemma digit_val_digit: "n < 10 \<Longrightarrow> digit_val (digit n) = n"
  by (drule less_Suc_numeral_cases10) (auto simp: digit_def digit_val_def)

lemma dec_val_snoc: "dec_val (s @ [c]) = 10 * dec_val s + digit_val c"
  by (simp add: dec_val_def)

lemma dec_val_dec [simp]: "dec_val (dec n) = n"
proof (induction n rule: dec.induct)
  case (1 n)
  show ?case
  proof (cases "n < 10")
    case True
    then show ?thesis
      by (simp add: dec.simps [of n] dec_val_def digit_val_digit)
  next
    case False
    with 1 have "dec_val (dec (n div 10)) = n div 10" by simp
    with False show ?thesis
      by (simp add: dec.simps [of n] dec_val_snoc digit_val_digit)
  qed
qed

lemma dec_inj [simp]: "dec m = dec n \<longleftrightarrow> m = n"
  by (metis dec_val_dec)

lemma dec_digits: "list_all is_digit (dec n)"
proof (induction n rule: dec.induct)
  case (1 n)
  then show ?case
    by (cases "n < 10") (auto simp: dec.simps [of n] digit_is_digit)
qed

lemma dec_nonempty [simp]: "dec n \<noteq> []"
  by (subst dec.simps) simp

lemma dec_set_digits: "c \<in> set (dec n) \<Longrightarrow> is_digit c"
  using dec_digits [of n] by (auto simp: list_all_iff)

lemma dec_no_char: "\<not> is_digit c \<Longrightarrow> c \<notin> set (dec n)"
  using dec_set_digits by blast

lemma dec_hd_digit: "is_digit (hd (dec n))"
  by (meson dec_nonempty dec_set_digits hd_in_set)

lemma Atoi_dec: "n < 2 ^ 63 \<Longrightarrow> Atoi (dec n) = Some (int n)"
proof -
  assume n: "n < 2 ^ 63"
  have "hd (dec n) \<noteq> CHR ''-''" "hd (dec n) \<noteq> CHR ''+''"
    using dec_hd_digit [of n] by (auto simp: is_digit_def)
  then show ?thesis
    using n dec_digits [of n] by (auto simp: Atoi_def Let_def int64_def)
qed

lemma hexU_two: "n < 256 \<Longrightarrow> fmt_02X n = [digit (n div 16), digit (n mod 16)]"
proof (cases "n < 16")
  case True
  then show ?thesis
    by (simp add: fmt_02X_def hexU.simps [of n] digit_def Let_def numeral_2_eq_2)
next
  case False
  moreover assume "n < 256"
  ultimately have "n div 16 < 16" by simp
  with False show ?thesis
    by (simp add: fmt_02X_def hexU.simps [of n] hexU.simps [of "n div 16"] Let_def)
qed

lemma digit_inj: "m < 16 \<Longrightarrow> n < 16 \<Longrightarrow> digit m = digit n \<longleftrightarrow> m = n"
  using nth_eq_iff_index_eq [of "''0123456789ABCDEF''" m n] by (simp add: digit_def)

lemma fmt_02X_inj: "m < 256 \<Longrightarrow> n < 256 \<Longrightarrow> fmt_02X m = fmt_02X n \<longleftrightarrow> m = n"
  by (auto simp: hexU_two digit_inj) (metis div_mult_mod_eq)

text \<open>The arrow U+2192 of the printed messages, in UTF-8.\<close>

definition arrow :: string where
  "arrow = map char_of [226::nat, 134, 146]"

section \<open>Trimming and case\<close>

text \<open>
  \<^verbatim>\<open>strings.TrimSpace\<close> removes the Unicode white space at both ends. In UTF-8 these are the
  byte sequences below (U+0009 to U+000D, space, U+0085, U+00A0, U+1680, U+2000 to U+200A,
  U+2028, U+2029, U+202F, U+205F, U+3000).
\<close>

definition space_seqs :: "string list" where
  "space_seqs =
     map (\<lambda>n. [char_of (n::nat)]) [9, 10, 11, 12, 13, 32] @
     map (map (\<lambda>n. char_of (n::nat)))
       ([[194, 133], [194, 160], [225, 154, 128], [226, 128, 168], [226, 128, 169],
         [226, 128, 175], [226, 129, 159], [227, 128, 128]] @
        map (\<lambda>n. [226, 128, n]) [128, 129, 130, 131, 132, 133, 134, 135, 136, 137, 138])"

lemma space_seqs_nonempty: "p \<in> set space_seqs \<Longrightarrow> p \<noteq> []"
  by (auto simp: space_seqs_def)

definition leading_space :: "string \<Rightarrow> string option" where
  "leading_space s = List.find (HasPrefix s) space_seqs"

definition trailing_space :: "string \<Rightarrow> string option" where
  "trailing_space s = List.find (HasSuffix s) space_seqs"

lemma leading_space_SomeD: "leading_space s = Some p \<Longrightarrow> p \<noteq> [] \<and> HasPrefix s p"
  unfolding leading_space_def find_Some_iff
  by (metis nth_mem space_seqs_nonempty)

lemma trailing_space_SomeD: "trailing_space s = Some p \<Longrightarrow> p \<noteq> [] \<and> HasSuffix s p"
  unfolding trailing_space_def find_Some_iff
  by (metis nth_mem space_seqs_nonempty)

lemma HasPrefix_length: "HasPrefix s p \<Longrightarrow> length p \<le> length s"
  by (simp add: HasPrefix_prefix prefix_length_le)

function TrimLeftSpace :: "string \<Rightarrow> string" where
  "TrimLeftSpace s =
     (case leading_space s of None \<Rightarrow> s | Some p \<Rightarrow> TrimLeftSpace (drop (length p) s))"
  by pat_completeness auto
termination
  by (relation "measure length")
    (force dest!: leading_space_SomeD dest: HasPrefix_length simp: neq_Nil_conv)+

function TrimRightSpace :: "string \<Rightarrow> string" where
  "TrimRightSpace s =
     (case trailing_space s of
        None \<Rightarrow> s | Some p \<Rightarrow> TrimRightSpace (take (length s - length p) s))"
  by pat_completeness auto
termination
  by (relation "measure length")
    (auto dest!: trailing_space_SomeD simp: HasSuffix_def neq_Nil_conv)

declare TrimLeftSpace.simps [simp del] TrimRightSpace.simps [simp del]

definition TrimSpace :: "string \<Rightarrow> string" where
  "TrimSpace s = TrimRightSpace (TrimLeftSpace s)"

text \<open>
  \<^verbatim>\<open>strings.ToLower\<close> on the ASCII letters. The two non-ASCII letters whose lower case is an
  ASCII letter (U+0130 and U+212A) map to \<open>i\<close> and \<open>k\<close>, which no caller tests for.
\<close>

definition lower :: "char \<Rightarrow> char" where
  "lower c = (if 65 \<le> (of_char c :: nat) \<and> (of_char c :: nat) \<le> 90
              then char_of ((of_char c :: nat) + 32) else c)"

definition ToLower :: "string \<Rightarrow> string" where
  "ToLower s = map lower s"

text \<open>Strings that neither trimming nor lower-casing changes: no byte of them is a space or a
  non-ASCII byte, and none is an upper-case letter.\<close>

definition plain_char :: "char \<Rightarrow> bool" where
  "plain_char c \<longleftrightarrow> 33 \<le> (of_char c :: nat) \<and> (of_char c :: nat) < 128"

lemma space_seqs_last_not_plain: "p \<in> set space_seqs \<Longrightarrow> \<not> plain_char (last p)"
  by (auto simp: space_seqs_def plain_char_def)

lemma space_seqs_hd_not_plain: "p \<in> set space_seqs \<Longrightarrow> \<not> plain_char (hd p)"
  by (auto simp: space_seqs_def plain_char_def)

lemma TrimLeftSpace_plain: "s = [] \<or> plain_char (hd s) \<Longrightarrow> TrimLeftSpace s = s"
proof -
  assume s: "s = [] \<or> plain_char (hd s)"
  have "leading_space s = None"
    unfolding leading_space_def find_None_iff
  proof (intro notI, elim exE conjE)
    fix p assume p: "p \<in> set space_seqs" "HasPrefix s p"
    with space_seqs_nonempty have "p \<noteq> []" by blast
    with p have "s \<noteq> []" "hd s = hd p"
      by (auto simp: HasPrefix_prefix elim!: prefixE)
    with s space_seqs_hd_not_plain [OF p(1)] show False by simp
  qed
  then show ?thesis by (simp add: TrimLeftSpace.simps [of s])
qed

lemma TrimRightSpace_plain: "s = [] \<or> plain_char (last s) \<Longrightarrow> TrimRightSpace s = s"
proof -
  assume s: "s = [] \<or> plain_char (last s)"
  have "trailing_space s = None"
    unfolding trailing_space_def find_None_iff
  proof (intro notI, elim exE conjE)
    fix p assume p: "p \<in> set space_seqs" "HasSuffix s p"
    with space_seqs_nonempty have "p \<noteq> []" by blast
    with p have "s \<noteq> []" "last s = last p"
      by (auto simp: HasSuffix_suffix elim!: suffixE)
    with s space_seqs_last_not_plain [OF p(1)] show False by simp
  qed
  then show ?thesis by (simp add: TrimRightSpace.simps [of s])
qed

lemma TrimSpace_plain: "list_all plain_char s \<Longrightarrow> TrimSpace s = s"
  by (cases "s = []")
    (auto simp: TrimSpace_def TrimLeftSpace_plain TrimRightSpace_plain list_all_iff)

lemma is_digit_plain: "is_digit c \<Longrightarrow> plain_char c"
  by (simp add: is_digit_def plain_char_def)

lemma is_digit_lower: "is_digit c \<Longrightarrow> lower c = c"
  by (simp add: is_digit_def lower_def)

lemma ToLower_dec: "ToLower (dec n) = dec n"
  unfolding ToLower_def by (rule map_idI) (metis dec_set_digits is_digit_lower)

lemma dec_plain: "list_all plain_char (dec n)"
  using dec_digits [of n] by (auto simp: list_all_iff is_digit_plain)

end
