(* ===== verification/Nomadspec.thy ===== *)
theory Nomadspec
  imports Go_Strings "HOL-Library.Char_ord" "HOL-Library.List_Lexorder"
begin

text \<open>
  The translation of a service spec into a Nomad job,
  \<^verbatim>\<open>services/scheduler/internal/nomadspec/nomadspec.go\<close>: defaults, validation, the job template
  and the memory sizes of the manifest. The theorems: which specs are rejected and why, that
  the text determines the spec when no value has a line break, that it does not otherwise
  (values are not escaped), and what every memory string means.
\<close>

section \<open>The spec\<close>

text \<open>\<^verbatim>\<open>Env\<close> is a Go map: an association list with distinct keys.\<close>

record service_spec =
  ss_Name :: string
  ss_Org :: string
  ss_Project :: string
  ss_Region :: string
  ss_Image :: string
  ss_VCPU :: int
  ss_MemoryMB :: int
  ss_InternalPort :: int
  ss_Replicas :: int
  ss_HealthPath :: string
  ss_Env :: "(string \<times> string) list"

definition JobName :: "service_spec \<Rightarrow> string" where
  "JobName s = ss_Org s @ ''-'' @ ss_Project s @ ''-'' @ ss_Name s"

definition applyDefaults :: "service_spec \<Rightarrow> service_spec" where
  "applyDefaults s =
     s\<lparr>ss_VCPU := (if ss_VCPU s \<le> 0 then 1 else ss_VCPU s),
       ss_MemoryMB := (if ss_MemoryMB s \<le> 0 then 256 else ss_MemoryMB s),
       ss_Replicas := (if ss_Replicas s \<le> 0 then 1 else ss_Replicas s),
       ss_InternalPort := (if ss_InternalPort s \<le> 0 then 8080 else ss_InternalPort s),
       ss_HealthPath := (if ss_HealthPath s = [] then ''/healthz'' else ss_HealthPath s)\<rparr>"

datatype spec_error = NameRequired | OrgRequired | ProjectRequired | ImageRequired

fun spec_error_text :: "spec_error \<Rightarrow> string" where
  "spec_error_text NameRequired = ''service name is required''"
| "spec_error_text OrgRequired = ''org is required''"
| "spec_error_text ProjectRequired = ''project is required''"
| "spec_error_text ImageRequired = ''image is required''"

definition validate :: "service_spec \<Rightarrow> spec_error option" where
  "validate s =
     (if ss_Name s = [] then Some NameRequired
      else if ss_Org s = [] then Some OrgRequired
      else if ss_Project s = [] then Some ProjectRequired
      else if ss_Image s = [] then Some ImageRequired
      else None)"

section \<open>The job template\<close>

definition quoted :: "string \<Rightarrow> string" where
  "quoted s = CHR 0x22 # s @ [CHR 0x22]"

text \<open>The template ranges over a map in the order of its keys.\<close>

definition env_line :: "string \<times> string \<Rightarrow> string" where
  "env_line kv = ''        '' @ fst kv @ '' = '' @ quoted (snd kv)"

definition env_lines :: "(string \<times> string) list \<Rightarrow> string list" where
  "env_lines env =
     (if env = [] then []
      else [[], ''      env {''] @
           map env_line (sort_key fst env) @
           [''      }''])"

definition head_lines :: "service_spec \<Rightarrow> string list" where
  "head_lines s =
    [''job '' @ quoted (JobName s) @ '' {'',
     ''  region      = '' @ quoted (ss_Region s),
     ''  datacenters = ['' @ quoted (ss_Region s) @ '']'',
     ''  type        = '' @ quoted ''service'',
     [],
     ''  update {'',
     ''    max_parallel = 1'',
     ''    auto_revert  = true'',
     ''    health_check = '' @ quoted ''checks'',
     ''  }'',
     [],
     ''  group '' @ quoted (ss_Name s) @ '' {'',
     ''    count = '' @ itoa (ss_Replicas s),
     [],
     ''    network {'',
     ''      mode = '' @ quoted ''bridge'',
     ''      port '' @ quoted ''http'' @ '' {'',
     ''        to = '' @ itoa (ss_InternalPort s),
     ''      }'',
     ''    }'',
     [],
     ''    task '' @ quoted (ss_Name s) @ '' {'',
     ''      driver = '' @ quoted ''firecracker'',
     [],
     ''      config {'',
     ''        image  = '' @ quoted (ss_Image s),
     ''        vcpu   = '' @ itoa (ss_VCPU s),
     ''        memory = '' @ itoa (ss_MemoryMB s),
     ''      }'']"

definition tail_lines :: "service_spec \<Rightarrow> int \<Rightarrow> string list" where
  "tail_lines s cpu =
    [[],
     ''      resources {'',
     ''        cpu    = '' @ itoa cpu,
     ''        memory = '' @ itoa (ss_MemoryMB s),
     ''      }'',
     [],
     ''      service {'',
     ''        name = '' @ quoted (JobName s),
     ''        port = '' @ quoted ''http'',
     [],
     ''        check {'',
     ''          type     = '' @ quoted ''http'',
     ''          path     = '' @ quoted (ss_HealthPath s),
     ''          interval = '' @ quoted ''10s'',
     ''          timeout  = '' @ quoted ''3s'',
     ''        }'',
     ''      }'',
     ''    }'',
     ''  }'',
     ''}'',
     []]"

definition jobTemplate :: "service_spec \<Rightarrow> int \<Rightarrow> string" where
  "jobTemplate s cpu =
     Join (head_lines s @ env_lines (ss_Env s) @ tail_lines s cpu) [CHR 0x0A]"

definition Generate :: "service_spec \<Rightarrow> (spec_error, string) result" where
  "Generate spec =
     (let s = applyDefaults spec in
      case validate s of
        Some e \<Rightarrow> Inl e
      | None \<Rightarrow> Inr (jobTemplate s (wrap64 (ss_VCPU s * 1000))))"

section \<open>Memory sizes\<close>

datatype memory_error = EmptyMemory | InvalidMemory string

definition ParseMemoryMB :: "string \<Rightarrow> (memory_error, int) result" where
  "ParseMemoryMB str =
     (let s = ToLower (TrimSpace str) in
      if s = [] then Inl EmptyMemory
      else
        (let (mult, t) =
           (if HasSuffix s ''gb'' then (1024, TrimSuffix s ''gb'')
            else if HasSuffix s ''g'' then (1024, TrimSuffix s ''g'')
            else if HasSuffix s ''mb'' then (1, TrimSuffix s ''mb'')
            else if HasSuffix s ''m'' then (1, TrimSuffix s ''m'')
            else (1, s))
         in case Atoi (TrimSpace t) of
              None \<Rightarrow> Inl (InvalidMemory t)
            | Some n \<Rightarrow> Inr (wrap64 (n * mult))))"

section \<open>Reading the job back\<close>

lemma itoa_inj: "itoa i = itoa j \<longleftrightarrow> i = j"
proof -
  have sign: "hd (dec n) \<noteq> CHR ''-''" for n using dec_hd_digit [of n] by (auto simp: is_digit_def)
  have "CHR ''-'' # x \<noteq> dec n" for x n using sign [of n] by (metis list.sel(1))
  then show ?thesis by (auto simp: itoa_def) (metis+)
qed

lemma itoa_no_newline: "CHR 0x0A \<notin> set (itoa i)"
  using dec_no_char [of "CHR 0x0A"] by (auto simp: itoa_def is_digit_def)

lemma quoted_inj [simp]: "quoted a = quoted b \<longleftrightarrow> a = b"
  by (simp add: quoted_def)

definition one_line :: "string \<Rightarrow> bool" where
  "one_line t \<longleftrightarrow> CHR 0x0A \<notin> set t"

definition spec_plain :: "service_spec \<Rightarrow> bool" where
  "spec_plain s \<longleftrightarrow> list_all one_line
       [ss_Name s, ss_Org s, ss_Project s, ss_Region s, ss_Image s, ss_HealthPath s] \<and>
     list_all (\<lambda>(k, v). one_line k \<and> one_line v \<and> CHR '' '' \<notin> set k) (ss_Env s)"

lemma env_line_inj:
  assumes "env_line x = env_line y" "CHR '' '' \<notin> set (fst x)" "CHR '' '' \<notin> set (fst y)"
  shows "x = y"
proof -
  have e: "fst x @ CHR '' '' # ''= '' @ quoted (snd x) = fst y @ CHR '' '' # ''= '' @ quoted (snd y)"
    using assms(1) by (simp add: env_line_def)
  have "takeWhile (\<lambda>c. c \<noteq> CHR '' '') (fst x @ CHR '' '' # ''= '' @ quoted (snd x)) = fst x"
    by (rule takeWhile_append_stop) (use assms in auto)
  moreover have "takeWhile (\<lambda>c. c \<noteq> CHR '' '') (fst y @ CHR '' '' # ''= '' @ quoted (snd y)) = fst y"
    by (rule takeWhile_append_stop) (use assms in auto)
  ultimately have "fst x = fst y" using e by metis
  with e show ?thesis by (simp add: prod_eq_iff)
qed

lemma env_lines_inj:
  assumes "env_lines e = env_lines e'"
    and "\<forall>x \<in> set e. CHR '' '' \<notin> set (fst x)" "\<forall>x \<in> set e'. CHR '' '' \<notin> set (fst x)"
  shows "sort_key fst e = sort_key fst e'"
proof (cases "e = [] \<or> e' = []")
  case True
  with assms(1) show ?thesis by (auto simp: env_lines_def split: if_splits)
next
  case False
  from False assms(1) have m: "map env_line (sort_key fst e) = map env_line (sort_key fst e')"
    by (simp add: env_lines_def)
  have "inj_on env_line (set e \<union> set e')"
    by (rule inj_onI) (use assms(2,3) env_line_inj in blast)
  with m show ?thesis by (metis inj_on_map_eq_map set_sort)
qed

lemma lines_one_line:
  assumes "spec_plain s"
  shows "\<forall>l \<in> set (head_lines s @ env_lines (ss_Env s) @ tail_lines s c). CHR 0x0A \<notin> set l"
  using assms itoa_no_newline
  by (auto simp: head_lines_def tail_lines_def env_lines_def env_line_def quoted_def JobName_def spec_plain_def
      one_line_def list_all_iff)

lemma jobTemplate_lines:
  assumes "spec_plain s" "spec_plain s'" "jobTemplate s c = jobTemplate s' c'"
  shows "head_lines s = head_lines s' \<and> env_lines (ss_Env s) = env_lines (ss_Env s') \<and>
         tail_lines s c = tail_lines s' c'"
proof -
  let ?L = "\<lambda>s c. head_lines s @ env_lines (ss_Env s) @ tail_lines s c"
  have "Split (jobTemplate t d) (CHR 0x0A) = ?L t d" if "spec_plain t" for t d
    unfolding jobTemplate_def
    by (rule Split_Join) (use lines_one_line [OF that, of d] in \<open>auto simp: head_lines_def\<close>)
  with assms have "?L s c = ?L s' c'" by metis
  moreover have "length (head_lines s) = length (head_lines s')" by (simp add: head_lines_def)
  moreover have "length (tail_lines s c) = length (tail_lines s' c')" by (simp add: tail_lines_def)
  ultimately show ?thesis by (simp add: append_eq_append_conv)
qed

section \<open>Properties\<close>

text \<open>
  \<^verbatim>\<open>Generate\<close> rejects a spec exactly when its name, org, project or image is empty, naming
  the first of these that is missing; numbers that are not positive and an empty health path
  never make it fail but are replaced, so that a job always asks for at least one replica, one
  vCPU, some memory and a port.
\<close>

theorem Generate_accepts:
  "((\<exists>job. Generate s = Inr job) \<longleftrightarrow>
     ss_Name s \<noteq> [] \<and> ss_Org s \<noteq> [] \<and> ss_Project s \<noteq> [] \<and> ss_Image s \<noteq> []) \<and>
   Generate s = Generate (applyDefaults s) \<and>
   0 < ss_VCPU (applyDefaults s) \<and> 0 < ss_MemoryMB (applyDefaults s) \<and>
   0 < ss_Replicas (applyDefaults s) \<and> 0 < ss_InternalPort (applyDefaults s) \<and>
   ss_HealthPath (applyDefaults s) \<noteq> []"
  by (auto simp: Generate_def validate_def applyDefaults_def Let_def)


definition web_spec :: service_spec where
  "web_spec = \<lparr>ss_Name = ''web'', ss_Org = ''acme'', ss_Project = ''shop'', ss_Region = ''in-mum-1'',
     ss_Image = ''img'', ss_VCPU = 0, ss_MemoryMB = 512, ss_InternalPort = 0, ss_Replicas = 3,
     ss_HealthPath = [], ss_Env = [(''B'', ''2''), (''A'', ''1'')]\<rparr>"


text \<open>
  Values are not escaped: a spec with one environment variable whose value closes the quote
  and continues on the next line gives, byte for byte, the job of a spec with two variables; and
  moving a hyphen between the project and the service name gives the same job name.
\<close>

theorem Generate_not_escaped:
  "Generate (s\<lparr>ss_Env := [(''A'', ''1'' @ [CHR 0x22, CHR 0x0A] @ ''        B = '' @ [CHR 0x22] @ ''2'')]\<rparr>) =
   Generate (s\<lparr>ss_Env := [(''A'', ''1''), (''B'', ''2'')]\<rparr>) \<and>
   JobName (s\<lparr>ss_Project := ''a'', ss_Name := ''b-c''\<rparr>) =
   JobName (s\<lparr>ss_Project := ''a-b'', ss_Name := ''c''\<rparr>)"
proof -
  have j: "Join (xs @ [a, b] @ ys) c = Join (xs @ [a @ c @ b] @ ys) c" for xs ys :: "string list" and a b c
  proof (induction xs)
    case Nil
    then show ?case by (cases ys) auto
  next
    case (Cons x xs)
    then show ?case by (simp add: Join_Cons)
  qed
  let ?A = "''        A = '' @ quoted ''1''" and ?B = "''        B = '' @ quoted ''2''"
  let ?s1 = "applyDefaults (s\<lparr>ss_Env := [(''A'', ''1'' @ [CHR 0x22, CHR 0x0A] @ ''        B = '' @ [CHR 0x22] @ ''2'')]\<rparr>)"
  let ?s2 = "applyDefaults (s\<lparr>ss_Env := [(''A'', ''1''), (''B'', ''2'')]\<rparr>)"
  have e1: "env_lines (ss_Env ?s1) = [[], ''      env {'', ?A @ [CHR 0x0A] @ ?B, ''      }'']"
    by (simp add: env_lines_def env_line_def applyDefaults_def quoted_def)
  have e2: "env_lines (ss_Env ?s2) = [[], ''      env {'', ?A, ?B, ''      }'']"
    by (simp add: env_lines_def env_line_def applyDefaults_def quoted_def)
  have t: "head_lines ?s1 = head_lines ?s2" "\<And>c. tail_lines ?s1 c = tail_lines ?s2 c"
    by (simp_all add: head_lines_def tail_lines_def applyDefaults_def JobName_def)
  have "jobTemplate ?s1 c = jobTemplate ?s2 c" for c
    using j [of "head_lines ?s2 @ [[], ''      env {'']" ?A ?B "''      }'' # tail_lines ?s2 c" "[CHR 0x0A]"]
    unfolding jobTemplate_def e1 e2 t by (simp only: append.assoc append.simps)
  moreover have "validate ?s1 = validate ?s2" "ss_VCPU ?s1 = ss_VCPU ?s2"
    by (simp_all add: validate_def applyDefaults_def)
  ultimately have "Generate (s\<lparr>ss_Env := [(''A'', ''1'' @ [CHR 0x22, CHR 0x0A] @ ''        B = '' @ [CHR 0x22] @ ''2'')]\<rparr>) =
      Generate (s\<lparr>ss_Env := [(''A'', ''1''), (''B'', ''2'')]\<rparr>)"
    unfolding Generate_def Let_def by (simp only:)
  then show ?thesis by (simp add: JobName_def)
qed

section \<open>Memory strings\<close>

definition memory_units :: "(string \<times> int) list" where
  "memory_units =
     [([], 1), (''m'', 1), (''M'', 1), (''mb'', 1), (''MB'', 1), (''Mb'', 1),
      (''g'', 1024), (''G'', 1024), (''gb'', 1024), (''GB'', 1024), (''Gb'', 1024)]"

lemma HasSuffix_snoc [simp]: "HasSuffix (xs @ [b]) (ys @ [d]) \<longleftrightarrow> b = d \<and> HasSuffix xs ys"
  by (auto simp: HasSuffix_suffix)

lemma HasSuffix_one: "HasSuffix (xs @ [b]) [d] \<longleftrightarrow> b = d"
  using HasSuffix_snoc [of xs b "[]" d] by (simp add: HasSuffix_suffix)

lemma HasSuffix_two:
  "HasSuffix (xs @ [a, b]) [c, d] \<longleftrightarrow> a = c \<and> b = d"
  "b \<noteq> d \<Longrightarrow> \<not> HasSuffix (xs @ [b]) [c, d]"
  using HasSuffix_snoc [of "xs @ [a]" b "[c]" d] HasSuffix_snoc [of xs b "[c]" d] HasSuffix_one
  by auto

lemma dec_no_suffix: "\<not> is_digit c \<Longrightarrow> \<not> HasSuffix (dec n) (p @ [c])"
  using dec_no_char [of c n] by (auto simp: HasSuffix_suffix suffix_def)

lemma unit_plain: "(u, k) \<in> set memory_units \<Longrightarrow> list_all plain_char u"
  by (auto simp: memory_units_def plain_char_def)

lemma lower_units: "lower (CHR ''m'') = CHR ''m''" "lower (CHR ''M'') = CHR ''m''"
  "lower (CHR ''g'') = CHR ''g''" "lower (CHR ''G'') = CHR ''g''"
  "lower (CHR ''b'') = CHR ''b''" "lower (CHR ''B'') = CHR ''b''"
  by (simp_all add: lower_def char_of_def bit_iff_odd)

lemma unit_lower: "(u, k) \<in> set memory_units \<Longrightarrow>
    (map lower u, k) \<in> {([], 1), (''m'', 1), (''mb'', 1), (''g'', 1024), (''gb'', 1024)}"
  by (auto simp: memory_units_def lower_units)

lemma ParseMemoryMB_unit:
  assumes u: "(u, k) \<in> set memory_units" and n: "n < 2 ^ 63"
  shows "ParseMemoryMB (dec n @ u) = Inr (wrap64 (int n * k))"
proof -
  have trim: "TrimSpace (dec n @ u) = dec n @ u"
    using unit_plain [OF u] dec_plain by (intro TrimSpace_plain) auto
  have low: "ToLower (dec n @ u) = dec n @ map lower u"
    using ToLower_dec [of n] by (simp add: ToLower_def)
  have tn: "TrimSpace (dec n) = dec n" by (rule TrimSpace_plain [OF dec_plain])
  have ns: "\<not> HasSuffix (dec n) ''gb''" "\<not> HasSuffix (dec n) ''g''" "\<not> HasSuffix (dec n) ''mb''"
    "\<not> HasSuffix (dec n) ''m''"
    using dec_no_suffix [of "CHR ''b''" n "''g''"] dec_no_suffix [of "CHR ''g''" n "[]"]
      dec_no_suffix [of "CHR ''b''" n "''m''"] dec_no_suffix [of "CHR ''m''" n "[]"]
    by (auto simp: is_digit_def)
  note ev = ParseMemoryMB_def Let_def trim low tn Atoi_dec [OF n]
  from unit_lower [OF u] consider "map lower u = [] \<and> k = 1" | "map lower u = ''m'' \<and> k = 1"
    | "map lower u = ''mb'' \<and> k = 1" | "map lower u = ''g'' \<and> k = 1024" | "map lower u = ''gb'' \<and> k = 1024"
    by auto
  then show ?thesis
  proof cases
    case 1
    then show ?thesis using ns tn by (simp add: ev ToLower_dec)
  next
    case 2
    then show ?thesis
      using TrimSuffix_append [of "dec n" "''m''"] HasSuffix_one [of "dec n" "CHR ''m''"]
      by (simp add: ev HasSuffix_two(2) del: TrimSuffix_append)
  next
    case 3
    then show ?thesis
      using TrimSuffix_append [of "dec n" "''mb''"] HasSuffix_one [of "dec n @ ''m''" "CHR ''b''"]
      by (simp add: ev HasSuffix_two(1) del: TrimSuffix_append)
  next
    case 4
    then show ?thesis
      using TrimSuffix_append [of "dec n" "''g''"] HasSuffix_one [of "dec n" "CHR ''g''"]
      by (simp add: ev HasSuffix_two(2) del: TrimSuffix_append)
  next
    case 5
    then show ?thesis
      using TrimSuffix_append [of "dec n" "''gb''"]
      by (simp add: ev HasSuffix_two(1) del: TrimSuffix_append)
  qed
qed

text \<open>
  A memory size is read for what it says: a decimal number below 2^63 with no unit, or with
  the unit m, mb, g or gb in any of the usual capitalisations, gives that many megabytes, times
  1024 for gigabytes, in 64-bit arithmetic; so it is exact below 2^53 gigabytes and wraps around
  beyond, where 2^53 gigabytes come out negative.
\<close>

theorem ParseMemoryMB_reads:
  "((u, k) \<in> set memory_units \<longrightarrow> n < 2 ^ 63 \<longrightarrow>
      ParseMemoryMB (dec n @ u) = Inr (wrap64 (int n * k)) \<and>
      (n < 2 ^ 53 \<longrightarrow> ParseMemoryMB (dec n @ u) = Inr (int n * k))) \<and>
   ParseMemoryMB (dec (2 ^ 53) @ ''gb'') = Inr (- (2 ^ 63))"
proof -
  have small: "wrap64 (int n * k) = int n * k" if "(u, k) \<in> set memory_units" "n < 2 ^ 53" for u k n
  proof -
    have k: "k = 1 \<or> k = 1024" using unit_lower [OF that(1)] by auto
    have "int n < 2 ^ 53" using that(2) by (metis of_nat_less_numeral_power_cancel_iff)
    with k show ?thesis by (intro wrap64_id) (auto simp: int64_def)
  qed
  have g: "(''gb'', 1024) \<in> set memory_units" by (simp add: memory_units_def)
  have "ParseMemoryMB (dec (2 ^ 53) @ ''gb'') = Inr (wrap64 (int (2 ^ 53) * 1024))"
    by (rule ParseMemoryMB_unit [OF g]) simp
  then have "ParseMemoryMB (dec (2 ^ 53) @ ''gb'') = Inr (- (2 ^ 63))" by (simp add: wrap64_def)
  with small ParseMemoryMB_unit [of u k n] show ?thesis by auto
qed

theorem ParseMemoryMB_reads_witness:
  "ParseMemoryMB ''512MB'' = Inr 512 \<and> ParseMemoryMB ''2g'' = Inr 2048"
proof -
  have "dec 512 = ''512''" "dec 2 = ''2''" by (simp_all add: dec.simps digit_def)
  with ParseMemoryMB_reads [of "''MB''" 1 512] ParseMemoryMB_reads [of "''g''" 1024 2]
  show ?thesis by (simp add: memory_units_def wrap64_def)
qed

end
