(* ===== verification/Go_Path.thy ===== *)
theory Go_Path
  imports Go_Strings
begin

text \<open>
  Go's \<^verbatim>\<open>path/filepath\<close> on Unix as far as the services use it: \<^verbatim>\<open>Clean\<close>, \<^verbatim>\<open>Join\<close> and \<^verbatim>\<open>Dir\<close>, computed
  on the list of a path's components, and the correspondence between absolute clean paths and
  component lists.
\<close>

section \<open>Clean and Join\<close>

text \<open>The components after cleaning; the accumulator is the cleaned prefix, last component first.\<close>

fun clean_comps :: "bool \<Rightarrow> string list \<Rightarrow> string list \<Rightarrow> string list" where
  "clean_comps rooted acc [] = rev acc"
| "clean_comps rooted acc (c # cs) =
     (if c = [] \<or> c = ''.'' then clean_comps rooted acc cs
      else if c = ''..'' then
        (case acc of
           [] \<Rightarrow> clean_comps rooted (if rooted then [] else [c]) cs
         | a # as \<Rightarrow> if a = ''..'' then clean_comps rooted (c # acc) cs
                     else clean_comps rooted as cs)
      else clean_comps rooted (c # acc) cs)"

definition Clean :: "string \<Rightarrow> string" where
  "Clean p =
     (let rooted = (take 1 p = ''/'');
          cs = clean_comps rooted [] (Split p (CHR ''/''))
      in if rooted then ''/'' @ Join cs ''/'' else if cs = [] then ''.'' else Join cs ''/'')"

definition JoinPath :: "string list \<Rightarrow> string" where
  "JoinPath ps =
     (let qs = dropWhile (\<lambda>p. p = []) ps in if qs = [] then [] else Clean (Join qs ''/''))"

lemma clean_comps_nonempty: "[] \<notin> set acc \<Longrightarrow> [] \<notin> set (clean_comps rooted acc cs)"
  by (induction rooted acc cs rule: clean_comps.induct) (auto split: list.splits)

lemma Clean_nonempty: "Clean p \<noteq> []"
proof -
  have "Join cs ''/'' \<noteq> []" if "cs \<noteq> []" "[] \<notin> set cs" for cs
    using that by (cases cs; cases "tl cs") auto
  then show ?thesis
    using clean_comps_nonempty [of "[]" _ "Split p (CHR ''/'')"] by (auto simp: Clean_def Let_def)
qed

lemma JoinPath_nonempty: "ps \<noteq> [] \<Longrightarrow> last ps \<noteq> [] \<Longrightarrow> JoinPath ps \<noteq> []"
  by (auto simp: JoinPath_def Let_def Clean_nonempty dropWhile_eq_Nil_conv)

text \<open>\<^verbatim>\<open>filepath.Dir\<close>: everything before the last slash, cleaned.\<close>

definition Dir :: "string \<Rightarrow> string" where
  "Dir p = Clean (rev (dropWhile (\<lambda>c. c \<noteq> CHR ''/'') (rev p)))"

section \<open>Absolute clean paths as component lists\<close>

definition proper :: "string \<Rightarrow> bool" where
  "proper c \<longleftrightarrow> c \<noteq> [] \<and> c \<noteq> ''.'' \<and> c \<noteq> ''..'' \<and> CHR ''/'' \<notin> set c"

definition abs_path :: "string list \<Rightarrow> string" where
  "abs_path cs = ''/'' @ Join cs ''/''"

lemma proper_slash: "list_all proper cs \<Longrightarrow> \<forall>c \<in> set cs. CHR ''/'' \<notin> set c"
  by (auto simp: list_all_iff proper_def)

lemma Split_abs_path:
  assumes "list_all proper cs" and "cs \<noteq> []"
  shows "Split (abs_path cs) (CHR ''/'') = [] # cs"
  using Split_Join [OF assms(2) proper_slash [OF assms(1)]] by (simp add: abs_path_def)

lemma abs_path_inj:
  assumes "list_all proper cs" "list_all proper ds" "abs_path cs = abs_path ds"
  shows "cs = ds"
proof -
  have ne: "xs = []" if "list_all proper xs" "abs_path xs = ''/''" for xs
    using that by (cases xs; cases "tl xs") (auto simp: abs_path_def proper_def)
  show ?thesis
  proof (cases "cs = [] \<or> ds = []")
    case True
    then consider "cs = []" | "ds = []" by blast
    then show ?thesis
    proof cases
      case 1
      with assms have "abs_path ds = ''/''" by (simp add: abs_path_def)
      with ne [OF assms(2)] 1 show ?thesis by simp
    next
      case 2
      with assms have "abs_path cs = ''/''" by (simp add: abs_path_def)
      with ne [OF assms(1)] 2 show ?thesis by simp
    qed
  next
    case False
    with assms Split_abs_path show ?thesis by (metis list.inject)
  qed
qed

lemma clean_comps_proper:
  "list_all proper acc \<Longrightarrow> \<forall>c \<in> set cs. CHR ''/'' \<notin> set c \<Longrightarrow>
     list_all proper (clean_comps True acc cs)"
proof (induction cs arbitrary: acc)
  case Nil
  then show ?case by (simp add: list_all_iff)
next
  case (Cons c cs)
  then show ?case
    by (auto simp: proper_def split: list.split)
qed

lemma clean_comps_append_proper:
  "list_all proper ds \<Longrightarrow> clean_comps True acc (ds @ cs) = clean_comps True (rev ds @ acc) cs"
proof (induction ds arbitrary: acc)
  case (Cons d ds)
  then show ?case by (auto simp: proper_def)
qed simp

text \<open>Resolving a name against a directory: the reference for joining.\<close>

definition resolve :: "string list \<Rightarrow> string \<Rightarrow> string list" where
  "resolve ds name = clean_comps True (rev ds) (Split name (CHR ''/''))"

lemma resolve_proper: "list_all proper ds \<Longrightarrow> list_all proper (resolve ds name)"
  unfolding resolve_def
  by (intro clean_comps_proper) (auto simp: list_all_iff dest: Split_no_sep)

lemma JoinPath_abs:
  assumes ds: "list_all proper ds" "ds \<noteq> []"
  shows "JoinPath [abs_path ds, name] = abs_path (resolve ds name)"
proof -
  have ne: "abs_path ds \<noteq> []" by (simp add: abs_path_def)
  have "Split (abs_path ds @ CHR ''/'' # name) (CHR ''/'') = ([] # ds) @ Split name (CHR ''/'')"
    by (simp only: Split_append Split_abs_path [OF ds])
  then have "clean_comps True [] (Split (abs_path ds @ CHR ''/'' # name) (CHR ''/'')) =
      resolve ds name"
    using clean_comps_append_proper [OF ds(1), of "[]"] by (simp add: resolve_def)
  with ne show ?thesis
    by (simp add: JoinPath_def Clean_def Let_def) (simp add: abs_path_def)
qed

lemma abs_path_prefix:
  assumes ds: "list_all proper ds" "ds \<noteq> []" and cs: "list_all proper cs"
  shows "HasPrefix (abs_path cs) (abs_path ds @ ''/'') \<longleftrightarrow> (\<exists>e es. cs = ds @ e # es)"
proof
  assume "HasPrefix (abs_path cs) (abs_path ds @ ''/'')"
  then obtain r where r: "abs_path cs = abs_path ds @ CHR ''/'' # r"
    by (auto simp: HasPrefix_prefix elim!: prefixE)
  then have "cs \<noteq> []" using ds by (cases ds; cases "tl ds") (auto simp: abs_path_def)
  with r cs ds have "[] # cs = ([] # ds) @ Split r (CHR ''/'')"
    by (metis Split_abs_path Split_append)
  then have "cs = ds @ Split r (CHR ''/'')" by simp
  then show "\<exists>e es. cs = ds @ e # es" by (metis Split_nonempty neq_Nil_conv)
next
  assume "\<exists>e es. cs = ds @ e # es"
  then obtain e es where es: "cs = ds @ e # es" by blast
  have "Join (ds @ e # es) ''/'' = Join ds ''/'' @ ''/'' @ Join (e # es) ''/''"
    using ds(2) by (induction ds rule: list_nonempty_induct) (auto simp: Join_Cons)
  with es show "HasPrefix (abs_path cs) (abs_path ds @ ''/'')"
    by (simp add: abs_path_def HasPrefix_def)
qed

lemma Dir_abs_path:
  assumes "list_all proper cs"
  shows "Dir (abs_path cs) = abs_path (butlast cs)"
proof (cases cs rule: rev_cases)
  case Nil
  then show ?thesis by (simp add: Dir_def abs_path_def Clean_def Let_def)
next
  case (snoc bs b)
  with assms have b: "CHR ''/'' \<notin> set b" and bs: "list_all proper bs" by (auto simp: proper_def)
  obtain pre where pre: "abs_path cs = pre @ CHR ''/'' # b" "pre = [] \<and> bs = [] \<or> pre = abs_path bs \<and> bs \<noteq> []"
  proof (cases "bs = []")
    case True
    with snoc show ?thesis using that [of "[]"] by (simp add: abs_path_def)
  next
    case False
    then have "Join (bs @ [b]) ''/'' = Join bs ''/'' @ CHR ''/'' # b"
      by (induction bs rule: list_nonempty_induct) (auto simp: Join_Cons)
    with snoc False show ?thesis using that [of "abs_path bs"] by (simp add: abs_path_def)
  qed
  have d: "Dir (abs_path cs) = Clean (pre @ ''/'')"
  proof -
    have "dropWhile (\<lambda>c. c \<noteq> CHR ''/'') (rev b @ CHR ''/'' # rev pre) = CHR ''/'' # rev pre"
      by (rule dropWhile_append_stop) (use b in auto)
    then show ?thesis unfolding Dir_def pre(1) by simp
  qed
  from pre(2) show ?thesis
  proof
    assume "pre = [] \<and> bs = []"
    with d snoc show ?thesis by (simp add: abs_path_def Clean_def Let_def)
  next
    assume p: "pre = abs_path bs \<and> bs \<noteq> []"
    then have "pre @ ''/'' = abs_path bs @ CHR ''/'' # []" by simp
    then have "Split (pre @ ''/'') (CHR ''/'') = ([] # bs) @ [[]]"
      using Split_abs_path [OF bs] p by (simp only: Split_append) simp
    moreover have "clean_comps True [] (bs @ [[]]) = bs"
      using clean_comps_append_proper [OF bs, of "[]" "[[]]"] by simp
    ultimately have "Clean (pre @ ''/'') = abs_path bs"
      using p by (simp add: Clean_def Let_def abs_path_def)
    with d snoc show ?thesis by simp
  qed
qed

end
