(* ===== verification/Manifest.thy ===== *)
theory Manifest
  imports Go_Path
begin

text \<open>
  The deploy manifest, \<^verbatim>\<open>cli/internal/manifest/manifest.go\<close>: the parsed \<^verbatim>\<open>platform.toml\<close>, its
  validation and the choice of a service. Reading the file and parsing TOML (the package
  \<^verbatim>\<open>go-toml\<close>) are parameters of \<open>Load\<close>. The theorems: validation accepts exactly the manifests that
  name their application, organisation, project and every service, it reports the first thing that
  is missing, and after it the choice of a service cannot index an empty list.
\<close>

section \<open>The manifest\<close>

record app =
  ap_Name :: string
  ap_Org :: string
  ap_Project :: string
  ap_Region :: string

record build =
  bd_Builder :: string
  bd_Dockerfile :: string
  bd_BuildArgs :: "string \<rightharpoonup> string"
  bd_BuildSecrets :: "string list"

record autoscale =
  as_Metric :: string
  as_Threshold :: int
  as_Cooldown :: string

record compute =
  cp_Tier :: string
  cp_VCPU :: int
  cp_Memory :: string
  cp_ScaleToZeroAfter :: string
  cp_MinReplicas :: int
  cp_MaxReplicas :: int
  cp_Autoscale :: autoscale

record health_check =
  hc_Path :: string
  hc_Interval :: string
  hc_Timeout :: string

record env_var =
  ev_Name :: string
  ev_Value :: string

record secret_ref =
  sf_EnvVar :: string
  sf_VaultPath :: string

record service =
  sv_Name :: string
  sv_Command :: "string list"
  sv_InternalPort :: int
  sv_Protocol :: string
  sv_HealthChecks :: "health_check list"
  sv_Env :: "env_var list"
  sv_SecretRefs :: "secret_ref list"

record database =
  db_Name :: string
  db_Engine :: string
  db_Version :: string
  db_Region :: string
  db_DataClass :: string
  db_AutoBranchOnPreview :: bool

record domains =
  dm_Custom :: "string list"

record networking =
  nw_Private :: bool

record environment =
  en_MinReplicas :: int
  en_ScaleToZeroAfter :: string

record manifest =
  mf_App :: app
  mf_Build :: build
  mf_Compute :: compute
  mf_Services :: "service list"
  mf_Databases :: "database list"
  mf_Domains :: domains
  mf_Networking :: networking
  mf_Environments :: "string \<rightharpoonup> environment"

section \<open>Operations\<close>

datatype manifest_error =
    AppNameRequired | AppOrgRequired | AppProjectRequired | ServiceRequired
  | ServiceNameRequired nat
  | ServiceNotFound string
  | ReadFailed string
  | ParseFailed string string           \<comment> \<open>path and cause\<close>
  | InvalidManifest string manifest_error

fun manifest_error_text :: "(string \<Rightarrow> string) \<Rightarrow> manifest_error \<Rightarrow> string" where
  "manifest_error_text quote AppNameRequired = ''app.name is required''"
| "manifest_error_text quote AppOrgRequired = ''app.org is required''"
| "manifest_error_text quote AppProjectRequired = ''app.project is required''"
| "manifest_error_text quote ServiceRequired = ''at least one [[service]] is required''"
| "manifest_error_text quote (ServiceNameRequired i) = ''service['' @ dec i @ ''].name is required''"
| "manifest_error_text quote (ServiceNotFound n) = ''service '' @ quote n @ '' not found in manifest''"
| "manifest_error_text quote (ReadFailed e) = e"
| "manifest_error_text quote (ParseFailed path e) = ''parse '' @ path @ '': '' @ e"
| "manifest_error_text quote (InvalidManifest path e) = path @ '': '' @ manifest_error_text quote e"

text \<open>The loop over the services, from index \<open>i\<close>.\<close>

fun unnamed_from :: "nat \<Rightarrow> service list \<Rightarrow> manifest_error option" where
  "unnamed_from i [] = None"
| "unnamed_from i (s # ss) = (if sv_Name s = [] then Some (ServiceNameRequired i) else unnamed_from (Suc i) ss)"

definition Validate :: "manifest \<Rightarrow> manifest_error option" where
  "Validate m =
     (if ap_Name (mf_App m) = [] then Some AppNameRequired
      else if ap_Org (mf_App m) = [] then Some AppOrgRequired
      else if ap_Project (mf_App m) = [] then Some AppProjectRequired
      else if mf_Services m = [] then Some ServiceRequired
      else unnamed_from 0 (mf_Services m))"

text \<open>
  \<^verbatim>\<open>ServiceByName\<close> returns a pointer into the manifest: the index of the service. Without a name it
  is that of the first service, and indexing an empty list panics: \<open>None\<close>.
\<close>

definition ServiceByName :: "manifest \<Rightarrow> string \<Rightarrow> (manifest_error, nat) result option" where
  "ServiceByName m name =
     (if name = [] then (if mf_Services m = [] then None else Some (Inr 0))
      else (case List.find (\<lambda>i. sv_Name (mf_Services m ! i) = name) [0..<length (mf_Services m)] of
              Some i \<Rightarrow> Some (Inr i)
            | None \<Rightarrow> Some (Inl (ServiceNotFound name))))"

definition Load ::
  "(string \<Rightarrow> (string, string) result) \<Rightarrow> (string \<Rightarrow> (string, manifest) result) \<Rightarrow> string \<Rightarrow>
   (manifest_error, manifest) result" where
  "Load read_file toml path =
     (case read_file path of
        Inl e \<Rightarrow> Inl (ReadFailed e)
      | Inr b \<Rightarrow>
          (case toml b of
             Inl e \<Rightarrow> Inl (ParseFailed path e)
           | Inr m \<Rightarrow> (case Validate m of Some e \<Rightarrow> Inl (InvalidManifest path e) | None \<Rightarrow> Inr m)))"

section \<open>Validation\<close>

definition complete :: "manifest \<Rightarrow> bool" where
  "complete m \<longleftrightarrow>
     ap_Name (mf_App m) \<noteq> [] \<and> ap_Org (mf_App m) \<noteq> [] \<and> ap_Project (mf_App m) \<noteq> [] \<and>
     mf_Services m \<noteq> [] \<and> list_all (\<lambda>s. sv_Name s \<noteq> []) (mf_Services m)"

lemma unnamed_from_None: "unnamed_from i ss = None \<longleftrightarrow> list_all (\<lambda>s. sv_Name s \<noteq> []) ss"
  by (induction i ss rule: unnamed_from.induct) auto

lemma unnamed_from_Some:
  "unnamed_from i ss = Some e \<longleftrightarrow>
     (\<exists>k < length ss. e = ServiceNameRequired (i + k) \<and> sv_Name (ss ! k) = [] \<and>
        (\<forall>j < k. sv_Name (ss ! j) \<noteq> []))" (is "_ \<longleftrightarrow> (\<exists>k < _. ?P i ss e k)")
proof (induction i ss rule: unnamed_from.induct)
  case (2 i s ss)
  show ?case
  proof (cases "sv_Name s = []")
    case True
    have "k = 0" if "\<forall>j < k. sv_Name ((s # ss) ! j) \<noteq> []" for k
      using that True by (cases k) auto
    then show ?thesis using True by auto
  next
    case False
    have "(\<exists>k < length (s # ss). ?P i (s # ss) e k) \<longleftrightarrow> (\<exists>k < length ss. ?P (Suc i) ss e k)"
    proof
      assume "\<exists>k < length (s # ss). ?P i (s # ss) e k"
      then obtain k where k: "k < length (s # ss)" "?P i (s # ss) e k" by blast
      then obtain k' where "k = Suc k'" using False by (cases k) auto
      with k show "\<exists>k < length ss. ?P (Suc i) ss e k" by (intro exI [of _ k']) auto
    next
      assume "\<exists>k < length ss. ?P (Suc i) ss e k"
      then obtain k where "k < length ss" "?P (Suc i) ss e k" by blast
      with False show "\<exists>k < length (s # ss). ?P i (s # ss) e k"
        by (intro exI [of _ "Suc k"]) (auto simp: nth_Cons split: nat.splits)
    qed
    with False 2 show ?thesis by simp
  qed
qed simp

lemma Validate_complete: "Validate m = None \<longleftrightarrow> complete m"
  by (simp add: Validate_def complete_def unnamed_from_None)

lemma Load_complete:
  "Load read_file toml path = Inr m \<longleftrightarrow> (\<exists>b. read_file path = Inr b \<and> toml b = Inr m \<and> complete m)"
  by (auto simp: Load_def Validate_complete [symmetric] split: sum.splits option.splits)

lemma find_index:
  "List.find P [0..<n] = Some i \<longleftrightarrow> i < n \<and> P i \<and> (\<forall>j < i. \<not> P j)"
proof (induction n)
  case (Suc n)
  have f: "List.find P (xs @ ys) = (case List.find P xs of Some x \<Rightarrow> Some x | None \<Rightarrow> List.find P ys)" for xs ys
    by (induction xs) auto
  have "List.find P [0..<n] = None \<longleftrightarrow> (\<forall>j < n. \<not> P j)" by (auto simp: find_None_iff)
  with Suc show ?case by (auto simp: f less_Suc_eq split: option.splits)
qed simp

lemma ServiceByName_complete:
  assumes "complete m"
  shows "\<exists>r. ServiceByName m name = Some r \<and>
    (case r of
       Inr i \<Rightarrow> i < length (mf_Services m) \<and> (if name = [] then i = 0 else sv_Name (mf_Services m ! i) = name) \<and>
          (\<forall>j < i. sv_Name (mf_Services m ! j) \<noteq> name)
     | Inl e \<Rightarrow> e = ServiceNotFound name \<and> name \<notin> sv_Name ` set (mf_Services m))"
proof (cases "name = []")
  case True
  with assms show ?thesis by (simp add: ServiceByName_def complete_def)
next
  case False
  show ?thesis
  proof (cases "List.find (\<lambda>i. sv_Name (mf_Services m ! i) = name) [0..<length (mf_Services m)]")
    case None
    then have "name \<notin> sv_Name ` set (mf_Services m)" by (auto simp: find_None_iff in_set_conv_nth)
    with None False show ?thesis by (simp add: ServiceByName_def)
  next
    case (Some i)
    with False have "ServiceByName m name = Some (Inr i)" by (simp add: ServiceByName_def)
    with Some False show ?thesis unfolding find_index by simp
  qed
qed

section \<open>Properties\<close>

text \<open>
  C34. Loading a manifest: it succeeds exactly when the file can be read, parses, and names the
  application, the organisation, the project and at least one service, each with a name; a parsed
  manifest whose services are not all named is refused with the index of the first one that is not,
  once everything before it is there; and whatever service is asked of a loaded manifest, the
  lookup does not panic: it gives the first service with that name, the first service when no name
  was given, or reports that no service has it.
\<close>

theorem Load_contract:
  "(Load read_file toml path = Inr m \<longleftrightarrow> (\<exists>b. read_file path = Inr b \<and> toml b = Inr m \<and> complete m)) \<and>
   (Validate m = Some (ServiceNameRequired i) \<longleftrightarrow>
      ap_Name (mf_App m) \<noteq> [] \<and> ap_Org (mf_App m) \<noteq> [] \<and> ap_Project (mf_App m) \<noteq> [] \<and>
      i < length (mf_Services m) \<and> sv_Name (mf_Services m ! i) = [] \<and>
      list_all (\<lambda>s. sv_Name s \<noteq> []) (take i (mf_Services m))) \<and>
   (Load read_file toml path = Inr m \<longrightarrow>
      (\<exists>r. ServiceByName m name = Some r \<and>
        (case r of
           Inr k \<Rightarrow> k < length (mf_Services m) \<and> (if name = [] then k = 0 else sv_Name (mf_Services m ! k) = name) \<and>
              (\<forall>j < k. sv_Name (mf_Services m ! j) \<noteq> name)
         | Inl e \<Rightarrow> e = ServiceNotFound name \<and> name \<notin> sv_Name ` set (mf_Services m))))"
proof -
  have "list_all (\<lambda>s. sv_Name s \<noteq> []) (take i ss) \<longleftrightarrow> (\<forall>j < i. sv_Name (ss ! j) \<noteq> [])"
    if "i < length ss" for ss
    using that by (auto simp: list_all_length)
  then have "Validate m = Some (ServiceNameRequired i) \<longleftrightarrow>
      ap_Name (mf_App m) \<noteq> [] \<and> ap_Org (mf_App m) \<noteq> [] \<and> ap_Project (mf_App m) \<noteq> [] \<and>
      i < length (mf_Services m) \<and> sv_Name (mf_Services m ! i) = [] \<and>
      list_all (\<lambda>s. sv_Name s \<noteq> []) (take i (mf_Services m))"
    by (auto simp: Validate_def unnamed_from_Some)
  with Load_complete ServiceByName_complete show ?thesis by blast
qed

definition demo_manifest :: "string list \<Rightarrow> manifest" where
  "demo_manifest names =
     \<lparr>mf_App = \<lparr>ap_Name = ''shop'', ap_Org = ''acme'', ap_Project = ''p'', ap_Region = ''in-mum-1''\<rparr>,
      mf_Build = \<lparr>bd_Builder = ''dockerfile'', bd_Dockerfile = [], bd_BuildArgs = Map.empty, bd_BuildSecrets = []\<rparr>,
      mf_Compute = \<lparr>cp_Tier = [], cp_VCPU = 0, cp_Memory = [], cp_ScaleToZeroAfter = [], cp_MinReplicas = 0,
        cp_MaxReplicas = 0, cp_Autoscale = \<lparr>as_Metric = [], as_Threshold = 0, as_Cooldown = []\<rparr>\<rparr>,
      mf_Services = map (\<lambda>n. \<lparr>sv_Name = n, sv_Command = [], sv_InternalPort = 0, sv_Protocol = [],
        sv_HealthChecks = [], sv_Env = [], sv_SecretRefs = []\<rparr>) names,
      mf_Databases = [], mf_Domains = \<lparr>dm_Custom = []\<rparr>, mf_Networking = \<lparr>nw_Private = False\<rparr>,
      mf_Environments = Map.empty\<rparr>"

theorem Load_contract_witness:
  "Load (\<lambda>_. Inr []) (\<lambda>_. Inr (demo_manifest [''web'', ''api''])) ''platform.toml'' = Inr (demo_manifest [''web'', ''api'']) \<and>
   ServiceByName (demo_manifest [''web'', ''api'']) [] = Some (Inr 0) \<and>
   Validate (demo_manifest [''web'', []]) = Some (ServiceNameRequired 1)"
proof -
  let ?m = "demo_manifest [''web'', ''api'']"
  have c: "complete ?m" by (simp add: complete_def demo_manifest_def)
  then have l: "Load (\<lambda>_. Inr []) (\<lambda>_. Inr ?m) ''platform.toml'' = Inr ?m"
    using Load_contract [of "\<lambda>_. Inr []" "\<lambda>_. Inr ?m" "''platform.toml''" ?m 0 "[]"] by blast
  then have "\<exists>r. ServiceByName ?m [] = Some r"
    using Load_contract [of "\<lambda>_. Inr []" "\<lambda>_. Inr ?m" "''platform.toml''" ?m 0 "[]"] by blast
  then have "ServiceByName ?m [] = Some (Inr 0)" by (simp add: ServiceByName_def demo_manifest_def)
  moreover have "Validate (demo_manifest [''web'', []]) = Some (ServiceNameRequired 1)"
    by (simp add: Validate_def demo_manifest_def)
  ultimately show ?thesis using l by blast
qed

end
