(* ===== verification/Ipam.thy ===== *)
theory Ipam
  imports Go_Strings "HOL-Library.Multiset"
begin

text \<open>
  The scheduler's address allocator, \<^verbatim>\<open>services/scheduler/internal/ipam/ipam.go\<close>: an
  in-memory allocator of guest octets with a stack of released ones. The theory holds its
  state and operations, the contract of an address pool as a locale, the interpretation of the
  contract by the allocator, and the theorems about every interleaving of allocations and
  releases (the allocator's mutex makes each operation atomic, so a concurrent execution is a
  sequence of them).
\<close>

section \<open>The allocator\<close>

record lease =
  l_GuestIP :: string
  l_TapDev :: string
  l_GuestMAC :: string
  l_octet :: nat

record allocator =
  next_octet :: nat
  freed :: "nat list"
  hostIP :: string

datatype ipam_error = PoolExhausted

definition ipam_error_text :: "ipam_error \<Rightarrow> string" where
  "ipam_error_text e = ''ipam: address pool exhausted''"

definition New :: allocator where
  "New = \<lparr>next_octet = 2, freed = [], hostIP = ''172.16.0.1''\<rparr>"

definition HostIP :: "allocator \<Rightarrow> string" where
  "HostIP a = hostIP a"

definition mk_lease :: "nat \<Rightarrow> lease" where
  "mk_lease n =
     \<lparr>l_GuestIP = ''172.16.0.'' @ dec n,
      l_TapDev = ''fctap'' @ dec n,
      l_GuestMAC = ''06:00:AC:10:00:'' @ fmt_02X n,
      l_octet = n\<rparr>"

definition Allocate :: "allocator \<Rightarrow> (ipam_error, lease) result \<times> allocator" where
  "Allocate a =
     (if length (freed a) > 0
      then (Inr (mk_lease (last (freed a))), a\<lparr>freed := butlast (freed a)\<rparr>)
      else if next_octet a > 254 then (Inl PoolExhausted, a)
      else (Inr (mk_lease (next_octet a)), a\<lparr>next_octet := next_octet a + 1\<rparr>))"

definition Release :: "allocator \<Rightarrow> lease \<Rightarrow> allocator" where
  "Release a l = (if l_octet l \<ge> 2 then a\<lparr>freed := freed a @ [l_octet l]\<rparr> else a)"

section \<open>The network identity of a lease\<close>

lemma mk_lease_octet [simp]: "l_octet (mk_lease n) = n"
  by (simp add: mk_lease_def)

lemma mk_lease_GuestIP_inj [simp]: "l_GuestIP (mk_lease m) = l_GuestIP (mk_lease n) \<longleftrightarrow> m = n"
  by (simp add: mk_lease_def)

lemma mk_lease_TapDev_inj [simp]: "l_TapDev (mk_lease m) = l_TapDev (mk_lease n) \<longleftrightarrow> m = n"
  by (simp add: mk_lease_def)

lemma mk_lease_GuestMAC_inj:
  "m < 256 \<Longrightarrow> n < 256 \<Longrightarrow>
     l_GuestMAC (mk_lease m) = l_GuestMAC (mk_lease n) \<longleftrightarrow> m = n"
  by (simp add: mk_lease_def fmt_02X_inj)

lemma mk_lease_not_host: "n \<ge> 2 \<Longrightarrow> l_GuestIP (mk_lease n) \<noteq> hostIP New"
proof
  assume n: "n \<ge> 2" and "l_GuestIP (mk_lease n) = hostIP New"
  then have "dec n = ''1''" by (simp add: mk_lease_def New_def)
  then have "n = dec_val ''1''" using dec_val_dec [of n] by simp
  with n show False by (simp add: dec_val_def digit_val_def)
qed

section \<open>The contract of an address pool\<close>

text \<open>
  What a client of the allocator may rely on: the pool knows which keys are out (\<open>inv s L\<close>:
  in state \<open>s\<close> exactly the keys \<open>L\<close> are out), a successful allocation hands out a key
  that is not out, a failed one changes nothing and happens exactly when \<open>cap\<close> keys are out,
  and a release takes a key back.
\<close>

locale address_pool =
  fixes alloc :: "'s \<Rightarrow> ('e, 'l) result \<times> 's"
    and rel :: "'s \<Rightarrow> 'l \<Rightarrow> 's"
    and key :: "'l \<Rightarrow> nat"
    and good :: "'l \<Rightarrow> bool"
    and inv :: "'s \<Rightarrow> nat set \<Rightarrow> bool"
    and cap :: nat
  assumes finite_out: "inv s L \<Longrightarrow> finite L"
    and alloc_fresh: "inv s L \<Longrightarrow> alloc s = (Inr l, s') \<Longrightarrow>
          good l \<and> key l \<notin> L \<and> inv s' (insert (key l) L)"
    and alloc_fail: "alloc s = (Inl e, s') \<Longrightarrow> s' = s"
    and alloc_fail_iff: "inv s L \<Longrightarrow> (\<exists>e. fst (alloc s) = Inl e) \<longleftrightarrow> card L = cap"
    and card_le_cap: "inv s L \<Longrightarrow> card L \<le> cap"
    and rel_inv: "inv s L \<Longrightarrow> good l \<Longrightarrow> key l \<in> L \<Longrightarrow> inv (rel s l) (L - {key l})"
begin

text \<open>
  A client's view of the pool: its state and the list of the leases out. It stays consistent
  under an allocation, a refused allocation, and the release of a lease that is out.
\<close>

definition ok :: "'s \<Rightarrow> 'l list \<Rightarrow> bool" where
  "ok s ls \<longleftrightarrow> inv s (key ` set ls) \<and> distinct (map key ls) \<and> list_all good ls"

lemma key_remove1:
  "distinct (map key ls) \<Longrightarrow> l \<in> set ls \<Longrightarrow>
     key ` set (remove1 l ls) = key ` set ls - {key l} \<and> distinct (map key (remove1 l ls))"
  by (induction ls) auto

lemma ok_take: "ok s ls \<Longrightarrow> alloc s = (Inr l, s') \<Longrightarrow> ok s' (l # ls)"
  using alloc_fresh [of s "key ` set ls" l s'] by (auto simp: ok_def)

lemma ok_refuse: "ok s ls \<Longrightarrow> alloc s = (Inl e, s') \<Longrightarrow> ok s' ls"
  using alloc_fail [of s e s'] by simp

lemma ok_give:
  assumes o: "ok s ls" and l: "l \<in> set ls"
  shows "ok (rel s l) (remove1 l ls)"
proof -
  from o l have good: "good l" and d: "distinct (map key ls)" and i: "inv s (key ` set ls)"
    by (auto simp: ok_def list_all_iff)
  have "inv (rel s l) (key ` set ls - {key l})"
    using rel_inv [OF i good] l by blast
  with key_remove1 [OF d l] o show ?thesis
    by (auto simp: ok_def list_all_iff dest: notin_set_remove1)
qed

lemma ok_perm: "ok s ls \<Longrightarrow> mset ls = mset ls' \<Longrightarrow> ok s ls'"
  unfolding ok_def list_all_iff
  by (metis mset_eq_imp_distinct_iff mset_eq_setD mset_map)

lemma ok_card: "ok s ls \<Longrightarrow> length ls = card (key ` set ls)"
  by (metis distinct_card image_set length_map ok_def)

lemma out_bounded: "ok s ls \<Longrightarrow> length ls \<le> cap"
  using card_le_cap by (auto simp: ok_def ok_card)

lemma refuse_iff_full: "ok s ls \<Longrightarrow> (\<exists>e. fst (alloc s) = Inl e) \<longleftrightarrow> length ls = cap"
  using alloc_fail_iff [of s "key ` set ls"] ok_card [of s ls] by (simp add: ok_def)

lemma alloc_rel_back:
  assumes "inv s L" and "alloc s = (Inr l, s')"
  shows "inv (rel s' l) L"
proof -
  from alloc_fresh [OF assms] have "good l" "key l \<notin> L" "inv s' (insert (key l) L)"
    by auto
  then have "inv (rel s' l) (insert (key l) L - {key l})"
    by (intro rel_inv) auto
  with \<open>key l \<notin> L\<close> show ?thesis by simp
qed

lemma alloc_total: "inv s L \<Longrightarrow> card L < cap \<Longrightarrow> \<exists>l s'. alloc s = (Inr l, s')"
  using alloc_fail_iff [of s L] by (cases "alloc s"; cases "fst (alloc s)") auto

end

section \<open>The allocator provides the contract\<close>

text \<open>
  The allocator's invariant: the octets below \<open>next_octet\<close> are either out or on the freed
  stack, never both, and the stack has no duplicates.
\<close>

definition ipam_inv :: "allocator \<Rightarrow> nat set \<Rightarrow> bool" where
  "ipam_inv a L \<longleftrightarrow>
     2 \<le> next_octet a \<and> next_octet a \<le> 255 \<and> distinct (freed a) \<and>
     set (freed a) \<inter> L = {} \<and> set (freed a) \<union> L = {2..<next_octet a}"

definition genuine :: "lease \<Rightarrow> bool" where
  "genuine l \<longleftrightarrow> l = mk_lease (l_octet l) \<and> 2 \<le> l_octet l \<and> l_octet l \<le> 254"

lemma ipam_inv_New: "ipam_inv New {}"
  by (simp add: ipam_inv_def New_def)

lemma ipam_inv_finite: "ipam_inv a L \<Longrightarrow> finite L"
  unfolding ipam_inv_def by (metis finite_Un finite_atLeastLessThan)

lemma ipam_inv_card: "ipam_inv a L \<Longrightarrow> card L + length (freed a) = next_octet a - 2"
proof -
  assume i: "ipam_inv a L"
  then have "card (set (freed a) \<union> L) = card (set (freed a)) + card L"
    using ipam_inv_finite [OF i] by (intro card_Un_disjoint) (auto simp: ipam_inv_def)
  with i show ?thesis by (simp add: ipam_inv_def distinct_card)
qed

lemma Allocate_fresh:
  assumes i: "ipam_inv a L" and al: "Allocate a = (Inr l, a')"
  shows "genuine l \<and> l_octet l \<notin> L \<and> ipam_inv a' (insert (l_octet l) L)"
proof (cases "freed a = []")
  case True
  with al have n: "next_octet a \<le> 254" "l = mk_lease (next_octet a)"
      "a' = a\<lparr>next_octet := next_octet a + 1\<rparr>"
    by (auto simp: Allocate_def split: if_splits)
  with True i have L: "L = {2..<next_octet a}" "2 \<le> next_octet a" by (auto simp: ipam_inv_def)
  with True n show ?thesis by (auto simp: genuine_def ipam_inv_def)
next
  case False
  with al have n: "l = mk_lease (last (freed a))" "a' = a\<lparr>freed := butlast (freed a)\<rparr>"
    by (auto simp: Allocate_def split: if_splits)
  have m: "last (freed a) \<in> set (freed a)" "last (freed a) \<notin> set (butlast (freed a))"
    using False i last_notin_butlast by (auto simp: ipam_inv_def)
  with i have r: "2 \<le> last (freed a)" "last (freed a) < next_octet a" "last (freed a) \<notin> L"
    by (auto simp: ipam_inv_def)
  have "ipam_inv a' (insert (last (freed a)) L)"
    using i m r n set_butlast_last [OF False]
    by (auto simp: ipam_inv_def distinct_butlast)
  with n r i show ?thesis by (auto simp: genuine_def ipam_inv_def)
qed

lemma Release_inv:
  assumes i: "ipam_inv a L" and l: "l_octet l \<in> L"
  shows "ipam_inv (Release a l) (L - {l_octet l})"
proof -
  from i l have "2 \<le> l_octet l" "l_octet l \<notin> set (freed a)"
    by (auto simp: ipam_inv_def)
  with i l show ?thesis by (auto simp: ipam_inv_def Release_def)
qed

lemma Allocate_fail: "Allocate a = (Inl e, a') \<Longrightarrow> a' = a"
  by (auto simp: Allocate_def split: if_splits)

lemma Allocate_fail_iff: "ipam_inv a L \<Longrightarrow> (\<exists>e. fst (Allocate a) = Inl e) \<longleftrightarrow> card L = 253"
  using ipam_inv_card [of a L] by (cases "freed a") (auto simp: Allocate_def ipam_inv_def)

interpretation ipam: address_pool Allocate Release l_octet genuine ipam_inv 253
proof unfold_locales
  fix s L assume "ipam_inv s L"
  then show "finite L" by (rule ipam_inv_finite)
next
  fix s L l s' assume "ipam_inv s L" "Allocate s = (Inr l, s')"
  then show "genuine l \<and> l_octet l \<notin> L \<and> ipam_inv s' (insert (l_octet l) L)"
    by (rule Allocate_fresh)
next
  fix s e s' assume "Allocate s = (Inl e, s')"
  then show "s' = s" by (rule Allocate_fail)
next
  fix s L assume "ipam_inv s L"
  then show "(\<exists>e. fst (Allocate s) = Inl e) \<longleftrightarrow> card L = 253" by (rule Allocate_fail_iff)
next
  fix s L assume i: "ipam_inv s L"
  with ipam_inv_card [OF i] show "card L \<le> 253" by (auto simp: ipam_inv_def)
next
  fix s L l assume "ipam_inv s L" "genuine l" "l_octet l \<in> L"
  then show "ipam_inv (Release s l) (L - {l_octet l})" by (blast intro: Release_inv)
qed

lemma ipam_New_ok: "ipam.ok New []"
  by (simp add: ipam.ok_def ipam_inv_New)

lemma ipam_keeps_hostIP:
  "Allocate a = (r, a') \<Longrightarrow> hostIP a' = hostIP a"
  "hostIP (Release a l) = hostIP a"
  by (auto simp: Allocate_def Release_def split: if_splits)

lemma Allocate_Release: "genuine l \<Longrightarrow> fst (Allocate (Release a l)) = Inr l"
proof -
  assume "genuine l"
  then have "l = mk_lease (l_octet l)" and "2 \<le> l_octet l" by (auto simp: genuine_def)
  then show ?thesis by (simp add: Allocate_def Release_def)
qed

lemma genuine_map_mk_lease: "list_all genuine ls \<Longrightarrow> ls = map mk_lease (map l_octet ls)"
  by (induction ls) (auto simp: genuine_def)

lemma genuine_distinct_identities:
  assumes g: "list_all genuine ls" and d: "distinct (map l_octet ls)"
  shows "distinct (map l_GuestIP ls) \<and> distinct (map l_TapDev ls) \<and> distinct (map l_GuestMAC ls)"
proof -
  define os where "os = map l_octet ls"
  from g have ls: "ls = map mk_lease os" and small: "\<forall>n \<in> set os. n < 256"
    unfolding os_def by (rule genuine_map_mk_lease, auto simp: list_all_iff genuine_def)
  have "inj_on (l_GuestIP \<circ> mk_lease) (set os)" "inj_on (l_TapDev \<circ> mk_lease) (set os)"
    by (auto simp: inj_on_def)
  moreover have "inj_on (l_GuestMAC \<circ> mk_lease) (set os)"
    using small by (auto simp: inj_on_def mk_lease_GuestMAC_inj)
  ultimately show ?thesis
    using d unfolding os_def [symmetric] ls by (simp add: distinct_map)
qed

section \<open>Every interleaving of allocations and releases\<close>

text \<open>
  The executions of the allocator from \<^verbatim>\<open>New()\<close>: \<open>ipam_reach a ls\<close> says that some sequence of
  \<^verbatim>\<open>Allocate\<close> and \<^verbatim>\<open>Release\<close> calls ends in state \<open>a\<close> with the leases \<open>ls\<close> out, where each
  \<^verbatim>\<open>Release\<close> is of a lease that is out (the orchestrator releases a lease at most once).
\<close>

inductive ipam_reach :: "allocator \<Rightarrow> lease list \<Rightarrow> bool" where
  start: "ipam_reach New []"
| take: "ipam_reach a ls \<Longrightarrow> Allocate a = (Inr l, a') \<Longrightarrow> ipam_reach a' (l # ls)"
| refuse: "ipam_reach a ls \<Longrightarrow> Allocate a = (Inl e, a') \<Longrightarrow> ipam_reach a' ls"
| give: "ipam_reach a ls \<Longrightarrow> l \<in> set ls \<Longrightarrow> ipam_reach (Release a l) (remove1 l ls)"

lemma ipam_reach_ok: "ipam_reach a ls \<Longrightarrow> ipam.ok a ls"
proof (induction rule: ipam_reach.induct)
  case start
  show ?case by (rule ipam_New_ok)
next
  case (take a ls l a')
  then show ?case by (blast intro: ipam.ok_take)
next
  case (refuse a ls e a')
  then show ?case by (blast intro: ipam.ok_refuse)
next
  case (give a ls l)
  then show ?case by (blast intro: ipam.ok_give)
qed

lemma ipam_reach_hostIP: "ipam_reach a ls \<Longrightarrow> hostIP a = hostIP New"
  by (induction rule: ipam_reach.induct) (auto simp: ipam_keeps_hostIP)

text \<open>
  C25. In every state the allocator can reach from \<^verbatim>\<open>New()\<close>, under any order of allocations and
  of releases of leases that are out, no two leases out share a guest IP, a TAP device or a MAC
  address, every one of them is the lease of an octet in 2..254, and none has the host's address.
\<close>

theorem leases_never_shared:
  assumes "ipam_reach a ls"
  shows "distinct (map l_GuestIP ls) \<and> distinct (map l_TapDev ls) \<and>
         distinct (map l_GuestMAC ls) \<and>
         list_all (\<lambda>l. 2 \<le> l_octet l \<and> l_octet l \<le> 254 \<and> l_GuestIP l \<noteq> HostIP a) ls"
proof -
  from assms have ok: "ipam.ok a ls" by (rule ipam_reach_ok)
  have "l_GuestIP l \<noteq> HostIP a" if "genuine l" for l
    using that mk_lease_not_host [of "l_octet l"] ipam_reach_hostIP [OF assms]
    by (metis HostIP_def genuine_def)
  with ok have "list_all (\<lambda>l. 2 \<le> l_octet l \<and> l_octet l \<le> 254 \<and> l_GuestIP l \<noteq> HostIP a) ls"
    by (auto simp: ipam.ok_def list_all_iff genuine_def)
  with ok genuine_distinct_identities [of ls] show ?thesis
    by (simp add: ipam.ok_def)
qed

theorem leases_never_shared_witness:
  "ipam_reach (New\<lparr>next_octet := 4\<rparr>) [mk_lease 3, mk_lease 2] \<and>
   distinct (map l_GuestIP [mk_lease 3, mk_lease 2])"
proof -
  have "ipam_reach (New\<lparr>next_octet := 3\<rparr>) [mk_lease 2]"
    by (rule ipam_reach.take [OF ipam_reach.start]) (simp add: Allocate_def New_def)
  then have r: "ipam_reach (New\<lparr>next_octet := 4\<rparr>) [mk_lease 3, mk_lease 2]"
    by (rule ipam_reach.take) (simp add: Allocate_def New_def)
  from r leases_never_shared [OF r] show ?thesis by blast
qed

text \<open>
  C26. The pool holds exactly 253 leases: in every reachable state at most 253 are out, and
  \<^verbatim>\<open>Allocate\<close> fails if and only if all 253 are.
\<close>

theorem pool_capacity:
  assumes "ipam_reach a ls"
  shows "length ls \<le> 253 \<and> (fst (Allocate a) = Inl PoolExhausted \<longleftrightarrow> length ls = 253)"
proof -
  have ok: "ipam.ok a ls" by (rule ipam_reach_ok [OF assms])
  have "fst (Allocate a) = Inl PoolExhausted \<longleftrightarrow> (\<exists>e. fst (Allocate a) = Inl e)"
    by (metis ipam_error.exhaust)
  with ipam.refuse_iff_full [OF ok] ipam.out_bounded [OF ok] show ?thesis by simp
qed

theorem pool_capacity_witness:
  "length [mk_lease 2] \<le> 253 \<and>
   fst (Allocate (New\<lparr>next_octet := 3\<rparr>)) \<noteq> Inl PoolExhausted"
proof -
  have "ipam_reach (New\<lparr>next_octet := 3\<rparr>) [mk_lease 2]"
    by (rule ipam_reach.take [OF ipam_reach.start]) (simp add: Allocate_def New_def)
  from pool_capacity [OF this] show ?thesis by simp
qed

text \<open>
  \<^verbatim>\<open>Allocate\<close> followed by \<^verbatim>\<open>Release\<close> of the lease it returned gives back the same pool: the
  same leases are out, and the next \<^verbatim>\<open>Allocate\<close> hands out that very lease again.
\<close>

theorem release_then_reuse:
  assumes "ipam_inv a L" and "Allocate a = (Inr l, a')"
  shows "ipam_inv (Release a' l) L \<and> fst (Allocate (Release a' l)) = Inr l"
proof -
  have "fst (Allocate (Release a' l)) = Inr l"
    using Allocate_fresh [OF assms] by (intro Allocate_Release) blast
  with ipam.alloc_rel_back [OF assms] show ?thesis by blast
qed

theorem release_then_reuse_witness:
  "ipam_inv New {} \<and> fst (Allocate (Release (New\<lparr>next_octet := 3\<rparr>) (mk_lease 2))) = Inr (mk_lease 2)"
proof -
  have "Allocate New = (Inr (mk_lease 2), New\<lparr>next_octet := 3\<rparr>)"
    by (simp add: Allocate_def New_def)
  from release_then_reuse [OF ipam_inv_New this] ipam_inv_New show ?thesis by blast
qed

text \<open>
  \<^verbatim>\<open>Release\<close> does not check that the lease is out: releasing the same lease twice puts its
  octet on the freed stack twice, and the next two allocations hand out the same lease.
\<close>

theorem double_release_shares_lease:
  "Allocate New = (Inr l, a) \<Longrightarrow>
   Allocate (Release (Release a l) l) = (r1, b) \<Longrightarrow>
   fst (Allocate b) = r1 \<and> r1 = Inr l"
  by (auto simp: Allocate_def Release_def New_def)

theorem double_release_shares_lease_witness:
  "fst (Allocate (New\<lparr>next_octet := 3, freed := [2]\<rparr>)) = Inr (mk_lease 2)"
proof -
  have "Allocate New = (Inr (mk_lease 2), New\<lparr>next_octet := 3\<rparr>)"
    by (simp add: Allocate_def New_def)
  moreover have "Allocate (Release (Release (New\<lparr>next_octet := 3\<rparr>) (mk_lease 2)) (mk_lease 2)) =
      (Inr (mk_lease 2), New\<lparr>next_octet := 3, freed := [2]\<rparr>)"
    by (simp add: Allocate_def New_def Release_def)
  ultimately show ?thesis by (rule double_release_shares_lease [THEN conjunct1])
qed

end
