(* ===== verification/Os_World.thy ===== *)
theory Os_World
  imports Go_Strings
begin

text \<open>
  What the services ask of the operating system, and how the answers reach them. The outside
  (the kernel, \<^verbatim>\<open>sudo ip\<close>, Docker, the guest) is an arbitrary environment: a function from the
  history of calls and the next call to a reply. Theorems quantify over every environment, so
  every pattern of failures is covered. Time is the monotonic clock in nanoseconds: a call takes
  as long as the environment says, and a sleep takes at least its duration.
\<close>

datatype os_call =
    Run "string list"                 \<comment> \<open>run a command and wait for it\<close>
  | Start "string list"               \<comment> \<open>start a command in its own process group\<close>
  | WaitFor nat                       \<comment> \<open>wait for a started process\<close>
  | KillGroup nat                     \<comment> \<open>SIGKILL to the process group of a pid\<close>
  | RemoveFile string
  | CreateFile string
  | MkdirAll string
  | MkdirTemp string string           \<comment> \<open>parent directory and name pattern\<close>
  | RemoveAll string
  | WriteFile string string
  | OpenFile string nat               \<comment> \<open>create or truncate a file for writing, with its mode\<close>
  | CopyInto string string            \<comment> \<open>write bytes to an open file and close it\<close>
  | HttpGet string
  | Sleep nat
  | Spawn "string list"               \<comment> \<open>start a command in the caller's process group\<close>
  | DupHandle string                  \<comment> \<open>duplicate the handle of an open file\<close>
  | PathExists string                 \<comment> \<open>no error: the path exists\<close>
  | UnixConnect string                \<comment> \<open>connect to a Unix socket\<close>
  | UnixWrite string string           \<comment> \<open>write bytes to the connection and flush it\<close>
  | UnixRead string nat               \<comment> \<open>read once from the connection, at most so many bytes\<close>
  | KillProc nat                      \<comment> \<open>SIGKILL to one process\<close>
  | WaitTimeout nat nat               \<comment> \<open>wait for a process, at most so long\<close>

text \<open>A reply: how long the call took, its error (\<open>None\<close> is nil), its output, a new pid.\<close>

record reply =
  r_elapsed :: nat
  r_err :: "string option"
  r_out :: string
  r_pid :: nat

type_synonym env = "os_call list \<Rightarrow> os_call \<Rightarrow> reply"

record os =
  clock :: nat
  trace :: "os_call list"

definition perform :: "env \<Rightarrow> os_call \<Rightarrow> os \<Rightarrow> reply \<times> os" where
  "perform env c w =
     (let r = env (trace w) c in
      (r, \<lparr>clock = clock w + r_elapsed r + (case c of Sleep d \<Rightarrow> d | _ \<Rightarrow> 0),
           trace = trace w @ [c]\<rparr>))"

definition exec :: "env \<Rightarrow> os_call \<Rightarrow> os \<Rightarrow> os" where
  "exec env c w = snd (perform env c w)"

definition reply_of :: "env \<Rightarrow> os_call \<Rightarrow> os \<Rightarrow> reply" where
  "reply_of env c w = fst (perform env c w)"

lemma perform_eq: "perform env c w = (reply_of env c w, exec env c w)"
  by (simp add: exec_def reply_of_def)

lemma trace_exec [simp]: "trace (exec env c w) = trace w @ [c]"
  by (simp add: exec_def perform_def Let_def)

lemma clock_exec: "clock w \<le> clock (exec env c w)"
  by (simp add: exec_def perform_def Let_def)

lemma clock_sleep: "clock w + d \<le> clock (exec env (Sleep d) w)"
  by (simp add: exec_def perform_def Let_def)

text \<open>An environment in which every call succeeds at once, for concrete runs.\<close>

definition ok_reply :: reply where
  "ok_reply = \<lparr>r_elapsed = 0, r_err = None, r_out = '''', r_pid = 7\<rparr>"

definition calm :: env where
  "calm h c = ok_reply"

definition boot_os :: os where
  "boot_os = \<lparr>clock = 0, trace = []\<rparr>"

lemma reply_of_calm [simp]: "reply_of calm c w = ok_reply"
  by (simp add: reply_of_def perform_def calm_def Let_def)

text \<open>An environment that reports no error, whatever else it does.\<close>

definition never_fails :: "env \<Rightarrow> bool" where
  "never_fails env \<longleftrightarrow> (\<forall>h c. r_err (env h c) = None)"

lemma never_fails_reply: "never_fails env \<Longrightarrow> r_err (reply_of env c w) = None"
  by (simp add: never_fails_def reply_of_def perform_def Let_def)

lemma never_fails_calm: "never_fails calm"
  by (simp add: never_fails_def calm_def ok_reply_def)

end
