(* ===== verification/Http.thy ===== *)
theory Http
  imports Go_Strings
begin

text \<open>
  HTTP messages as the handlers and clients see them. A transport is what a client's
  \<^verbatim>\<open>NewRequest\<close> and \<^verbatim>\<open>Do\<close> reach: it may refuse the URL, fail, or deliver a response, and it
  carries the state of whatever is at the other end.
\<close>

record http_request =
  rq_method :: string
  rq_url :: string
  rq_ctype :: string
  rq_body :: string

record http_response =
  rs_status :: nat
  rs_ctype :: string
  rs_body :: string

datatype http_error = BadURL string | Transport string

type_synonym 's transport = "http_request \<Rightarrow> 's \<Rightarrow> (http_error, http_response) result \<times> 's"

text \<open>The reason phrases of the statuses the services write.\<close>

definition StatusText :: "nat \<Rightarrow> string" where
  "StatusText n =
     (if n = 200 then ''OK'' else if n = 202 then ''Accepted''
      else if n = 400 then ''Bad Request'' else if n = 401 then ''Unauthorized''
      else if n = 404 then ''Not Found'' else if n = 405 then ''Method Not Allowed''
      else if n = 500 then ''Internal Server Error'' else if n = 501 then ''Not Implemented''
      else if n = 502 then ''Bad Gateway'' else '''')"

definition status_line :: "nat \<Rightarrow> string" where
  "status_line n = dec n @ '' '' @ StatusText n"

definition is_2xx :: "nat \<Rightarrow> bool" where
  "is_2xx n \<longleftrightarrow> \<not> (n < 200 \<or> n \<ge> 300)"

end
