(* ===== verification/Utf8.thy ===== *)
theory Utf8
  imports Go_Strings
begin

text \<open>
  UTF-8 as Go's \<^verbatim>\<open>unicode/utf8\<close> package decodes it: the length of the encoding at the head of a
  byte string, and the encoding of a code point. The JSON encoder and decoder use both.
\<close>

abbreviation byte :: "char \<Rightarrow> nat" where
  "byte c \<equiv> of_char c"

definition cont :: "char \<Rightarrow> bool" where
  "cont c \<longleftrightarrow> 128 \<le> byte c \<and> byte c \<le> 191"

text \<open>
  The number of bytes the first byte of an encoding announces (0 for a byte that starts none),
  and the range its second byte must lie in: the narrower ranges exclude overlong forms,
  surrogates and code points above U+10FFFF.
\<close>

definition rune_class :: "char \<Rightarrow> nat" where
  "rune_class a =
     (if byte a < 128 then 1 else if byte a < 194 then 0 else if byte a < 224 then 2
      else if byte a < 240 then 3 else if byte a < 245 then 4 else 0)"

definition second_ok :: "char \<Rightarrow> char \<Rightarrow> bool" where
  "second_ok a b \<longleftrightarrow>
     (if byte a = 224 then 160 else if byte a = 240 then 144 else 128) \<le> byte b \<and>
     byte b \<le> (if byte a = 237 then 159 else if byte a = 244 then 143 else 191)"

text \<open>
  \<open>rune_len s\<close> is the number of bytes of the valid encoding at the head of \<open>s\<close>, and 0
  when there is none.
\<close>

fun rune_len :: "string \<Rightarrow> nat" where
  "rune_len [] = 0"
| "rune_len (a # s) =
     (let k = rune_class a in
      if k \<le> 1 then k
      else if k \<le> length (a # s) \<and> second_ok a (hd s) \<and> list_all cont (take (k - 2) (tl s))
      then k else 0)"

definition rune_error :: string where
  "rune_error = map char_of [239::nat, 191, 189]"

definition rune_enc :: "nat \<Rightarrow> string" where
  "rune_enc r =
     map char_of
       (if r < 128 then [r]
        else if r < 2048 then [192 + r div 64, 128 + r mod 64]
        else if r < 65536 then [224 + r div 4096, 128 + r div 64 mod 64, 128 + r mod 64]
        else [240 + r div 262144, 128 + r div 4096 mod 64, 128 + r div 64 mod 64,
              128 + r mod 64])"

lemma rune_len_le: "rune_len s \<le> length s"
  by (cases s) (auto simp: Let_def)

lemma rune_len_append: "0 < rune_len s \<Longrightarrow> rune_len (s @ t) = rune_len s"
proof (cases s)
  case (Cons a r)
  assume pos: "0 < rune_len s"
  show ?thesis
  proof (cases "rune_class a \<le> 1")
    case False
    with pos Cons have k: "rune_class a \<le> Suc (length r)" "second_ok a (hd r)"
        "list_all cont (take (rune_class a - 2) (tl r))"
      by (auto simp: Let_def split: if_splits)
    with False have "r \<noteq> []" by auto
    then have "hd (r @ t) = hd r" "take (rune_class a - 2) (tl (r @ t)) = take (rune_class a - 2) (tl r)"
      using k by auto
    with k False Cons show ?thesis by simp
  qed (use Cons in simp)
qed simp

lemma rune_class_ascii: "byte c < 128 \<Longrightarrow> rune_class c = 1"
  by (simp add: rune_class_def)

lemma rune_len_ascii: "byte c < 128 \<Longrightarrow> rune_len (c # s) = 1"
  by (simp add: rune_class_ascii)

text \<open>Valid UTF-8: the string is a sequence of valid encodings.\<close>

function valid_utf8 :: "string \<Rightarrow> bool" where
  "valid_utf8 [] = True"
| "valid_utf8 (c # s) =
     (0 < rune_len (c # s) \<and> valid_utf8 (drop (rune_len (c # s) - 1) s))"
  by pat_completeness auto
termination by (relation "measure length") auto

declare rune_len.simps(2) [simp del]

lemma valid_utf8_rune:
  "0 < rune_len s \<Longrightarrow> valid_utf8 s \<longleftrightarrow> valid_utf8 (drop (rune_len s) s)"
  by (cases s) (auto simp: drop_Cons')

lemma valid_utf8_ascii_Cons [simp]: "byte c < 128 \<Longrightarrow> valid_utf8 (c # s) = valid_utf8 s"
  by (simp add: rune_len_ascii)

lemma valid_utf8_ascii: "list_all (\<lambda>c. byte c < 128) s \<Longrightarrow> valid_utf8 s"
  by (induction s) (auto simp del: valid_utf8.simps(2))

lemma valid_utf8_append: "valid_utf8 s \<Longrightarrow> valid_utf8 t \<Longrightarrow> valid_utf8 (s @ t)"
proof (induction s rule: length_induct)
  case (1 s)
  show ?case
  proof (cases s)
    case Nil
    with 1 show ?thesis by simp
  next
    case (Cons c r)
    let ?n = "rune_len s"
    from Cons 1 have n: "0 < ?n" and v: "valid_utf8 (drop ?n s)"
      using valid_utf8_rune [of s] by auto
    have "length (drop ?n s) < length s" using n Cons by simp
    with 1 v have "valid_utf8 (drop ?n s @ t)" by blast
    moreover have "drop (rune_len (s @ t)) (s @ t) = drop ?n s @ t"
      using n rune_len_le [of s] by (simp add: rune_len_append)
    ultimately show ?thesis
      using n valid_utf8_rune [of "s @ t"] by (simp add: rune_len_append)
  qed
qed

lemma dec_valid_utf8: "valid_utf8 (dec n)"
  using dec_digits [of n] by (intro valid_utf8_ascii) (auto simp: list_all_iff is_digit_def)

declare valid_utf8.simps(2) [simp del]

end
