(* ===== verification/Edge_Router.thy ===== *)
theory Edge_Router
  imports Http "HOL-Library.AList" "HOL-Library.Char_ord" "HOL-Library.List_Lexorder" Json
begin

text \<open>
  The edge proxy's routing table and its two request handlers, \<^verbatim>\<open>crates/edge-proxy/src/router.rs\<close>
  and \<^verbatim>\<open>proxy.rs\<close>: the control plane writes the table through the admin API, the proxy reads it.
  The hash map is an association list with distinct keys. The hasher, the JSON deserialiser of
  the admin API and the upstream servers are parameters.
\<close>

section \<open>The routing table\<close>

type_synonym backend = "string list"
type_synonym router = "(string \<times> backend) list"

definition select :: "(string \<Rightarrow> nat) \<Rightarrow> backend \<Rightarrow> string \<Rightarrow> string option" where
  "select hash replicas key =
     (if replicas = [] then None else Some (replicas ! (hash key mod length replicas)))"

definition upsert :: "router \<Rightarrow> string \<Rightarrow> backend \<Rightarrow> router" where
  "upsert r host b = AList.update host b r"

definition remove :: "router \<Rightarrow> string \<Rightarrow> bool \<times> router" where
  "remove r host = (map_of r host \<noteq> None, AList.delete host r)"

definition lookup :: "router \<Rightarrow> string \<Rightarrow> backend option" where
  "lookup r host = map_of r (hd (Split host (CHR '':'')))"

definition hosts :: "router \<Rightarrow> string list" where
  "hosts r = sort (map fst r)"

text \<open>\<^verbatim>\<open>parse_routes\<close>: \<open>host=replica|replica\<close> entries, malformed ones skipped.\<close>

definition split_once :: "string \<Rightarrow> char \<Rightarrow> (string \<times> string) option" where
  "split_once s c =
     (case dropWhile (\<lambda>x. x \<noteq> c) s of [] \<Rightarrow> None | _ # t \<Rightarrow> Some (takeWhile (\<lambda>x. x \<noteq> c) s, t))"

definition parse_route :: "string \<Rightarrow> (string \<times> backend) option" where
  "parse_route entry =
     (case split_once entry (CHR ''='') of
        None \<Rightarrow> None
      | Some (h, reps) \<Rightarrow>
          (let host = TrimSpace h;
               replicas = filter (\<lambda>s. s \<noteq> []) (map TrimSpace (Split reps (CHR ''|'')))
           in if host = [] \<or> replicas = [] then None else Some (host, replicas)))"

definition parse_routes :: "string \<Rightarrow> (string \<times> backend) list" where
  "parse_routes spec = List.map_filter parse_route (Split spec (CHR '',''))"

text \<open>The table at start-up, seeded from \<^verbatim>\<open>PROXY__STATIC_ROUTES\<close> (\<^verbatim>\<open>main.rs\<close>).\<close>

definition seed_routes :: "string option \<Rightarrow> router" where
  "seed_routes spec =
     (case spec of None \<Rightarrow> [] | Some s \<Rightarrow> foldl (\<lambda>r (h, b). upsert r h b) [] (parse_routes s))"

section \<open>The admin API\<close>

definition json_resp :: "nat \<Rightarrow> string \<Rightarrow> http_response" where
  "json_resp st body = \<lparr>rs_status = st, rs_ctype = ''application/json'', rs_body = body\<rparr>"

definition text_resp :: "nat \<Rightarrow> string \<Rightarrow> http_response" where
  "text_resp st msg = \<lparr>rs_status = st, rs_ctype = ''text/plain'', rs_body = msg\<rparr>"

text \<open>\<^verbatim>\<open>trim_start_matches\<close> removes a prefix as often as it is there.\<close>

function trim_start_matches :: "string \<Rightarrow> string \<Rightarrow> string" where
  "trim_start_matches s p =
     (if p \<noteq> [] \<and> HasPrefix s p then trim_start_matches (drop (length p) s) p else s)"
  by pat_completeness auto
termination
  by (relation "measure (\<lambda>(s, p). length s)") (force dest: HasPrefix_length simp: neq_Nil_conv)+

declare trim_start_matches.simps [simp del]

definition obj1 :: "string \<Rightarrow> json \<Rightarrow> string" where
  "obj1 k v = json_enc (JObj [(k, v)])"

text \<open>
  \<^verbatim>\<open>serde_json\<close> escapes only quotes, backslashes and control characters in a string.
\<close>

definition serde_escape :: "char \<Rightarrow> string" where
  "serde_escape c =
     (case map_of esc_table c of
        Some e \<Rightarrow> [bslash, e]
      | None \<Rightarrow>
          if byte c < 32
          then [bslash, CHR ''u'', CHR ''0'', CHR ''0'', hex_digit (byte c div 16),
                hex_digit (byte c mod 16)]
          else [c])"

definition serde_strings :: "string list \<Rightarrow> string" where
  "serde_strings ss =
     ''['' @ Join (map (\<lambda>s. [dquote] @ concat (map serde_escape s) @ [dquote]) ss) '','' @ '']''"

definition admin_handle ::
  "(string \<Rightarrow> (string \<times> backend) option) \<Rightarrow> http_request \<Rightarrow> router \<Rightarrow> http_response \<times> router" where
  "admin_handle from_slice req r =
     (let m = rq_method req; p = rq_url req in
      if m = ''GET'' \<and> p = ''/healthz'' then (json_resp 200 (obj1 ''status'' (JStr ''ok'')), r)
      else if m = ''GET'' \<and> p = ''/routes'' then
        (json_resp 200 (''{'' @ json_str ''hosts'' @ '':'' @ serde_strings (hosts r) @ ''}''), r)
      else if m = ''POST'' \<and> p = ''/routes'' then
        (case from_slice (rq_body req) of
           Some (host, replicas) \<Rightarrow>
             if host \<noteq> [] \<and> replicas \<noteq> []
             then (json_resp 200 (obj1 ''status'' (JStr ''ok'')), upsert r host replicas)
             else (json_resp 400 (obj1 ''error'' (JStr ''host and replicas are required'')), r)
         | None \<Rightarrow> (json_resp 400 (obj1 ''error'' (JStr ''invalid json'')), r))
      else if m = ''DELETE'' \<and> HasPrefix p ''/routes/'' then
        (let (removed, r') = remove r (trim_start_matches p ''/routes/'')
         in (json_resp (if removed then 200 else 404) (obj1 ''removed'' (JBool removed)), r'))
      else (json_resp 404 (obj1 ''error'' (JStr ''not found'')), r))"

section \<open>The proxy\<close>

text \<open>
  A proxied request: the path and query of its URI (the query with its question mark; the path is
  empty when the URI has none), its \<^verbatim>\<open>Host\<close> header and the host of its URI if any. \<open>upstream url\<close> is
  what the HTTP client answers for a URL, \<open>None\<close> when the URL does not parse or the request fails; the
  method, headers and body go along unchanged.
\<close>

record proxy_request =
  px_path :: string
  px_query :: string
  px_host :: "string option"
  px_uri_host :: "string option"

definition path_and_query :: "proxy_request \<Rightarrow> string" where
  "path_and_query req =
     (if px_path req = [] \<and> px_query req = [] then ''/'' else px_path req @ px_query req)"

definition forward ::
  "(string \<Rightarrow> http_response option) \<Rightarrow> string \<Rightarrow> proxy_request \<Rightarrow> http_response option" where
  "forward upstream replica req = upstream (''http://'' @ replica @ path_and_query req)"

definition handle ::
  "(string \<Rightarrow> nat) \<Rightarrow> (string \<Rightarrow> http_response option) \<Rightarrow> router \<Rightarrow> string \<Rightarrow>
   proxy_request \<Rightarrow> http_response" where
  "handle hash upstream r peer req =
     (if px_path req = ''/healthz'' then text_resp 200 ''ok''
      else case (case px_host req of Some h \<Rightarrow> Some h | None \<Rightarrow> px_uri_host req) of
        None \<Rightarrow> text_resp 400 ''missing Host header''
      | Some host \<Rightarrow>
          (case Option.bind (lookup r host) (\<lambda>b. select hash b peer) of
             None \<Rightarrow> text_resp 404 ''no route for host''
           | Some replica \<Rightarrow>
               (case forward upstream replica req of
                  Some resp \<Rightarrow> resp
                | None \<Rightarrow> text_resp 502 ''upstream error'')))"

section \<open>Configuration\<close>

text \<open>
  \<^verbatim>\<open>config.rs\<close>: the settings with their defaults. \<open>read\<close> is the configuration package: the value of
  the variable \<^verbatim>\<open>PROXY__<NAME>\<close>, \<open>None\<close> when it is not set; a number that does not parse is an error.
\<close>

record proxy_config =
  cp_http_addr :: string
  cp_https_addr :: string
  cp_metrics_addr :: string
  cp_admin_addr :: string
  cp_nats_url :: string
  cp_vault_addr :: string
  cp_healthcheck_interval_secs :: nat
  cp_concurrency_per_tenant :: nat
  cp_wakeup_queue_depth :: nat

definition str_setting :: "(string \<Rightarrow> string option) \<Rightarrow> string \<Rightarrow> string \<Rightarrow> string" where
  "str_setting read key def = (case read key of None \<Rightarrow> def | Some v \<Rightarrow> v)"

definition num_setting ::
  "(string \<Rightarrow> string option) \<Rightarrow> (string \<Rightarrow> nat option) \<Rightarrow> string \<Rightarrow> nat \<Rightarrow> nat option" where
  "num_setting read num key def = (case read key of None \<Rightarrow> Some def | Some v \<Rightarrow> num v)"

definition proxy_config_load ::
  "(string \<Rightarrow> string option) \<Rightarrow> (string \<Rightarrow> nat option) \<Rightarrow> proxy_config option" where
  "proxy_config_load read num =
     (case (num_setting read num ''healthcheck_interval_secs'' 5,
            num_setting read num ''concurrency_per_tenant'' 512,
            num_setting read num ''wakeup_queue_depth'' 128) of
        (Some h, Some c, Some q) \<Rightarrow>
          Some \<lparr>cp_http_addr = str_setting read ''http_addr'' ''0.0.0.0:80'',
            cp_https_addr = str_setting read ''https_addr'' ''0.0.0.0:443'',
            cp_metrics_addr = str_setting read ''metrics_addr'' ''0.0.0.0:9090'',
            cp_admin_addr = str_setting read ''admin_addr'' ''127.0.0.1:9901'',
            cp_nats_url = str_setting read ''nats_url'' ''nats://127.0.0.1:4222'',
            cp_vault_addr = str_setting read ''vault_addr'' ''http://127.0.0.1:8200'',
            cp_healthcheck_interval_secs = h, cp_concurrency_per_tenant = c, cp_wakeup_queue_depth = q\<rparr>
      | _ \<Rightarrow> None)"

text \<open>
  \<^verbatim>\<open>main\<close>: the addresses of the proxy and of the admin API, and the table they start with. The table is
  shared: what the admin API stores, the proxy reads.
\<close>

definition proxy_main ::
  "(string \<Rightarrow> string option) \<Rightarrow> (string \<Rightarrow> nat option) \<Rightarrow> string option \<Rightarrow> (string \<times> string \<times> router) option" where
  "proxy_main read num static_routes =
     map_option (\<lambda>cfg. (cp_http_addr cfg, cp_admin_addr cfg, seed_routes static_routes)) (proxy_config_load read num)"

section \<open>The contract of a routing table\<close>

text \<open>
  What the writers of the table rely on: seen as a map from hosts to backends, \<open>up\<close> stores,
  \<open>rem\<close> deletes and says whether there was a route, and \<open>look\<close> reads the entry of the host
  with any port removed.
\<close>

locale route_table =
  fixes tab :: "'r \<Rightarrow> string \<rightharpoonup> 'b"
    and up :: "'r \<Rightarrow> string \<Rightarrow> 'b \<Rightarrow> 'r"
    and rem :: "'r \<Rightarrow> string \<Rightarrow> bool \<times> 'r"
    and look :: "'r \<Rightarrow> string \<Rightarrow> 'b option"
  assumes tab_up: "tab (up r h b) = (tab r)(h \<mapsto> b)"
    and tab_rem: "rem r h = (e, r') \<Longrightarrow> e = (tab r h \<noteq> None) \<and> tab r' = (tab r)(h := None)"
    and look_tab: "look r h = tab r (hd (Split h (CHR '':'')))"
begin

lemma host_with_port: "CHR '':'' \<notin> set h \<Longrightarrow> hd (Split (h @ CHR '':'' # p) (CHR '':'')) = h"
  by (simp add: Split_append_sep)

lemma look_up_same: "CHR '':'' \<notin> set h \<Longrightarrow> look (up r h b) h = Some b"
  by (simp add: look_tab tab_up Split_no_sep_id)

lemma look_up_port: "CHR '':'' \<notin> set h \<Longrightarrow> look (up r h b) (h @ CHR '':'' # p) = Some b"
  by (simp add: look_tab tab_up host_with_port)

lemma look_up_other: "hd (Split q (CHR '':'')) \<noteq> h \<Longrightarrow> look (up r h b) q = look r q"
  by (simp add: look_tab tab_up)

lemma look_rem: "rem r h = (e, r') \<Longrightarrow> CHR '':'' \<notin> set h \<Longrightarrow> look r' h = None"
  using tab_rem by (simp add: look_tab Split_no_sep_id)

lemma rem_twice: "rem r h = (e, r') \<Longrightarrow> fst (rem r' h) = False"
  using tab_rem [of r h e r'] tab_rem [of r' h "fst (rem r' h)" "snd (rem r' h)"] by simp

end

lemma map_of_upsert: "map_of (upsert r h b) = (map_of r)(h \<mapsto> b)"
  by (simp add: upsert_def update_conv')

lemma map_of_delete: "map_of (AList.delete h r) = (map_of r)(h := None)"
  by (simp add: delete_conv')

interpretation edge: route_table map_of upsert remove lookup
proof unfold_locales
  fix r :: router and h b show "map_of (upsert r h b) = (map_of r)(h \<mapsto> b)" by (rule map_of_upsert)
next
  fix r :: router and h e r' assume "remove r h = (e, r')"
  then show "e = (map_of r h \<noteq> None) \<and> map_of r' = (map_of r)(h := None)"
    by (auto simp: remove_def map_of_delete)
next
  fix r :: router and h show "lookup r h = map_of r (hd (Split h (CHR '':'')))"
    by (simp add: lookup_def)
qed

lemma select_in: "select hash b k = Some x \<Longrightarrow> x \<in> set b"
  by (auto simp: select_def split: if_splits)

lemma select_None: "select hash b k = None \<longleftrightarrow> b = []"
  by (simp add: select_def)

lemma upsert_distinct [inv_intros]: "distinct (map fst r) \<Longrightarrow> distinct (map fst (upsert r h b))"
  by (simp add: upsert_def distinct_update)

lemma delete_distinct [inv_intros]: "distinct (map fst r) \<Longrightarrow> distinct (map fst (AList.delete h r))"
  by (rule distinct_delete)

text \<open>Every backend of a well-formed table has a replica, so the proxy can always select one.\<close>

definition table_ok :: "router \<Rightarrow> bool" where
  "table_ok r \<longleftrightarrow> distinct (map fst r) \<and> (\<forall>h b. map_of r h = Some b \<longrightarrow> b \<noteq> [])"

lemma table_ok_upsert [inv_intros]: "table_ok r \<Longrightarrow> b \<noteq> [] \<Longrightarrow> table_ok (upsert r h b)"
  by (auto simp: table_ok_def map_of_upsert upsert_distinct)

lemma table_ok_delete [inv_intros]: "table_ok r \<Longrightarrow> table_ok (AList.delete h r)"
  by (auto simp: table_ok_def map_of_delete delete_distinct)

lemma parse_route_nonempty: "parse_route e = Some (h, b) \<Longrightarrow> h \<noteq> [] \<and> b \<noteq> []"
  by (auto simp: parse_route_def Let_def split: option.splits if_splits)

lemma table_ok_upserts:
  "table_ok r \<Longrightarrow> \<forall>(h, b) \<in> set ps. b \<noteq> [] \<Longrightarrow> table_ok (foldl (\<lambda>r (h, b). upsert r h b) r ps)"
  by (induction ps arbitrary: r) (auto intro: inv_intros)

lemma table_ok_seed: "table_ok (seed_routes spec)"
proof (cases spec)
  case None
  then show ?thesis by (simp add: seed_routes_def table_ok_def)
next
  case (Some s)
  have "\<forall>(h, b) \<in> set (parse_routes s). b \<noteq> []"
    using parse_route_nonempty by (fastforce simp: parse_routes_def List.map_filter_def)
  then have "table_ok (foldl (\<lambda>r (h, b). upsert r h b) [] (parse_routes s))"
    by (intro table_ok_upserts) (auto simp: table_ok_def)
  with Some show ?thesis by (simp add: seed_routes_def)
qed

lemma table_ok_admin: "table_ok r \<Longrightarrow> table_ok (snd (admin_handle fs req r))"
  by (auto simp: admin_handle_def Let_def remove_def intro: inv_intros split: option.split)

end
