(* ===== verification/Json_Codec.thy ===== *)
theory Json_Codec
  imports Json
begin

text \<open>
  Correctness of the JSON codec: decoding what the encoder wrote gives the value back, for every
  value whose strings are valid UTF-8, and the decoder's fuel is always enough.
\<close>

section \<open>Strings\<close>

lemma out_Some [simp]: "out x (Some (a, b)) = Some (x @ a, b)"
  by (simp add: out_def)

lemma out_None [simp]: "out x None = None"
  by (simp add: out_def)

lemma out_SomeD: "out x p = Some (a, b) \<Longrightarrow> \<exists>a'. p = Some (a', b) \<and> a = x @ a'"
  by (cases p) (auto simp: out_def)

lemma simple_escape_table: "map_of esc_table c = Some e \<Longrightarrow> simple_escape e = Some c"
  by (auto simp: esc_table_def simple_escape_def split: if_splits)

lemma simple_escape_u [simp]: "simple_escape (CHR ''u'') = None"
  by (simp add: simple_escape_def esc_table_def)

lemma hex_val_table: "\<forall>n \<in> set [0..<16]. hex_val (hex_digit n) = Some n"
  by (simp add: upt_conv_Cons hex_val_def hex_digit_def is_digit_def)

lemma hex_val_hex_digit: "n < 16 \<Longrightarrow> hex_val (hex_digit n) = Some n"
  using hex_val_table by simp

lemma hex_val_0 [simp]: "hex_val (CHR ''0'') = Some 0"
  by (simp add: hex_val_def is_digit_def)

lemma hex4_u00:
  "n < 256 \<Longrightarrow> hex4 (CHR ''0'' # CHR ''0'' # hex_digit (n div 16) # hex_digit (n mod 16) # t) = Some n"
  by (simp add: hex4_def hex_val_hex_digit)

lemma rune_enc_ascii: "n < 128 \<Longrightarrow> rune_enc n = [char_of n]"
  by (simp add: rune_enc_def)

lemma esc_table_None: "map_of esc_table c = None \<Longrightarrow> c \<noteq> dquote \<and> c \<noteq> bslash"
  by (auto simp: esc_table_def split: if_splits)

lemma unescape_u_ascii: "n < 128 \<Longrightarrow> unescape_u n r = ([char_of n], 0)"
  by (simp add: unescape_u_def rune_enc_ascii)

lemma p_str_esc_ascii: "byte c < 128 \<Longrightarrow> p_str (esc_ascii c @ t) = out [c] (p_str t)"
proof (cases "map_of esc_table c")
  case (Some e)
  then show ?thesis by (simp add: esc_ascii_def simple_escape_table [OF Some])
next
  case None
  assume b: "byte c < 128"
  have ne: "c \<noteq> dquote" "c \<noteq> bslash" using esc_table_None [OF None] by auto
  show ?thesis
  proof (cases "byte c < 32 \<or> c \<in> set ''<>&''")
    case True
    have "char_of (byte c) = c" by simp
    with True None b show ?thesis
      by (simp add: esc_ascii_def hex4_u00 unescape_u_ascii del: set_simps)
  next
    case False
    with None b ne show ?thesis by (simp add: esc_ascii_def)
  qed
qed

lemma rune_len_take:
  assumes "0 < rune_len (a # s)"
  shows "rune_len (take (rune_len (a # s)) (a # s)) = rune_len (a # s)"
proof (cases "rune_class a \<le> 1")
  case True
  with assms show ?thesis by (cases "rune_class a") (auto simp: rune_len.simps)
next
  case False
  with assms have k: "rune_class a \<le> Suc (length s)" "second_ok a (hd s)"
      "list_all cont (take (rune_class a - 2) (tl s))"
    and l: "rune_len (a # s) = rune_class a"
    by (auto simp: rune_len.simps Let_def split: if_splits)
  obtain m where m: "rune_class a = Suc (Suc m)"
    using False by (metis Suc_le_mono le0 not0_implies_Suc One_nat_def)
  with k have s: "s = hd s # tl s" by (cases s) auto
  have "take (rune_class a) (a # s) = a # hd s # take m (tl s)"
    using m s by (metis take_Suc_Cons)
  with m k l s show ?thesis
    by (auto simp: rune_len.simps Let_def)
qed

lemma p_str_rune:
  assumes "128 \<le> byte c" and n: "rune_len (c # s) = n" "0 < n"
  shows "p_str (take n (c # s) @ t) = out (take n (c # s)) (p_str t)"
proof -
  obtain m where m: "n = Suc m" using n by (cases n) auto
  have len: "length (take m s) = m" using rune_len_le [of "c # s"] n m by simp
  have "rune_len (take n (c # s)) = n" using rune_len_take [of c s] n by simp
  then have "rune_len (take n (c # s) @ t) = n"
    using n rune_len_append [of "take n (c # s)" t] by simp
  then have r: "rune_len (c # take m s @ t) = n" using m by simp
  have ne: "c \<noteq> dquote" "c \<noteq> bslash" using assms(1) by auto
  have "p_str (c # take m s @ t) = out (c # take m s) (p_str t)"
    using assms(1) ne r m len by (simp del: rune_len.simps)
  then show ?thesis using m by simp
qed

lemma p_str_json_escape:
  "valid_utf8 s \<Longrightarrow> p_str (json_escape s @ dquote # r) = Some (s, r)"
proof (induction s rule: json_escape.induct)
  case 1
  then show ?case by simp
next
  case (2 c s)
  show ?case
  proof (cases "byte c < 128")
    case True
    with 2 show ?thesis by (simp add: p_str_esc_ascii del: p_str.simps)
  next
    case False
    define n where "n = rune_len (c # s)"
    with "2.prems" have n: "0 < n" and v: "valid_utf8 (drop (n - 1) s)"
      by (auto simp: valid_utf8.simps(2) simp del: rune_len.simps)
    let ?X = "json_escape (drop (n - 1) s) @ dquote # r"
    have IH: "p_str ?X = Some (drop (n - 1) s, r)"
      using "2.IH"(3) [OF False n_def refl] n v by simp
    have split: "take n (c # s) @ drop (n - 1) s = c # s"
      using n by (cases n) auto
    have "p_str (bslash # ''u2028'' @ ?X) = out (map char_of [226::nat, 128, 168]) (p_str ?X)"
      "p_str (bslash # ''u2029'' @ ?X) = out (map char_of [226::nat, 128, 169]) (p_str ?X)"
      by (simp_all add: hex4_def hex_val_def is_digit_def unescape_u_def rune_enc_def)
    moreover have "p_str (take n (c # s) @ ?X) = out (take n (c # s)) (p_str ?X)"
      using False n n_def by (intro p_str_rune) auto
    ultimately show ?thesis
      using False n IH split unfolding json_escape.simps n_def [symmetric] Let_def
      by (auto simp del: p_str.simps)
  qed
qed

section \<open>Values\<close>

fun json_wf :: "json \<Rightarrow> bool" where
  "json_wf JNull = True"
| "json_wf (JBool b) = True"
| "json_wf (JNum n) = (valid_num n \<and> list_all is_num_char n)"
| "json_wf (JStr s) = valid_utf8 s"
| "json_wf (JArr vs) = list_all json_wf vs"
| "json_wf (JObj ms) = list_all (\<lambda>(k, v). valid_utf8 k \<and> json_wf v) ms"

fun json_depth :: "json \<Rightarrow> nat" where
  "json_depth (JArr vs) = Suc (foldr (\<lambda>v. max (json_depth v)) vs 0)"
| "json_depth (JObj ms) = Suc (foldr (\<lambda>(k, v). max (json_depth v)) ms 0)"
| "json_depth _ = 0"

definition stops :: "string \<Rightarrow> bool" where
  "stops r \<longleftrightarrow> r = [] \<or> \<not> is_num_char (hd r)"

lemma valid_num_first:
  "valid_num n \<Longrightarrow> n \<noteq> [] \<and> (is_digit (hd n) \<or> hd n = CHR ''-'')"
  by (cases n) (auto simp: valid_num_def Let_def split: if_splits)

lemma skip_ws_id: "\<not> is_ws c \<Longrightarrow> skip_ws (c # s) = c # s"
  by (simp add: skip_ws_def)

lemma json_str_Cons: "json_str s @ r = dquote # json_escape s @ dquote # r"
  by (simp add: json_str_def)

lemma json_enc_first:
  assumes "json_wf v"
  obtains c t where "json_enc v = c # t" "\<not> is_ws c" "c \<noteq> CHR '']''" "c \<noteq> CHR ''}''"
proof (cases v)
  case (JNum n)
  with assms have n: "n \<noteq> []" "is_digit (hd n) \<or> hd n = CHR ''-''"
    using valid_num_first by auto
  then obtain c t where "n = c # t" by (cases n) auto
  with JNum n show ?thesis by (intro that [of c t]) (auto simp: is_digit_def is_ws_def)
next
  case (JBool b)
  then show ?thesis by (cases b) (auto intro!: that simp: is_ws_def)
qed (auto intro!: that simp: is_ws_def json_str_def)

lemma p_value_num:
  assumes "valid_num n" "list_all is_num_char n" "stops r"
  shows "p_value (Suc m) d (n @ r) = Some (JNum n, r)"
proof -
  obtain c t where n: "n = c # t" and c: "is_digit c \<or> c = CHR ''-''"
    using valid_num_first [OF assms(1)] by (cases n) auto
  have "takeWhile is_num_char (n @ r) = n" "dropWhile is_num_char (n @ r) = r"
    using assms(2,3) by (cases r; auto simp: list_all_iff stops_def)+
  then have num: "p_num (n @ r) = Some (JNum n, r)" using assms(1) by (simp add: p_num_def)
  have ws: "\<not> is_ws c" and no: "c \<noteq> CHR ''{''" "c \<noteq> CHR ''[''" "c \<noteq> dquote" "c \<noteq> CHR ''t''"
      "c \<noteq> CHR ''f''" "c \<noteq> CHR ''n''"
    using c by (auto simp: is_ws_def is_digit_def)
  show ?thesis using num n ws no by (simp add: skip_ws_id HasPrefix_def)
qed

lemma skip_ws_punct [simp]:
  "skip_ws (CHR '','' # s) = CHR '','' # s" "skip_ws (CHR '']'' # s) = CHR '']'' # s"
  "skip_ws (CHR ''}'' # s) = CHR ''}'' # s" "skip_ws (CHR '':'' # s) = CHR '':'' # s"
  "skip_ws (CHR ''{'' # s) = CHR ''{'' # s" "skip_ws (CHR ''['' # s) = CHR ''['' # s"
  "skip_ws (dquote # s) = dquote # s" "skip_ws [] = []"
  by (auto simp: skip_ws_def is_ws_def)

lemma stops_punct [simp]:
  "stops (CHR '','' # s)" "stops (CHR '']'' # s)" "stops (CHR ''}'' # s)" "stops []"
  by (auto simp: stops_def is_num_char_def is_digit_def)

text \<open>The elements of an array and the members of an object, given the round trip of each.\<close>

lemma p_elems_enc:
  assumes "\<And>v n d r. v \<in> set vs \<Longrightarrow> json_depth v \<le> d \<Longrightarrow> 2 * length (json_enc v) \<le> n \<Longrightarrow>
             stops r \<Longrightarrow> p_value n d (json_enc v @ r) = Some (v, r)"
    and "vs \<noteq> []" "foldr (\<lambda>v. max (json_depth v)) vs 0 \<le> d"
    and "2 * length (Join (map json_enc vs) '','') + 1 \<le> n"
  shows "p_elems n d (Join (map json_enc vs) '','' @ CHR '']'' # r) = Some (vs, r)"
  using assms
proof (induction vs arbitrary: n)
  case (Cons v vs)
  then obtain m where n: "n = Suc m" by (cases n) auto
  show ?case
  proof (cases "vs = []")
    case True
    with Cons.prems n show ?thesis by simp
  next
    case False
    let ?J = "Join (map json_enc vs) '',''"
    have J: "Join (map json_enc (v # vs)) '','' = json_enc v @ CHR '','' # ?J"
      using False by (simp add: Join_Cons)
    have "p_value m d (json_enc v @ CHR '','' # ?J @ CHR '']'' # r) = Some (v, CHR '','' # ?J @ CHR '']'' # r)"
      using Cons.prems n J by (intro Cons.prems(1)) auto
    moreover have "p_elems m d (?J @ CHR '']'' # r) = Some (vs, r)"
      using Cons.prems n J False by (intro Cons.IH) auto
    ultimately show ?thesis using J n by simp
  qed
qed simp

lemma p_members_enc:
  assumes "\<And>k v n d r. (k, v) \<in> set ms \<Longrightarrow> json_depth v \<le> d \<Longrightarrow> 2 * length (json_enc v) \<le> n \<Longrightarrow>
             stops r \<Longrightarrow> p_value n d (json_enc v @ r) = Some (v, r)"
    and "\<And>k v. (k, v) \<in> set ms \<Longrightarrow> valid_utf8 k"
    and "ms \<noteq> []" "foldr (\<lambda>(k, v). max (json_depth v)) ms 0 \<le> d"
    and "2 * length (Join (map (\<lambda>(k, v). json_str k @ '':'' @ json_enc v) ms) '','') + 1 \<le> n"
  shows "p_members n d (Join (map (\<lambda>(k, v). json_str k @ '':'' @ json_enc v) ms) '','' @ CHR ''}'' # r)
           = Some (ms, r)"
  using assms
proof (induction ms arbitrary: n)
  case (Cons kv ms)
  obtain k v where kv: "kv = (k, v)" by (cases kv)
  from Cons.prems obtain m where n: "n = Suc m" by (cases n) auto
  have k: "valid_utf8 k" using Cons.prems(2) [of k v] kv by simp
  have V: "p_value m d (json_enc v @ x) = Some (v, x)"
    if "2 * length (json_enc v) \<le> m" "stops x" for x
    using Cons.prems(1) [of k v d m x] Cons.prems(4) kv that by simp
  show ?case
  proof (cases "ms = []")
    case True
    with Cons.prems(5) n kv have "2 * length (json_enc v) \<le> m" by simp
    with V True n kv k show ?thesis by (simp add: json_str_Cons p_str_json_escape)
  next
    case False
    let ?J = "Join (map (\<lambda>(k, v). json_str k @ '':'' @ json_enc v) ms) '',''"
    have J: "Join (map (\<lambda>(k, v). json_str k @ '':'' @ json_enc v) (kv # ms)) '','' =
        json_str k @ CHR '':'' # json_enc v @ CHR '','' # ?J"
      using False kv by (simp add: Join_Cons)
    have "p_value m d (json_enc v @ CHR '','' # ?J @ CHR ''}'' # r) = Some (v, CHR '','' # ?J @ CHR ''}'' # r)"
      using Cons.prems(5) n J by (intro V) auto
    moreover have "p_members m d (?J @ CHR ''}'' # r) = Some (ms, r)"
    proof (rule Cons.IH)
      show "2 * length ?J + 1 \<le> m" using Cons.prems(5) n J by simp
      show "foldr (\<lambda>(k, v). max (json_depth v)) ms 0 \<le> d" using Cons.prems(4) kv by simp
    qed (use False in \<open>auto intro: Cons.prems(1,2)\<close>)
    ultimately show ?thesis
      using n k kv unfolding J by (simp add: json_str_Cons p_str_json_escape)
  qed
qed simp

lemma Join_first: "ps \<noteq> [] \<Longrightarrow> hd ps = c # t \<Longrightarrow> \<exists>u. Join ps sep = c # u"
  by (cases ps; cases "tl ps") auto

lemma p_value_json_enc:
  "json_wf v \<Longrightarrow> json_depth v \<le> d \<Longrightarrow> 2 * length (json_enc v) \<le> n \<Longrightarrow> stops r \<Longrightarrow>
     p_value n d (json_enc v @ r) = Some (v, r)"
proof (induction v arbitrary: n d r)
  case JNull
  then show ?case by (cases n) (auto simp: skip_ws_def is_ws_def HasPrefix_def)
next
  case (JBool b)
  then show ?case by (cases n; cases b) (auto simp: skip_ws_def is_ws_def HasPrefix_def)
next
  case (JNum x)
  then obtain m where "n = Suc m" by (cases n) (auto dest: valid_num_first)
  with JNum show ?case by (simp add: p_value_num del: p_value.simps)
next
  case (JStr x)
  then obtain m where "n = Suc m" by (cases n) (auto simp: json_str_def)
  with JStr show ?case by (simp add: json_str_Cons p_str_json_escape)
next
  case (JArr vs)
  from JArr.prems obtain m where n: "n = Suc m" by (cases n) auto
  from JArr.prems obtain e where d: "d = Suc e" by (cases d) auto
  show ?case
  proof (cases "vs = []")
    case True
    with n d show ?thesis by simp
  next
    case False
    have "json_wf (hd vs)" using JArr.prems(1) False by (simp add: list_all_iff)
    then obtain c t where c: "json_enc (hd vs) = c # t" "\<not> is_ws c" "c \<noteq> CHR '']''"
      by (metis json_enc_first)
    obtain u where u: "Join (map json_enc vs) '','' = c # u"
      using Join_first [of "map json_enc vs" c t] False c by (auto simp: list.map_sel)
    have "p_elems m e (Join (map json_enc vs) '','' @ CHR '']'' # r) = Some (vs, r)"
      using JArr.prems n d False
      by (intro p_elems_enc JArr.IH) (auto simp: list_all_iff)
    with n d u c show ?thesis by (simp add: skip_ws_id)
  qed
next
  case (JObj ms)
  from JObj.prems obtain m where n: "n = Suc m" by (cases n) auto
  from JObj.prems obtain e where d: "d = Suc e" by (cases d) auto
  show ?case
  proof (cases "ms = []")
    case True
    with n d show ?thesis by simp
  next
    case False
    let ?f = "\<lambda>(k, v). json_str k @ '':'' @ json_enc v"
    obtain t where "?f (hd ms) = dquote # t" by (cases "hd ms") (simp add: json_str_def)
    then obtain u where u: "Join (map ?f ms) '','' = dquote # u"
      using Join_first [of "map ?f ms" dquote t] False by (auto simp: list.map_sel)
    have "p_members m e (Join (map ?f ms) '','' @ CHR ''}'' # r) = Some (ms, r)"
    proof (rule p_members_enc)
      fix k v n d r
      assume "(k, v) \<in> set ms" "json_depth v \<le> d" "2 * length (json_enc v) \<le> n" "stops r"
      then show "p_value n d (json_enc v @ r) = Some (v, r)"
        using JObj.IH [of "(k, v)" v d n r] JObj.prems(1) by (auto simp: list_all_iff)
    qed (use JObj.prems n d False in \<open>auto simp: list_all_iff\<close>)
    with n d u show ?thesis by simp
  qed
qed

section \<open>Fuel\<close>

lemma skip_ws_length: "length (skip_ws s) \<le> length s"
  by (simp add: skip_ws_def length_dropWhile_le)

lemma p_str_rest: "p_str s = Some (x, r) \<Longrightarrow> length r < length s"
proof (induction s arbitrary: x r rule: p_str.induct)
  case (2 c s)
  show ?case
  proof (cases "c = dquote \<or> c = bslash \<or> byte c < 32 \<or> byte c < 128")
    case True
    with 2 show ?thesis
      by (fastforce split: if_splits list.splits option.splits prod.splits dest!: out_SomeD)
  next
    case False
    with 2 show ?thesis
      by (fastforce simp: Let_def split: if_splits dest!: out_SomeD)
  qed
qed simp

lemma p_num_rest: "p_num s = Some (v, r) \<Longrightarrow> length r < length s"
proof -
  assume p: "p_num s = Some (v, r)"
  then have "0 < length (takeWhile is_num_char s)"
    using valid_num_first by (auto simp: p_num_def Let_def split: if_splits)
  moreover have "length (takeWhile is_num_char s) + length (dropWhile is_num_char s) = length s"
    by (metis length_append takeWhile_dropWhile_id)
  ultimately have "length (dropWhile is_num_char s) < length s" by linarith
  with p show ?thesis by (auto simp: p_num_def Let_def split: if_splits)
qed

lemma drop1_skip_ws: "length (drop 1 (skip_ws s)) \<le> length s - 1"
  using skip_ws_length [of s] by simp

lemma take1_skip_ws: "take 1 (skip_ws s) = [c] \<Longrightarrow> length (drop 1 (skip_ws s)) < length s"
  using skip_ws_length [of s] by (cases "skip_ws s") auto

lemma skip_ws_Cons_less: "skip_ws s = c # t \<Longrightarrow> length t < length s"
  using skip_ws_length [of s] by simp

lemmas rest_facts = skip_ws_Cons_less take1_skip_ws p_str_rest p_num_rest

lemma p_rest:
  "p_value n d s = Some (v, r) \<Longrightarrow> length r < length s"
  "p_elems n d s = Some (vs, r) \<Longrightarrow> length r < length s"
  "p_members n d s = Some (ms, r) \<Longrightarrow> length r < length s"
proof (induction n d s and n d s and n d s arbitrary: v r and vs r and ms r
    rule: p_value_p_elems_p_members.induct)
  case (2 n d s)
  from "2.prems" obtain c t where s: "skip_ws s = c # t"
    by (cases "skip_ws s") auto
  have t: "length t < length s" using skip_ws_Cons_less [OF s] .
  have "length r < length s" if "r = drop 1 (skip_ws t)"
    using that t skip_ws_length [of t] by simp
  then show ?case
    using "2.prems" s t "2.IH" p_str_rest [of t] p_num_rest [of "c # t"] skip_ws_length [of s]
    by (fastforce simp del: p_str.simps split: if_splits)
next
  case (4 n d s)
  from "4.prems" obtain v r0 where v: "p_value n d s = Some (v, r0)"
    by (auto split: option.splits)
  with "4.IH"(1) have r0: "length r0 < length s" by blast
  show ?case
  proof (cases "take 1 (skip_ws r0) = '',''")
    case True
    with "4.prems" v obtain vs' where "p_elems n d (drop 1 (skip_ws r0)) = Some (vs', r)"
      by (auto dest: out_SomeD)
    with "4.IH"(2) v True have "length r < length (drop 1 (skip_ws r0))" by blast
    with r0 drop1_skip_ws [of r0] show ?thesis by linarith
  next
    case False
    with "4.prems" v r0 drop1_skip_ws [of r0] show ?thesis by (auto split: if_splits)
  qed
next
  case (6 n d s)
  from "6.prems" obtain k r0 where k: "p_str (drop 1 (skip_ws s)) = Some (k, r0)"
      "take 1 (skip_ws s) = [dquote]"
    by (auto split: option.splits if_splits)
  with "6.prems" obtain v r1 where v: "p_value n d (drop 1 (skip_ws r0)) = Some (v, r1)"
      "take 1 (skip_ws r0) = '':''"
    by (auto split: option.splits if_splits)
  have r0: "length r0 < length s" using p_str_rest [OF k(1)] drop1_skip_ws [of s] by linarith
  have "length r1 < length (drop 1 (skip_ws r0))" using "6.IH"(1) k v by blast
  with r0 drop1_skip_ws [of r0] have r1: "length r1 < length s" by linarith
  show ?case
  proof (cases "take 1 (skip_ws r1) = '',''")
    case True
    with "6.prems" k v obtain ms' where "p_members n d (drop 1 (skip_ws r1)) = Some (ms', r)"
      by (auto dest: out_SomeD)
    with "6.IH"(2) k v True have "length r < length (drop 1 (skip_ws r1))" by blast
    with r1 drop1_skip_ws [of r1] show ?thesis by linarith
  next
    case False
    with "6.prems" k v r1 drop1_skip_ws [of r1] show ?thesis by (auto split: if_splits)
  qed
qed simp_all

text \<open>
  Two amounts of fuel of at least \<open>2 * length s + 1\<close> give the same answer: what the decoder
  accepts does not depend on its fuel.
\<close>

lemma p_members_fuel_step:
  assumes V: "\<And>x. length x < length s \<Longrightarrow> p_value n d x = p_value m d x"
    and M: "\<And>x. length x < length s \<Longrightarrow> p_members n d x = p_members m d x"
  shows "p_members (Suc n) d s = p_members (Suc m) d s"
proof (cases "p_str (drop 1 (skip_ws s))")
  case (Some kr)
  obtain k r where kr: "kr = (k, r)" by (cases kr)
  with Some have r: "length r < length s"
    using p_str_rest [of "drop 1 (skip_ws s)" k r] drop1_skip_ws [of s] by simp
  have v: "p_value n d (drop 1 (skip_ws r)) = p_value m d (drop 1 (skip_ws r))"
    using r drop1_skip_ws [of r] by (intro V) linarith
  show ?thesis
  proof (cases "p_value m d (drop 1 (skip_ws r))")
    case None
    with Some kr v show ?thesis by simp
  next
    case (Some vr)
    obtain x r' where vr: "vr = (x, r')" by (cases vr)
    have "length r' < length s"
      using p_rest(1) [of m d "drop 1 (skip_ws r)" x r'] Some vr r drop1_skip_ws [of r] by simp
    then have "p_members n d (drop 1 (skip_ws r')) = p_members m d (drop 1 (skip_ws r'))"
      using drop1_skip_ws [of r'] by (intro M) linarith
    with \<open>p_str _ = Some kr\<close> kr v Some vr show ?thesis by simp
  qed
qed simp

lemma p_elems_fuel_step:
  assumes V: "p_value n d s = p_value m d s"
    and E: "\<And>x. length x < length s \<Longrightarrow> p_elems n d x = p_elems m d x"
  shows "p_elems (Suc n) d s = p_elems (Suc m) d s"
proof (cases "p_value m d s")
  case (Some vr)
  obtain v r where vr: "vr = (v, r)" by (cases vr)
  with Some have "length r < length s" using p_rest(1) [of m d s v r] by simp
  then have "p_elems n d (drop 1 (skip_ws r)) = p_elems m d (drop 1 (skip_ws r))"
    using drop1_skip_ws [of r] by (intro E) linarith
  with V Some vr show ?thesis by simp
qed (simp add: V)

lemma p_value_fuel_step:
  assumes E: "\<And>x e. length x < length s \<Longrightarrow> p_elems n e x = p_elems m e x"
    and M: "\<And>x e. length x < length s \<Longrightarrow> p_members n e x = p_members m e x"
  shows "p_value (Suc n) d s = p_value (Suc m) d s"
proof (cases "skip_ws s")
  case (Cons c t)
  then have "length t < length s" by (rule skip_ws_Cons_less)
  with E M Cons show ?thesis by (simp del: p_str.simps)
qed simp

definition fuel_free :: "string \<Rightarrow> bool" where
  "fuel_free s \<longleftrightarrow>
     (\<forall>n m d. 2 * length s + 1 \<le> n \<longrightarrow> 2 * length s + 1 \<le> m \<longrightarrow> p_value n d s = p_value m d s) \<and>
     (\<forall>n m d. 2 * length s + 2 \<le> n \<longrightarrow> 2 * length s + 2 \<le> m \<longrightarrow> p_elems n d s = p_elems m d s) \<and>
     (\<forall>n m d. 2 * length s + 2 \<le> n \<longrightarrow> 2 * length s + 2 \<le> m \<longrightarrow> p_members n d s = p_members m d s)"

lemma fuel_free: "fuel_free s"
proof (induction s rule: length_induct)
  case (1 s)
  have IH: "p_value n e x = p_value m e x \<and> p_elems n e x = p_elems m e x \<and>
      p_members n e x = p_members m e x"
    if "length x < length s" "2 * length s \<le> n" "2 * length s \<le> m" for x n m e
  proof -
    have "fuel_free x" using 1 that(1) by blast
    moreover have "2 * length x + 2 \<le> n" "2 * length x + 2 \<le> m" using that by auto
    ultimately show ?thesis unfolding fuel_free_def by (meson Suc_leD add_leD1 le_add1 order.trans
        add_le_cancel_left one_le_numeral)
  qed
  have V: "p_value n d s = p_value m d s" if "2 * length s + 1 \<le> n" "2 * length s + 1 \<le> m" for n m d
  proof -
    from that obtain a b where ab: "n = Suc a" "m = Suc b" by (metis Suc_eq_plus1 Suc_le_D)
    with that have "2 * length s \<le> a" "2 * length s \<le> b" by auto
    with IH show ?thesis unfolding ab by (intro p_value_fuel_step) blast+
  qed
  have "p_elems n d s = p_elems m d s" "p_members n d s = p_members m d s"
    if "2 * length s + 2 \<le> n" "2 * length s + 2 \<le> m" for n m d
  proof -
    from that obtain a b where ab: "n = Suc a" "m = Suc b" by (metis Suc_le_D add_2_eq_Suc')
    with that have le: "2 * length s + 1 \<le> a" "2 * length s + 1 \<le> b" by auto
    then have le': "2 * length s \<le> a" "2 * length s \<le> b" by auto
    show "p_elems n d s = p_elems m d s"
      unfolding ab using V le IH le' by (intro p_elems_fuel_step) blast+
    show "p_members n d s = p_members m d s"
      unfolding ab using IH le' by (intro p_members_fuel_step) blast+
  qed
  with V show ?case unfolding fuel_free_def by blast
qed

lemma p_value_fuel:
  "json_fuel s \<le> n \<Longrightarrow> p_value n d s = p_value (json_fuel s) d s"
  using fuel_free [of s] unfolding fuel_free_def json_fuel_def by blast

section \<open>The codec\<close>

lemma p_value_encoded:
  assumes "json_wf v" "json_depth v \<le> 10000" "stops r"
  shows "p_value (json_fuel (json_enc v @ r)) 10000 (json_enc v @ r) = Some (v, r)"
  using assms by (intro p_value_json_enc) (auto simp: json_fuel_def)

lemma json_decode_enc:
  "json_wf v \<Longrightarrow> json_depth v \<le> 10000 \<Longrightarrow> stops r \<Longrightarrow> json_decode (json_enc v @ r) = Some v"
  by (simp add: json_decode_def p_value_encoded)

lemma json_unmarshal_enc:
  "json_wf v \<Longrightarrow> json_depth v \<le> 10000 \<Longrightarrow> json_unmarshal (json_enc v) = Some v"
  using p_value_encoded [of v "[]"] by (simp add: json_unmarshal_def)

lemma dec_leading_zero: "hd (dec n) = CHR ''0'' \<Longrightarrow> length (dec n) = 1"
proof (induction n rule: dec.induct)
  case (1 n)
  show ?case
  proof (cases "n < 10")
    case True
    then show ?thesis by (simp add: dec.simps [of n])
  next
    case False
    with "1.prems" have "hd (dec (n div 10)) = CHR ''0''"
      by (simp add: dec.simps [of n])
    moreover from this False "1.IH" have "length (dec (n div 10)) = 1" by blast
    ultimately have "dec (n div 10) = ''0''" by (cases "dec (n div 10)") auto
    then have "n div 10 = dec_val ''0''" using dec_val_dec [of "n div 10"] by simp
    with False show ?thesis by (simp add: dec_val_def digit_val_def)
  qed
qed

lemma valid_num_dec: "valid_num (dec n)" "valid_num (CHR ''-'' # dec n)"
proof -
  have tw: "takeWhile is_digit (dec n) = dec n" "dropWhile is_digit (dec n) = []"
    using dec_digits [of n] by (auto simp: list_all_iff takeWhile_eq_all_conv dropWhile_eq_Nil_conv)
  have "hd (dec n) \<noteq> CHR ''-''" using dec_hd_digit [of n] by (auto simp: is_digit_def)
  with dec_leading_zero [of n] dec_set_digits show "valid_num (dec n)" "valid_num (CHR ''-'' # dec n)"
    by (simp_all add: valid_num_def valid_exp_def Let_def tw)
qed

lemma JInt_wf: "json_wf (JInt i)"
  using valid_num_dec dec_digits
  by (auto simp: JInt_def itoa_def is_num_char_def list_all_iff)

lemma parse_int64_itoa: "int64 i \<Longrightarrow> parse_int64 (itoa i) = Some i"
proof (cases "i < 0")
  case True
  assume "int64 i"
  with True dec_digits [of "nat (- i)"] show ?thesis
    by (auto simp: parse_int64_def itoa_def Atoi_def Let_def list_all_iff)
next
  case False
  assume i: "int64 i"
  have "Atoi (dec (nat i)) = Some (int (nat i))"
    using i False by (intro Atoi_dec) (auto simp: int64_def)
  with False dec_digits [of "nat i"] show ?thesis
    by (auto simp: parse_int64_def itoa_def list_all_iff)
qed

section \<open>Objects with plain keys\<close>

text \<open>
  Lower-case ASCII keys fold to themselves, so that an object whose keys are such names, each once,
  is read like a map.
\<close>

definition snake :: "string \<Rightarrow> bool" where
  "snake s \<longleftrightarrow> list_all (\<lambda>c. byte c < 128 \<and> \<not> (65 \<le> byte c \<and> byte c \<le> 90)) s"

lemma fold_key_snake: "snake s \<Longrightarrow> fold_key s = s"
proof (induction s)
  case (Cons c s)
  then have b: "byte c < 128" by (simp add: snake_def)
  then have "c \<noteq> char_of (197::nat)" "c \<noteq> char_of (226::nat)" by auto
  with Cons show ?case by (auto simp: snake_def lower_def)
qed simp

lemma key_matches_snake: "snake f \<Longrightarrow> snake k \<Longrightarrow> key_matches names f k \<longleftrightarrow> k = f"
  by (auto simp: key_matches_def fold_key_snake)

lemma foldl_no_key:
  "f \<notin> fst ` set ms \<Longrightarrow> foldl (\<lambda>a (k, v). if k = f then g v a else a) a0 ms = a0"
  by (induction ms) auto

lemma foldl_one_key:
  "distinct (map fst ms) \<Longrightarrow>
     foldl (\<lambda>a (k, v). if k = f then g v a else a) a0 ms = (case map_of ms f of Some v \<Rightarrow> g v a0 | None \<Rightarrow> a0)"
proof (induction ms)
  case (Cons m ms)
  then show ?case by (cases m) (auto simp: foldl_no_key)
qed simp

lemma field_fold_snake:
  assumes "snake f" "list_all snake (map fst ms)" "distinct (map fst ms)"
  shows "foldl (\<lambda>a (k, v). if key_matches names f k then g v a else a) a0 ms =
    (case map_of ms f of Some v \<Rightarrow> g v a0 | None \<Rightarrow> a0)"
proof -
  have "foldl (\<lambda>a (k, v). if key_matches names f k then g v a else a) a0 ms =
      foldl (\<lambda>a (k, v). if k = f then g v a else a) a0 ms"
    by (rule foldl_cong) (use assms(1,2) in \<open>auto simp: list_all_iff key_matches_snake\<close>)
  with foldl_one_key [OF assms(3)] show ?thesis by simp
qed

lemmas str_field_snake = field_fold_snake [where g = set_str and ?a0.0 = "([], False)", folded str_field_def]

end
