(* ===== verification/Edgeproxy.thy ===== *)
theory Edgeproxy
  imports Edge_Router Json_Codec
begin

text \<open>
  The scheduler's client of the edge proxy's admin API,
  \<^verbatim>\<open>services/scheduler/internal/edgeproxy/client.go\<close>, over an arbitrary transport; and the
  transport that delivers every request to the admin API of \<open>Edge_Router\<close> and every response
  back, over which the client is a faithful writer of the routing table.
\<close>

section \<open>The client\<close>

datatype client_error =
    NewRequestFailed string
  | DoFailed string string string        \<comment> \<open>method, URL, cause\<close>
  | BadStatus string string nat string   \<comment> \<open>method, URL, status, first 2048 bytes of the body\<close>

fun client_error_text :: "client_error \<Rightarrow> string" where
  "client_error_text (NewRequestFailed e) = e"
| "client_error_text (DoFailed m u e) = m @ '' '' @ u @ '': '' @ e"
| "client_error_text (BadStatus m u st b) = m @ '' '' @ u @ '': '' @ status_line st @ '': '' @ b"

definition route_body :: "string \<Rightarrow> string list \<Rightarrow> string" where
  "route_body host replicas =
     json_enc (JObj [(''host'', JStr host), (''replicas'', JArr (map JStr replicas))])"

definition do_request :: "'s transport \<Rightarrow> http_request \<Rightarrow> 's \<Rightarrow> client_error option \<times> 's" where
  "do_request tr req s =
     (case tr req s of
        (Inl (BadURL e), s') \<Rightarrow> (Some (NewRequestFailed e), s')
      | (Inl (Transport e), s') \<Rightarrow> (Some (DoFailed (rq_method req) (rq_url req) e), s')
      | (Inr resp, s') \<Rightarrow>
          (if rs_status resp < 200 \<or> rs_status resp \<ge> 300
           then (Some (BadStatus (rq_method req) (rq_url req) (rs_status resp)
                        (take 2048 (rs_body resp))), s')
           else (None, s')))"

definition RegisterRoute ::
  "'s transport \<Rightarrow> string \<Rightarrow> string \<Rightarrow> string list \<Rightarrow> 's \<Rightarrow> client_error option \<times> 's" where
  "RegisterRoute tr base host replicas s =
     do_request tr
       \<lparr>rq_method = ''POST'', rq_url = base @ ''/routes'', rq_ctype = ''application/json'',
        rq_body = route_body host replicas\<rparr> s"

definition RemoveRoute :: "'s transport \<Rightarrow> string \<Rightarrow> string \<Rightarrow> 's \<Rightarrow> client_error option \<times> 's" where
  "RemoveRoute tr base host s =
     do_request tr
       \<lparr>rq_method = ''DELETE'', rq_url = base @ ''/routes/'' @ host, rq_ctype = [], rq_body = []\<rparr> s"

section \<open>Delivery to the admin API\<close>

text \<open>
  A reliable transport: the admin API at \<open>base\<close> gets the request and its answer arrives. A
  lossy one may lose the answer after the admin API has acted (a timeout, say).
\<close>

definition deliver ::
  "(string \<Rightarrow> (string \<times> backend) option) \<Rightarrow> string \<Rightarrow> router transport" where
  "deliver from_slice base req r =
     (if HasPrefix (rq_url req) base
      then (let (resp, r') = admin_handle from_slice
                  (req\<lparr>rq_url := drop (length base) (rq_url req)\<rparr>) r
            in (Inr resp, r'))
      else (Inl (Transport ''connection refused''), r))"

definition lose_answer :: "'s transport \<Rightarrow> 's transport" where
  "lose_answer tr req s = (Inl (Transport ''timeout''), snd (tr req s))"

text \<open>
  The admin API's deserialiser is \<^verbatim>\<open>serde_json\<close>. The client relies on it reading back the JSON
  that \<^verbatim>\<open>json.Marshal\<close> writes.
\<close>

locale admin_wire =
  fixes from_slice :: "string \<Rightarrow> (string \<times> backend) option"
  assumes reads_back:
    "valid_utf8 h \<Longrightarrow> list_all valid_utf8 rs \<Longrightarrow> from_slice (route_body h rs) = Some (h, rs)"
begin

lemma register_delivered:
  assumes "valid_utf8 h" "list_all valid_utf8 rs" "h \<noteq> []" "rs \<noteq> []"
  shows "RegisterRoute (deliver from_slice base) base h rs r = (None, upsert r h rs)"
  using assms
  by (simp add: RegisterRoute_def do_request_def deliver_def admin_handle_def reads_back
      json_resp_def)

lemma register_lost:
  assumes "valid_utf8 h" "list_all valid_utf8 rs" "h \<noteq> []" "rs \<noteq> []"
  shows "\<exists>e. RegisterRoute (lose_answer (deliver from_slice base)) base h rs r =
           (Some e, upsert r h rs)"
  using assms
  by (simp add: RegisterRoute_def do_request_def deliver_def admin_handle_def reads_back
      json_resp_def lose_answer_def)

end

text \<open>A reader of the admin API's request body built from the JSON decoder.\<close>

fun strs :: "json list \<Rightarrow> string list option" where
  "strs [] = Some []"
| "strs (JStr s # vs) = map_option ((#) s) (strs vs)"
| "strs (_ # vs) = None"

definition read_route :: "string \<Rightarrow> (string \<times> backend) option" where
  "read_route s =
     (case json_unmarshal s of
        Some (JObj ms) \<Rightarrow>
          (case (map_of ms ''host'', map_of ms ''replicas'') of
             (Some (JStr h), Some (JArr vs)) \<Rightarrow> map_option (Pair h) (strs vs)
           | _ \<Rightarrow> None)
      | _ \<Rightarrow> None)"

lemma strs_map: "strs (map JStr rs) = Some rs"
  by (induction rs) auto

lemma foldr_max_zero: "foldr (\<lambda>v. max (json_depth v)) (map JStr rs) 0 = 0"
  by (induction rs) auto

lemma route_body_read:
  assumes "valid_utf8 h" "list_all valid_utf8 rs"
  shows "read_route (route_body h rs) = Some (h, rs)"
proof -
  have "json_wf (JObj [(''host'', JStr h), (''replicas'', JArr (map JStr rs))])"
    using assms by (auto simp: list_all_iff)
  then have "json_unmarshal (route_body h rs) =
      Some (JObj [(''host'', JStr h), (''replicas'', JArr (map JStr rs))])"
    unfolding route_body_def by (intro json_unmarshal_enc) (auto simp: foldr_max_zero)
  then show ?thesis by (simp add: read_route_def strs_map)
qed

interpretation wire: admin_wire read_route
  by unfold_locales (rule route_body_read)

lemma do_request_None: "do_request tr req s = (None, s') \<Longrightarrow>
    \<exists>resp. tr req s = (Inr resp, s') \<and> is_2xx (rs_status resp)"
  by (auto simp: do_request_def is_2xx_def split: prod.splits sum.splits http_error.splits if_splits)

end
