(* ===== verification/Buildrunner.thy ===== *)
theory Buildrunner
  imports Go_Path Os_World
begin

text \<open>
  The orchestrator's real builder, \<^verbatim>\<open>services/scheduler/internal/buildrunner/buildrunner.go\<close>: make
  an output directory, run the \<^verbatim>\<open>builder\<close> binary with \<^verbatim>\<open>/usr/sbin\<close> on its path, and return the
  image's path or remove the directory.
\<close>

record build_exec =
  be_Bin :: string
  be_OutDir :: string

text \<open>\<open>tmp\<close> is \<^verbatim>\<open>os.TempDir()\<close>.\<close>

definition NewBuildExec :: "string \<Rightarrow> string \<Rightarrow> string \<Rightarrow> build_exec" where
  "NewBuildExec tmp bin outDir =
     \<lparr>be_Bin = bin, be_OutDir = (if outDir = [] then tmp else outDir)\<rparr>"

definition sanitizeTag :: "string \<Rightarrow> string" where
  "sanitizeTag tag =
     map (\<lambda>c. if c = CHR ''/'' \<or> c = CHR '':'' \<or> c = CHR ''@'' then CHR ''-'' else c) tag"

definition ensureSbin :: "string \<Rightarrow> string" where
  "ensureSbin path =
     (if ''/usr/sbin'' \<in> set (Split path (CHR '':'')) then path
      else if path = [] then ''/usr/sbin:/sbin''
      else path @ '':/usr/sbin:/sbin'')"

text \<open>
  The command the builder is run with: the last \<^verbatim>\<open>PATH\<close> of the environment wins, so the
  environment is that of the process with \<^verbatim>\<open>PATH\<close> replaced; it is the first word here.
\<close>

definition build_command :: "build_exec \<Rightarrow> string \<Rightarrow> string \<Rightarrow> string \<Rightarrow> string \<Rightarrow> string list" where
  "build_command e path srcDir img tag =
     [''PATH='' @ ensureSbin path, be_Bin e, ''build'', srcDir, img, tag]"

definition Build ::
  "env \<Rightarrow> string \<Rightarrow> build_exec \<Rightarrow> string \<Rightarrow> string \<Rightarrow> os \<Rightarrow> (string, string) result \<times> os" where
  "Build env path e srcDir tag w =
     (let (r1, w1) = perform env (MkdirAll (be_OutDir e)) w in
      case r_err r1 of
        Some x \<Rightarrow> (Inl (''create out dir: '' @ x), w1)
      | None \<Rightarrow>
          (let (r2, w2) = perform env (MkdirTemp (be_OutDir e) ''rootfs-'') w1 in
           case r_err r2 of
             Some x \<Rightarrow> (Inl (''temp out dir: '' @ x), w2)
           | None \<Rightarrow>
               (let dir = r_out r2;
                    img = JoinPath [dir, sanitizeTag tag @ ''.ext4''];
                    (r3, w3) = perform env (Run (build_command e path srcDir img tag)) w2
                in case r_err r3 of
                     Some x \<Rightarrow>
                       (Inl (''builder build: '' @ x @ '': '' @ TrimSpace (r_out r3)),
                        exec env (RemoveAll dir) w3)
                   | None \<Rightarrow> (Inr img, w3))))"

section \<open>Tags and paths\<close>

lemma sanitizeTag_chars: "c \<in> set (sanitizeTag tag) \<Longrightarrow> c \<notin> set ''/:@''"
  by (auto simp: sanitizeTag_def split: if_splits)

lemma sanitizeTag_id: "set tag \<inter> set ''/:@'' = {} \<Longrightarrow> sanitizeTag tag = tag"
  unfolding sanitizeTag_def by (rule map_idI) auto

lemma sanitizeTag_idem: "sanitizeTag (sanitizeTag tag) = sanitizeTag tag"
  using sanitizeTag_chars by (intro sanitizeTag_id) auto

lemma image_name_proper: "proper (sanitizeTag tag @ ''.ext4'')"
  using sanitizeTag_chars [of _ tag] by (cases "sanitizeTag tag") (auto simp: proper_def)

text \<open>The file a sanitized name denotes lies directly in the directory it is joined to.\<close>

lemma image_path:
  assumes "list_all proper ds" "ds \<noteq> []"
  shows "JoinPath [abs_path ds, sanitizeTag tag @ ''.ext4''] =
           abs_path (ds @ [sanitizeTag tag @ ''.ext4''])"
proof -
  let ?n = "sanitizeTag tag @ ''.ext4''"
  have p: "proper ?n" by (rule image_name_proper)
  then have "Split ?n (CHR ''/'') = [?n]" by (intro Split_no_sep_id) (simp add: proper_def)
  with p have "resolve ds ?n = ds @ [?n]" by (simp add: resolve_def proper_def)
  with JoinPath_abs [OF assms] show ?thesis by simp
qed

lemma ensureSbin_has: "''/usr/sbin'' \<in> set (Split (ensureSbin path) (CHR '':''))"
proof (cases "''/usr/sbin'' \<in> set (Split path (CHR '':''))")
  case False
  have "Split (path @ '':/usr/sbin:/sbin'') (CHR '':'') = Split path (CHR '':'') @ [''/usr/sbin'', ''/sbin'']"
    using Split_append [of path "CHR '':''" "''/usr/sbin:/sbin''"] by simp
  with False show ?thesis by (simp add: ensureSbin_def)
qed (simp add: ensureSbin_def)

section \<open>Properties\<close>

text \<open>
  \<^verbatim>\<open>Build\<close> on every path, when the temporary directory it is given has a clean absolute
  path: the image it returns lies directly in that directory, under the sanitized tag, whatever
  the tag contains, and the builder was asked for exactly that file, with the sbin directories on
  its path; when the builder fails, the directory is removed and the error is reported.
\<close>

theorem Build_contract:
  assumes "perform env (MkdirAll (be_OutDir e)) w = (r1, w1)" "r_err r1 = None"
    and "perform env (MkdirTemp (be_OutDir e) ''rootfs-'') w1 = (r2, w2)" "r_err r2 = None"
    and d: "r_out r2 = abs_path ds" "list_all proper ds" "ds \<noteq> []"
    and b: "Build env path e src tag w = (res, w')"
  shows "let img = abs_path (ds @ [sanitizeTag tag @ ''.ext4'']);
             c = Run (build_command e path src img tag); r3 = reply_of env c w2
         in ''/usr/sbin'' \<in> set (Split (ensureSbin path) (CHR '':'')) \<and>
            (r_err r3 = None \<longrightarrow> res = Inr img \<and> w' = exec env c w2) \<and>
            (r_err r3 \<noteq> None \<longrightarrow> (\<exists>x. res = Inl x) \<and>
               trace w' = trace w2 @ [c, RemoveAll (abs_path ds)])"
proof -
  have img: "JoinPath [r_out r2, sanitizeTag tag @ ''.ext4''] = abs_path (ds @ [sanitizeTag tag @ ''.ext4''])"
    using image_path [OF d(2,3)] d(1) by simp
  let ?img = "abs_path (ds @ [sanitizeTag tag @ ''.ext4''])"
  let ?c = "Run (build_command e path src ?img tag)"
  have p3: "perform env ?c w2 = (reply_of env ?c w2, exec env ?c w2)" by (rule perform_eq)
  have "(res, w') =
      (case r_err (reply_of env ?c w2) of
         Some x \<Rightarrow> (Inl (''builder build: '' @ x @ '': '' @ TrimSpace (r_out (reply_of env ?c w2))),
                     exec env (RemoveAll (r_out r2)) (exec env ?c w2))
       | None \<Rightarrow> (Inr ?img, exec env ?c w2))"
    using b assms(2,4) by (simp add: Build_def Let_def assms(1,3) img p3 cong: option.case_cong)
  then show ?thesis
    using ensureSbin_has [of path] d(1) by (auto simp: Let_def split: option.splits)
qed

definition tmp_reply_env :: env where
  "tmp_reply_env h c = ok_reply\<lparr>r_out := ''/tmp/r1''\<rparr>"

theorem Build_contract_witness:
  "fst (Build tmp_reply_env ''/bin'' (NewBuildExec ''/tmp'' ''builder'' []) ''/src'' ''a/b:c'' boot_os) =
     Inr ''/tmp/r1/a-b-c.ext4''"
proof -
  let ?e = "NewBuildExec ''/tmp'' ''builder'' []"
  have p: "perform tmp_reply_env c w = (ok_reply\<lparr>r_out := ''/tmp/r1''\<rparr>, exec tmp_reply_env c w)" for c w
    by (simp add: perform_def exec_def tmp_reply_env_def Let_def)
  have r: "reply_of tmp_reply_env c w = ok_reply\<lparr>r_out := ''/tmp/r1''\<rparr>" for c w
    by (simp add: reply_of_def p)
  have d: "r_out (ok_reply\<lparr>r_out := ''/tmp/r1''\<rparr>) = abs_path [''tmp'', ''r1'']"
    "list_all proper [''tmp'', ''r1'']" "[''tmp'', ''r1''] \<noteq> []"
    by (simp_all add: abs_path_def proper_def)
  obtain res w' where b: "Build tmp_reply_env ''/bin'' ?e ''/src'' ''a/b:c'' boot_os = (res, w')"
    by (cases "Build tmp_reply_env ''/bin'' ?e ''/src'' ''a/b:c'' boot_os")
  have "r_err (ok_reply\<lparr>r_out := ''/tmp/r1''\<rparr>) = None" by (simp add: ok_reply_def)
  from Build_contract [OF p this p this d b] this
  have "res = Inr (abs_path ([''tmp'', ''r1''] @ [sanitizeTag ''a/b:c'' @ ''.ext4'']))"
    by (simp only: Let_def r)
  with b show ?thesis by (simp add: abs_path_def sanitizeTag_def)
qed

end
