(* ===== verification/Orchestrator.thy ===== *)
theory Orchestrator
  imports Ipam Runner Edgeproxy Buildrunner
begin

text \<open>
  The deploy flow, \<^verbatim>\<open>services/scheduler/internal/orchestrator/orchestrator.go\<close>: build a rootfs,
  lease a network identity, boot a microVM, register the route, and unwind on failure. The
  builder, the runner and the proxy client are the fields of the orchestrator, over an arbitrary
  state of the outside. The locale \<open>vm_platform\<close> is what \<^verbatim>\<open>Deploy\<close> relies on; its lemmas give the
  contract of \<^verbatim>\<open>Deploy\<close> on success and on every failure. \<open>real_orc\<close> puts the modelled runner,
  builder and client into the fields, and the locale is proved of it.
\<close>

section \<open>The orchestrator\<close>

record dep_request =
  dr_Service :: string
  dr_Image :: string
  dr_SourceDir :: string

record dep_result =
  dp_Host :: string
  dp_URL :: string
  dp_GuestIP :: string
  dp_TapDev :: string

datatype deploy_error =
    BuildRootfsFailed string
  | AllocateFailed ipam_error
  | BootFailed string
  | RegisterFailed client_error

fun deploy_error_text :: "deploy_error \<Rightarrow> string" where
  "deploy_error_text (BuildRootfsFailed e) = ''build rootfs: '' @ e"
| "deploy_error_text (AllocateFailed e) = ''allocate network: '' @ ipam_error_text e"
| "deploy_error_text (BootFailed e) = ''boot microVM: '' @ e"
| "deploy_error_text (RegisterFailed e) = ''register route: '' @ client_error_text e"

record 's orchestrator =
  o_boot :: "bootspec \<Rightarrow> 's \<Rightarrow> string option \<times> 's"
  o_stop :: "string \<Rightarrow> 's \<Rightarrow> string option \<times> 's"
  o_build :: "(string \<Rightarrow> string \<Rightarrow> 's \<Rightarrow> (string, string) result \<times> 's) option"
  o_register :: "string \<Rightarrow> string list \<Rightarrow> 's \<Rightarrow> client_error option \<times> 's"
  o_domain :: string

definition NewOrchestrator ::
  "(string \<Rightarrow> string list \<Rightarrow> 's \<Rightarrow> client_error option \<times> 's) \<Rightarrow>
   (bootspec \<Rightarrow> 's \<Rightarrow> string option \<times> 's) \<Rightarrow> (string \<Rightarrow> 's \<Rightarrow> string option \<times> 's) \<Rightarrow> string \<Rightarrow>
   's orchestrator" where
  "NewOrchestrator register boot stop domain =
     \<lparr>o_boot = boot, o_stop = stop, o_build = None, o_register = register, o_domain = domain\<rparr>"

definition WithBuilder ::
  "(string \<Rightarrow> string \<Rightarrow> 's \<Rightarrow> (string, string) result \<times> 's) option \<Rightarrow> 's orchestrator \<Rightarrow>
   's orchestrator" where
  "WithBuilder b orc = orc\<lparr>o_build := b\<rparr>"

definition image_tag :: "string \<Rightarrow> string" where
  "image_tag service = ''antariksh/'' @ service @ '':latest''"

text \<open>The first part of \<^verbatim>\<open>Deploy\<close>: the rootfs to boot, empty for the runner's default.\<close>

definition build_rootfs ::
  "'s orchestrator \<Rightarrow> dep_request \<Rightarrow> 's \<Rightarrow> (deploy_error, string) result \<times> 's" where
  "build_rootfs orc req s =
     (case (dr_SourceDir req, o_build orc) of
        (_ # _, Some build) \<Rightarrow>
          (case build (dr_SourceDir req) (image_tag (dr_Service req)) s of
             (Inl e, s') \<Rightarrow> (Inl (BuildRootfsFailed e), s')
           | (Inr rp, s') \<Rightarrow> (Inr rp, s'))
      | _ \<Rightarrow> (Inr [], s))"

definition boot_spec :: "lease \<Rightarrow> string \<Rightarrow> string \<Rightarrow> string \<Rightarrow> bootspec" where
  "boot_spec l host img rootfs =
     \<lparr>bs_GuestIP = l_GuestIP l, bs_HostIP = host, bs_TapDev = l_TapDev l,
      bs_GuestMAC = l_GuestMAC l, bs_Image = img, bs_RootfsPath = rootfs,
      bs_VCPU = 1, bs_MemMB = 256\<rparr>"

definition route_host :: "'s orchestrator \<Rightarrow> dep_request \<Rightarrow> string" where
  "route_host orc req = dr_Service req @ ''.'' @ o_domain orc"

definition lease_addr :: "lease \<Rightarrow> string" where
  "lease_addr l = l_GuestIP l @ '':80''"

definition live_result :: "'s orchestrator \<Rightarrow> dep_request \<Rightarrow> lease \<Rightarrow> dep_result" where
  "live_result orc req l =
     \<lparr>dp_Host = route_host orc req, dp_URL = ''http://'' @ route_host orc req,
      dp_GuestIP = l_GuestIP l, dp_TapDev = l_TapDev l\<rparr>"

definition Deploy ::
  "'s orchestrator \<Rightarrow> dep_request \<Rightarrow> allocator \<Rightarrow> 's \<Rightarrow>
   (deploy_error, dep_result) result \<times> allocator \<times> 's" where
  "Deploy orc req a s =
     (case build_rootfs orc req s of
        (Inl e, s1) \<Rightarrow> (Inl e, a, s1)
      | (Inr rootfs, s1) \<Rightarrow>
          (case Allocate a of
             (Inl e, a1) \<Rightarrow> (Inl (AllocateFailed e), a1, s1)
           | (Inr l, a1) \<Rightarrow>
               (case o_boot orc (boot_spec l (HostIP a1) (dr_Image req) rootfs) s1 of
                  (Some e, s2) \<Rightarrow> (Inl (BootFailed e), Release a1 l, s2)
                | (None, s2) \<Rightarrow>
                    (case o_register orc (route_host orc req) [lease_addr l] s2 of
                       (Some e, s3) \<Rightarrow>
                         (case o_stop orc (l_TapDev l) s3 of
                            (_, s4) \<Rightarrow> (Inl (RegisterFailed e), Release a1 l, s4))
                     | (None, s3) \<Rightarrow> (Inr (live_result orc req l), a1, s3)))))"

lemma lease_addr_utf8: "genuine l \<Longrightarrow> list_all valid_utf8 [lease_addr l]"
proof -
  assume "genuine l"
  then have "lease_addr l = ''172.16.0.'' @ dec (l_octet l) @ '':80''"
    unfolding genuine_def lease_addr_def mk_lease_def by (metis append_assoc lease.select_convs(1))
  then show ?thesis by (simp add: valid_utf8_append dec_valid_utf8 valid_utf8_ascii)
qed

text \<open>Requests served one after the other, with their outcomes.\<close>

fun deploy_all ::
  "'s orchestrator \<Rightarrow> dep_request list \<Rightarrow> allocator \<Rightarrow> 's \<Rightarrow>
   (deploy_error, dep_result) result list \<times> allocator \<times> 's" where
  "deploy_all orc [] a s = ([], a, s)"
| "deploy_all orc (req # reqs) a s =
     (let (r, a1, s1) = Deploy orc req a s; (rs, a2, s2) = deploy_all orc reqs a1 s1
      in (r # rs, a2, s2))"

definition succeeded :: "(deploy_error, dep_result) result \<Rightarrow> bool" where
  "succeeded r \<longleftrightarrow> (case r of Inr _ \<Rightarrow> True | Inl _ \<Rightarrow> False)"

lemma build_rootfs_error: "build_rootfs orc req s = (Inl e, s') \<Longrightarrow> \<exists>x. e = BuildRootfsFailed x"
  by (auto simp: build_rootfs_def split: list.splits option.splits prod.splits sum.splits)

text \<open>The five ways a deploy can end.\<close>

lemma Deploy_cases:
  assumes "Deploy orc req a s = (res, a', s')"
  obtains (build_failed) e where "build_rootfs orc req s = (Inl e, s')" "res = Inl e" "a' = a"
  | (exhausted) rootfs e where "build_rootfs orc req s = (Inr rootfs, s')"
      "Allocate a = (Inl e, a')" "res = Inl (AllocateFailed e)"
  | (boot_failed) rootfs s1 l a1 e where "build_rootfs orc req s = (Inr rootfs, s1)"
      "Allocate a = (Inr l, a1)"
      "o_boot orc (boot_spec l (HostIP a1) (dr_Image req) rootfs) s1 = (Some e, s')"
      "res = Inl (BootFailed e)" "a' = Release a1 l"
  | (route_failed) rootfs s1 l a1 s2 e s3 r where "build_rootfs orc req s = (Inr rootfs, s1)"
      "Allocate a = (Inr l, a1)"
      "o_boot orc (boot_spec l (HostIP a1) (dr_Image req) rootfs) s1 = (None, s2)"
      "o_register orc (route_host orc req) [lease_addr l] s2 = (Some e, s3)"
      "o_stop orc (l_TapDev l) s3 = (r, s')"
      "res = Inl (RegisterFailed e)" "a' = Release a1 l"
  | (live) rootfs s1 l s2 where "build_rootfs orc req s = (Inr rootfs, s1)"
      "Allocate a = (Inr l, a')"
      "o_boot orc (boot_spec l (HostIP a') (dr_Image req) rootfs) s1 = (None, s2)"
      "o_register orc (route_host orc req) [lease_addr l] s2 = (None, s')"
      "res = Inr (live_result orc req l)"
proof -
  obtain br s1 where b: "build_rootfs orc req s = (br, s1)" by (cases "build_rootfs orc req s")
  obtain al a1 where al: "Allocate a = (al, a1)" by (cases "Allocate a")
  show thesis
  proof (cases br)
    case (Inl e)
    with assms b show thesis by (intro build_failed) (auto simp: Deploy_def)
  next
    case br: (Inr rootfs)
    show thesis
    proof (cases al)
      case (Inl e)
      with assms b br al show thesis by (intro exhausted) (auto simp: Deploy_def)
    next
      case l: (Inr l)
      let ?spec = "boot_spec l (HostIP a1) (dr_Image req) rootfs"
      obtain bt s2 where bt: "o_boot orc ?spec s1 = (bt, s2)" by (cases "o_boot orc ?spec s1")
      obtain rg s3 where rg: "o_register orc (route_host orc req) [lease_addr l] s2 = (rg, s3)"
        by (cases "o_register orc (route_host orc req) [lease_addr l] s2")
      obtain sp s4 where sp: "o_stop orc (l_TapDev l) s3 = (sp, s4)" by (cases "o_stop orc (l_TapDev l) s3")
      note D = assms [unfolded Deploy_def, simplified b br al l bt rg sp prod.case sum.case]
      show thesis
      proof (cases bt)
        case (Some e)
        with D b br al l bt show thesis by (intro boot_failed) auto
      next
        case None
        with D b br al l bt rg sp show thesis
          by (cases rg) (auto intro: route_failed live)
      qed
    qed
  qed
qed

section \<open>What Deploy relies on\<close>

text \<open>
  The platform seen through the set of TAP devices with a running VM and the routing table: a
  boot adds its VM or, when it fails for a device without one, changes nothing; a stop removes
  the VM; building touches neither; a registration that reports success has stored the route,
  and one that reports an error has stored it or not.
\<close>

locale vm_platform =
  fixes orc :: "'s orchestrator"
    and running :: "'s \<Rightarrow> string set"
    and routes :: "'s \<Rightarrow> string \<rightharpoonup> backend"
    and routable :: "string \<Rightarrow> bool"
  assumes boot_ok: "o_boot orc spec s = (None, s') \<Longrightarrow>
        running s' = insert (bs_TapDev spec) (running s) \<and> routes s' = routes s"
    and boot_err: "o_boot orc spec s = (Some e, s') \<Longrightarrow> bs_TapDev spec \<notin> running s \<Longrightarrow>
        running s' = running s \<and> routes s' = routes s"
    and stop_any: "o_stop orc tap s = (r, s') \<Longrightarrow>
        running s' = running s - {tap} \<and> routes s' = routes s"
    and build_any: "o_build orc = Some b \<Longrightarrow> b src tag s = (br, s') \<Longrightarrow>
        running s' = running s \<and> routes s' = routes s"
    and register_any: "o_register orc h rs s = (re, s') \<Longrightarrow> running s' = running s"
    and register_ok: "o_register orc h rs s = (None, s') \<Longrightarrow> routable h \<Longrightarrow> rs \<noteq> [] \<Longrightarrow>
        list_all valid_utf8 rs \<Longrightarrow>
        routes s' = (routes s)(h \<mapsto> rs)"
    and register_err: "o_register orc h rs s = (Some ce, s') \<Longrightarrow> routable h \<Longrightarrow> rs \<noteq> [] \<Longrightarrow>
        list_all valid_utf8 rs \<Longrightarrow>
        routes s' = routes s \<or> routes s' = (routes s)(h \<mapsto> rs)"
begin

lemma build_rootfs_keeps:
  "build_rootfs orc req s = (r, s') \<Longrightarrow> running s' = running s \<and> routes s' = routes s"
  by (auto simp: build_rootfs_def split: list.splits option.splits prod.splits sum.splits
      dest: build_any)

text \<open>
  The states between deploys: the octets \<open>L\<close> are leased, and every running VM has the TAP device
  of a leased octet.
\<close>

definition steady :: "allocator \<Rightarrow> nat set \<Rightarrow> 's \<Rightarrow> bool" where
  "steady a L s \<longleftrightarrow> ipam_inv a L \<and> running s \<subseteq> (\<lambda>n. l_TapDev (mk_lease n)) ` L"

lemma fresh_tap:
  assumes "steady a L s" "Allocate a = (Inr l, a')"
  shows "l_TapDev l \<notin> running s"
proof -
  from assms have "genuine l \<and> l_octet l \<notin> L" by (auto simp: steady_def dest: Allocate_fresh)
  then have "l_TapDev l \<notin> (\<lambda>n. l_TapDev (mk_lease n)) ` L"
    by (metis (no_types, lifting) genuine_def image_iff mk_lease_TapDev_inj)
  with assms show ?thesis by (auto simp: steady_def)
qed

lemma steady_build:
  "steady a L s \<Longrightarrow> build_rootfs orc req s = (r, s') \<Longrightarrow> steady a L s'"
  using build_rootfs_keeps by (simp add: steady_def)

text \<open>A failed deploy leaves the pool and the VMs as they were.\<close>

lemma failed_deploy:
  assumes "Deploy orc req a s = (Inl e, a', s')" "steady a L s"
  shows "ipam_inv a' L \<and> running s' = running s \<and> steady a' L s'"
  using assms(1)
proof (cases rule: Deploy_cases)
  case build_failed
  with assms(2) build_rootfs_keeps show ?thesis by (auto simp: steady_def)
next
  case exhausted
  with assms(2) build_rootfs_keeps [OF exhausted(1)] Allocate_fail [OF exhausted(2)]
  show ?thesis by (auto simp: steady_def)
next
  case (boot_failed rootfs s1 l a1 x)
  have "steady a L s1" using steady_build assms(2) boot_failed(1) .
  with boot_failed fresh_tap have "running s' = running s1"
    by (auto dest!: boot_err simp: boot_spec_def)
  moreover have "ipam_inv a' L"
    using ipam.alloc_rel_back [of a L l a1] boot_failed assms(2) by (simp add: steady_def)
  ultimately show ?thesis
    using assms(2) build_rootfs_keeps [OF boot_failed(1)] by (simp add: steady_def)
next
  case (route_failed rootfs s1 l a1 s2 x s3 r)
  have "steady a L s1" using steady_build assms(2) route_failed(1) .
  with route_failed fresh_tap have "l_TapDev l \<notin> running s1" by blast
  moreover have "running s' = insert (l_TapDev l) (running s1) - {l_TapDev l}"
    using boot_ok [OF route_failed(3)] register_any [OF route_failed(4)] stop_any [OF route_failed(5)]
    by (simp add: boot_spec_def)
  moreover have "ipam_inv a' L"
    using ipam.alloc_rel_back [of a L l a1] route_failed assms(2) by (simp add: steady_def)
  ultimately show ?thesis
    using assms(2) build_rootfs_keeps [OF route_failed(1)] by (simp add: steady_def)
qed simp

text \<open>
  The routing table after a failed deploy: unchanged, unless the registration failed after the
  proxy had stored the route.
\<close>

lemma failed_deploy_routes:
  assumes "Deploy orc req a s = (Inl e, a', s')" "steady a L s" "routable (route_host orc req)"
  shows "routes s' = routes s \<or>
         (\<exists>x l. e = RegisterFailed x \<and> genuine l \<and> routes s' = (routes s)(route_host orc req \<mapsto> [lease_addr l]))"
  using assms(1)
proof (cases rule: Deploy_cases)
  case (boot_failed rootfs s1 l a1 x)
  have "steady a L s1" using steady_build assms(2) boot_failed(1) .
  with boot_failed fresh_tap have "routes s' = routes s1"
    by (auto dest!: boot_err simp: boot_spec_def)
  then show ?thesis using build_rootfs_keeps [OF boot_failed(1)] by simp
next
  case (route_failed rootfs s1 l a1 s2 x s3 r)
  have g: "genuine l" using assms(2) route_failed(2) Allocate_fresh by (auto simp: steady_def)
  have "routes s3 = routes s2 \<or> routes s3 = (routes s2)(route_host orc req \<mapsto> [lease_addr l])"
    using register_err [OF route_failed(4) assms(3) _ lease_addr_utf8 [OF g]] by simp
  moreover have "routes s' = routes s3" "routes s2 = routes s"
    using stop_any [OF route_failed(5)] boot_ok [OF route_failed(3)]
      build_rootfs_keeps [OF route_failed(1)] by auto
  ultimately show ?thesis using g route_failed(6) by auto
qed (use build_rootfs_keeps in auto)

text \<open>A successful deploy: one more lease, one more VM, and the route to it.\<close>

lemma live_deploy:
  assumes "Deploy orc req a s = (Inr res, a', s')" "steady a L s"
  shows "\<exists>l. genuine l \<and> l_octet l \<notin> L \<and> res = live_result orc req l \<and>
             steady a' (insert (l_octet l) L) s' \<and>
             running s' = insert (l_TapDev l) (running s) \<and> l_TapDev l \<notin> running s \<and>
             (routable (route_host orc req) \<longrightarrow>
                routes s' = (routes s)(route_host orc req \<mapsto> [lease_addr l]))"
  using assms(1)
proof (cases rule: Deploy_cases)
  case (live rootfs s1 l s2)
  have l: "genuine l \<and> l_octet l \<notin> L \<and> ipam_inv a' (insert (l_octet l) L)"
    using assms(2) live(2) Allocate_fresh by (auto simp: steady_def)
  have f: "l_TapDev l \<notin> running s" using fresh_tap assms(2) live(2) .
  have r: "running s' = insert (l_TapDev l) (running s)"
    "routable (route_host orc req) \<longrightarrow> routes s' = (routes s)(route_host orc req \<mapsto> [lease_addr l])"
    using register_any [OF live(4)] register_ok [OF live(4)] lease_addr_utf8 [of l] l
      boot_ok [OF live(3)] build_rootfs_keeps [OF live(1)] by (auto simp: boot_spec_def)
  have "l_TapDev (mk_lease (l_octet l)) = l_TapDev l" using l by (metis genuine_def)
  with r l assms(2) have "steady a' (insert (l_octet l) L) s'"
    by (auto simp: steady_def)
  with l f r live(5) show ?thesis by blast
qed auto

text \<open>
  A sequence of deploys: a lease is held for every deploy that succeeded, and for no other, so
  the 253 leases of the pool are the number of deploys that can ever succeed.
\<close>

lemma deploy_all_steady:
  "deploy_all orc reqs a s = (outs, a', s') \<Longrightarrow> steady a L s \<Longrightarrow>
     \<exists>L'. steady a' L' s' \<and> card L' = card L + length (filter succeeded outs)"
proof (induction reqs arbitrary: a s outs L)
  case Nil
  then show ?case by (intro exI [of _ L]) simp
next
  case (Cons req reqs)
  obtain o1 a1 s1 where d: "Deploy orc req a s = (o1, a1, s1)" by (cases "Deploy orc req a s")
  obtain os a2 s2 where r: "deploy_all orc reqs a1 s1 = (os, a2, s2)"
    by (cases "deploy_all orc reqs a1 s1")
  with Cons.prems(1) d have os: "deploy_all orc reqs a1 s1 = (os, a', s')" "outs = o1 # os"
    by simp_all
  show ?case
  proof (cases o1)
    case (Inl e)
    have "steady a1 L s1" using failed_deploy [OF d [unfolded Inl] Cons.prems(2)] by blast
    from Cons.IH [OF os(1) this] Inl os(2) show ?thesis by (simp add: succeeded_def)
  next
    case (Inr r)
    from live_deploy [OF d [unfolded Inr] Cons.prems(2)]
    obtain l :: lease where l: "l_octet l \<notin> L" "steady a1 (insert (l_octet l) L) s1" by blast
    have "finite L" using ipam_inv_finite Cons.prems(2) unfolding steady_def by blast
    with Cons.IH [OF os(1) l(2)] l(1) Inr os(2) show ?thesis by (simp add: succeeded_def)
  qed
qed

lemma deploy_all_bounded:
  assumes "deploy_all orc reqs a s = (outs, a', s')" "steady a {} s"
  shows "length (filter succeeded outs) \<le> 253 \<and>
    (length (filter succeeded outs) = 253 \<longrightarrow> dr_SourceDir req = [] \<longrightarrow>
       fst (Deploy orc req a' s') = Inl (AllocateFailed PoolExhausted))"
proof -
  obtain L where L: "steady a' L s'" "card L = length (filter succeeded outs)"
    using deploy_all_steady [OF assms] by auto
  then have i: "ipam_inv a' L" by (simp add: steady_def)
  have "\<exists>a2. Allocate a' = (Inl PoolExhausted, a2)" if "card L = 253"
    using Allocate_fail_iff [OF i] that by (metis ipam_error.exhaust prod.collapse)
  moreover have "length (filter succeeded outs) \<le> 253"
    using ipam.card_le_cap [OF i] L(2) by simp
  ultimately show ?thesis
    unfolding L(2) by (auto simp: Deploy_def build_rootfs_def)
qed

end

locale exact_platform = vm_platform +
  assumes register_err_exact: "o_register orc h rs s = (Some ce, s') \<Longrightarrow> routes s' = routes s"
begin

lemma failed_deploy_exact:
  assumes "Deploy orc req a s = (Inl e, a', s')" "steady a L s"
  shows "routes s' = routes s"
  using assms(1)
proof (cases rule: Deploy_cases)
  case (boot_failed rootfs s1 l a1 x)
  have "steady a L s1" using steady_build assms(2) boot_failed(1) .
  with boot_failed fresh_tap have "routes s' = routes s1"
    by (auto dest!: boot_err simp: boot_spec_def)
  then show ?thesis using build_rootfs_keeps [OF boot_failed(1)] by simp
next
  case (route_failed rootfs s1 l a1 s2 x s3 r)
  show ?thesis
    using stop_any [OF route_failed(5)] register_err_exact [OF route_failed(4)]
      boot_ok [OF route_failed(3)] build_rootfs_keeps [OF route_failed(1)] by simp
qed (use build_rootfs_keeps in auto)

end

end
