(* ===== verification/Platform.thy ===== *)
theory Platform
  imports Orchestrator
begin

text \<open>
  The orchestrator on the modelled runner, builder and proxy client, and the proof that they are
  the platform \<^verbatim>\<open>Deploy\<close> relies on, for every behaviour of the operating system. The network
  between the scheduler and the proxy's admin API may refuse a request, deliver it and its
  answer, or deliver it and lose the answer.
\<close>

section \<open>The real orchestrator\<close>

type_synonym site = "vmhost \<times> router"

definition site_boot :: "env \<Rightarrow> exec_cfg \<Rightarrow> bootspec \<Rightarrow> site \<Rightarrow> string option \<times> site" where
  "site_boot env cfg spec st =
     (let (e, h) = Boot env cfg spec (fst st) in (e, (h, snd st)))"

definition site_stop :: "env \<Rightarrow> string \<Rightarrow> site \<Rightarrow> string option \<times> site" where
  "site_stop env tap st = (let (e, h) = Stop env tap (fst st) in (e, (h, snd st)))"

definition site_register ::
  "router transport \<Rightarrow> string \<Rightarrow> string \<Rightarrow> string list \<Rightarrow> site \<Rightarrow> client_error option \<times> site" where
  "site_register tr base host rs st =
     (let (e, r) = RegisterRoute tr base host rs (snd st) in (e, (fst st, r)))"

definition site_build ::
  "env \<Rightarrow> string \<Rightarrow> build_exec \<Rightarrow> string \<Rightarrow> string \<Rightarrow> site \<Rightarrow> (string, string) result \<times> site" where
  "site_build env path be src tag st =
     (let (res, w) = Build env path be src tag (world (fst st))
      in (res, ((fst st)\<lparr>world := w\<rparr>, snd st)))"

definition real_orc ::
  "env \<Rightarrow> string \<Rightarrow> exec_cfg \<Rightarrow> build_exec option \<Rightarrow> router transport \<Rightarrow> string \<Rightarrow> string \<Rightarrow>
   site orchestrator" where
  "real_orc env path cfg be tr base domain =
     WithBuilder (map_option (site_build env path) be)
       (NewOrchestrator (site_register tr base) (site_boot env cfg) (site_stop env) domain)"

definition site_running :: "site \<Rightarrow> string set" where
  "site_running st = dom (procs (fst st))"

definition site_routes :: "site \<Rightarrow> string \<rightharpoonup> backend" where
  "site_routes st = map_of (snd st)"

definition routable_host :: "string \<Rightarrow> bool" where
  "routable_host h \<longleftrightarrow> h \<noteq> [] \<and> valid_utf8 h"

text \<open>What a network can do to a request to the admin API.\<close>

definition lossy_net ::
  "(string \<Rightarrow> (string \<times> backend) option) \<Rightarrow> string \<Rightarrow> router transport \<Rightarrow> bool" where
  "lossy_net from_slice base tr \<longleftrightarrow>
     (\<forall>req r. (\<exists>e. tr req r = (Inl e, r)) \<or> tr req r = deliver from_slice base req r \<or>
              tr req r = lose_answer (deliver from_slice base) req r)"

definition prompt_net ::
  "(string \<Rightarrow> (string \<times> backend) option) \<Rightarrow> string \<Rightarrow> router transport \<Rightarrow> bool" where
  "prompt_net from_slice base tr \<longleftrightarrow>
     (\<forall>req r. (\<exists>e. tr req r = (Inl e, r)) \<or> tr req r = deliver from_slice base req r)"

lemma prompt_lossy: "prompt_net fs base tr \<Longrightarrow> lossy_net fs base tr"
  by (auto simp: prompt_net_def lossy_net_def)

lemma prompt_deliver: "prompt_net fs base (deliver fs base)"
  by (simp add: prompt_net_def)

section \<open>It is a platform\<close>

lemma site_boot_platform:
  assumes "site_boot env cfg spec st = (r, st')"
  shows "site_routes st' = site_routes st \<and>
    (r = None \<longrightarrow> site_running st' = insert (bs_TapDev spec) (site_running st)) \<and>
    (r \<noteq> None \<longrightarrow> bs_TapDev spec \<notin> site_running st \<longrightarrow> site_running st' = site_running st)"
proof -
  obtain e h where b: "Boot env cfg spec (fst st) = (e, h)" by (cases "Boot env cfg spec (fst st)")
  with assms have "r = e" "st' = (h, snd st)" by (auto simp: site_boot_def)
  then show ?thesis
    by (cases rule: Boot_cases [OF b]) (auto simp: site_running_def site_routes_def)
qed

lemma site_stop_platform:
  "site_stop env tap st = (r, st') \<Longrightarrow>
     site_running st' = site_running st - {tap} \<and> site_routes st' = site_routes st"
  using Stop_procs [of env tap "fst st"]
  by (auto simp: site_stop_def site_running_def site_routes_def split: prod.splits if_splits)

lemma site_build_platform:
  "site_build env path be src tag st = (r, st') \<Longrightarrow>
     site_running st' = site_running st \<and> site_routes st' = site_routes st"
  by (auto simp: site_build_def site_running_def site_routes_def split: prod.splits)

lemma site_register_running:
  "site_register tr base h rs st = (r, st') \<Longrightarrow> site_running st' = site_running st"
  by (auto simp: site_register_def site_running_def split: prod.splits)

text \<open>The request of a registration, and its fate under each behaviour of the network.\<close>

definition route_post :: "string \<Rightarrow> string \<Rightarrow> string list \<Rightarrow> http_request" where
  "route_post base h rs =
     \<lparr>rq_method = ''POST'', rq_url = base @ ''/routes'', rq_ctype = ''application/json'',
      rq_body = route_body h rs\<rparr>"

lemma RegisterRoute_unsent:
  "tr (route_post base h rs) r = (Inl e, r) \<Longrightarrow> \<exists>x. RegisterRoute tr base h rs r = (Some x, r)"
  by (cases e) (simp_all add: RegisterRoute_def do_request_def route_post_def)

lemma RegisterRoute_same:
  "tr (route_post base h rs) r = tr' (route_post base h rs) r \<Longrightarrow>
     RegisterRoute tr base h rs r = RegisterRoute tr' base h rs r"
  by (simp add: RegisterRoute_def do_request_def route_post_def)

lemma deliver_refusal:
  "RegisterRoute (deliver fs base) base h rs r = (Some e, r') \<Longrightarrow> r' = r"
  by (auto simp: RegisterRoute_def do_request_def deliver_def admin_handle_def json_resp_def
      split: option.splits if_splits)

lemma net_cases:
  assumes "lossy_net fs base tr"
  obtains (unsent) x where "RegisterRoute tr base h rs r = (Some x, r)"
  | (prompt) "RegisterRoute tr base h rs r = RegisterRoute (deliver fs base) base h rs r"
  | (lost) "RegisterRoute tr base h rs r = RegisterRoute (lose_answer (deliver fs base)) base h rs r"
  using assms RegisterRoute_unsent [of tr base h rs r] RegisterRoute_same [of tr base h rs r]
  unfolding lossy_net_def by metis

lemma site_register_stored:
  assumes w: "admin_wire fs" and n: "lossy_net fs base tr"
    and a: "site_register tr base h rs st = (r, st')"
      "routable_host h" "rs \<noteq> []" "list_all valid_utf8 rs"
  shows "site_routes st' = (site_routes st)(h \<mapsto> rs) \<or> (r \<noteq> None \<and> site_routes st' = site_routes st)"
proof -
  have d: "RegisterRoute (deliver fs base) base h rs (snd st) = (None, upsert (snd st) h rs)"
    using admin_wire.register_delivered [OF w] a(2-4) by (simp add: routable_host_def)
  obtain x where l: "RegisterRoute (lose_answer (deliver fs base)) base h rs (snd st) =
      (Some x, upsert (snd st) h rs)"
    using admin_wire.register_lost [OF w, of h rs base "snd st"] a(2-4) by (auto simp: routable_host_def)
  show ?thesis
    by (cases rule: net_cases [OF n, of h rs "snd st"])
      (use a(1) d l in \<open>auto simp: site_register_def site_routes_def map_of_upsert\<close>)
qed

lemma real_platform:
  assumes w: "admin_wire fs" and n: "lossy_net fs base tr"
  shows "vm_platform (real_orc env path cfg be tr base domain) site_running site_routes routable_host"
proof unfold_locales
  fix spec s s' assume "o_boot (real_orc env path cfg be tr base domain) spec s = (None, s')"
  then show "site_running s' = insert (bs_TapDev spec) (site_running s) \<and> site_routes s' = site_routes s"
    by (auto simp: real_orc_def NewOrchestrator_def WithBuilder_def dest: site_boot_platform)
next
  fix spec s e s' assume "o_boot (real_orc env path cfg be tr base domain) spec s = (Some e, s')"
    "bs_TapDev spec \<notin> site_running s"
  then show "site_running s' = site_running s \<and> site_routes s' = site_routes s"
    by (auto simp: real_orc_def NewOrchestrator_def WithBuilder_def dest: site_boot_platform)
next
  fix tap s r s' assume "o_stop (real_orc env path cfg be tr base domain) tap s = (r, s')"
  then show "site_running s' = site_running s - {tap} \<and> site_routes s' = site_routes s"
    by (simp add: real_orc_def NewOrchestrator_def WithBuilder_def site_stop_platform)
next
  fix b src tag s br s' assume "o_build (real_orc env path cfg be tr base domain) = Some b"
    "b src tag s = (br, s')"
  then show "site_running s' = site_running s \<and> site_routes s' = site_routes s"
    by (auto simp: real_orc_def NewOrchestrator_def WithBuilder_def dest: site_build_platform)
next
  fix h rs s re s' assume "o_register (real_orc env path cfg be tr base domain) h rs s = (re, s')"
  then show "site_running s' = site_running s"
    by (simp add: real_orc_def NewOrchestrator_def WithBuilder_def site_register_running)
next
  fix h rs s s' assume "o_register (real_orc env path cfg be tr base domain) h rs s = (None, s')"
    "routable_host h" "rs \<noteq> []" "list_all valid_utf8 rs"
  then show "site_routes s' = (site_routes s)(h \<mapsto> rs)"
    using site_register_stored [OF w n]
    by (fastforce simp: real_orc_def NewOrchestrator_def WithBuilder_def)
next
  fix h rs s ce s' assume "o_register (real_orc env path cfg be tr base domain) h rs s = (Some ce, s')"
    "routable_host h" "rs \<noteq> []" "list_all valid_utf8 rs"
  then show "site_routes s' = site_routes s \<or> site_routes s' = (site_routes s)(h \<mapsto> rs)"
    using site_register_stored [OF w n]
    by (fastforce simp: real_orc_def NewOrchestrator_def WithBuilder_def)
qed

lemma real_exact_platform:
  assumes w: "admin_wire fs" and n: "prompt_net fs base tr"
  shows "exact_platform (real_orc env path cfg be tr base domain) site_running site_routes routable_host"
proof (intro exact_platform.intro exact_platform_axioms.intro)
  show "vm_platform (real_orc env path cfg be tr base domain) site_running site_routes routable_host"
    by (rule real_platform [OF w prompt_lossy [OF n]])
next
  fix h rs s ce s' assume a: "o_register (real_orc env path cfg be tr base domain) h rs s = (Some ce, s')"
  then have "site_register tr base h rs s = (Some ce, s')"
    by (simp add: real_orc_def NewOrchestrator_def WithBuilder_def)
  moreover have "(\<exists>x. RegisterRoute tr base h rs (snd s) = (Some x, snd s)) \<or>
      RegisterRoute tr base h rs (snd s) = RegisterRoute (deliver fs base) base h rs (snd s)"
    using n RegisterRoute_unsent [of tr base h rs "snd s"] RegisterRoute_same [of tr base h rs "snd s"]
    unfolding prompt_net_def by metis
  ultimately show "site_routes s' = site_routes s"
    by (auto simp: site_register_def site_routes_def split: prod.splits
        dest: deliver_refusal [OF sym])
qed

text \<open>The platform with the reader of request bodies built from the JSON decoder.\<close>

interpretation real: exact_platform
  "real_orc env path cfg be (deliver read_route base) base domain"
  site_running site_routes routable_host
  by (rule real_exact_platform [OF wire.admin_wire_axioms prompt_deliver])

section \<open>Properties of deploys\<close>

definition lease_taps :: "nat set \<Rightarrow> string set" where
  "lease_taps L = (\<lambda>n. l_TapDev (mk_lease n)) ` L"

definition vm_taps :: "site \<Rightarrow> string set" where
  "vm_taps st = dom (procs (fst st))"

lemma steady_site:
  assumes "admin_wire fs" "lossy_net fs base tr"
  shows "vm_platform.steady site_running a L st \<longleftrightarrow> ipam_inv a L \<and> vm_taps st \<subseteq> lease_taps L"
  using vm_platform.steady_def [OF real_platform [OF assms]]
  by (simp add: site_running_def vm_taps_def lease_taps_def)


definition sour_env :: env where
  "sour_env h c = ok_reply\<lparr>r_err := Some ''no such device''\<rparr>"

definition web_req :: dep_request where
  "web_req = \<lparr>dr_Service = ''web'', dr_Image = [], dr_SourceDir = []\<rparr>"

definition demo_cfg :: exec_cfg where
  "demo_cfg = fst (NewExec ''fc-driver'' ''firecracker'' ''vmlinux'' ''rootfs.ext4'' ''dev'')"

definition demo_orc :: "env \<Rightarrow> site orchestrator" where
  "demo_orc env = real_orc env [] demo_cfg None (deliver read_route ''http://p'') ''http://p'' ''local''"

lemma sour_Boot: "\<exists>x. fst (Boot sour_env cfg spec h) = Some x"
  by (simp add: Boot_def setup_tap_def sudo_def perform_def sour_env_def ok_reply_def Let_def)


text \<open>
  C9. A deploy that succeeds gives the service a URL that works: it has leased an address nobody
  else holds, exactly one VM has been added, for that lease, and the edge proxy forwards every
  request for the host, with or without a port and from any peer, to port 80 of the new guest;
  requests for other hosts are served as before.
\<close>

theorem live_deploy_serves:
  assumes w: "admin_wire fs" and n: "lossy_net fs base tr"
    and d: "Deploy (real_orc env path cfg be tr base domain) req a st = (Inr res, a', st')"
    and i: "ipam_inv a L" "vm_taps st \<subseteq> lease_taps L"
    and h: "valid_utf8 (dp_Host res)" "CHR '':'' \<notin> set (dp_Host res)"
  shows "dp_Host res = dr_Service req @ ''.'' @ domain \<and> dp_URL res = ''http://'' @ dp_Host res \<and>
    (\<exists>m. m \<notin> L \<and> ipam_inv a' (insert m L) \<and> dp_GuestIP res = ''172.16.0.'' @ dec m \<and>
         dp_TapDev res \<notin> vm_taps st \<and> vm_taps st' = insert (dp_TapDev res) (vm_taps st)) \<and>
    (\<forall>p. lookup (snd st') (dp_Host res) = Some [dp_GuestIP res @ '':80''] \<and>
         lookup (snd st') (dp_Host res @ CHR '':'' # p) = Some [dp_GuestIP res @ '':80'']) \<and>
    (\<forall>q. hd (Split q (CHR '':'')) \<noteq> dp_Host res \<longrightarrow> lookup (snd st') q = lookup (snd st) q) \<and>
    (\<forall>hash upstream peer u q resp. u \<noteq> ''/healthz'' \<longrightarrow> u \<noteq> [] \<longrightarrow>
       upstream (''http://'' @ dp_GuestIP res @ '':80'' @ u @ q) = Some resp \<longrightarrow>
       handle hash upstream (snd st') peer
         \<lparr>px_path = u, px_query = q, px_host = Some (dp_Host res), px_uri_host = None\<rparr> = resp)"
proof -
  have s: "vm_platform.steady site_running a L st" using i steady_site [OF w n] by simp
  let ?orc = "real_orc env path cfg be tr base domain"
  have dom: "route_host ?orc req = dr_Service req @ ''.'' @ domain"
    by (simp add: route_host_def real_orc_def NewOrchestrator_def WithBuilder_def)
  obtain l where l: "genuine l" "l_octet l \<notin> L" "res = live_result ?orc req l"
    "vm_platform.steady site_running a' (insert (l_octet l) L) st'"
    "site_running st' = insert (l_TapDev l) (site_running st)" "l_TapDev l \<notin> site_running st"
    "routable_host (route_host ?orc req) \<longrightarrow>
       site_routes st' = (site_routes st)(route_host ?orc req \<mapsto> [lease_addr l])"
    using vm_platform.live_deploy [OF real_platform [OF w n] d s] by blast
  have r: "dp_Host res = route_host ?orc req" "dp_GuestIP res = l_GuestIP l" "dp_TapDev res = l_TapDev l"
    "dp_URL res = ''http://'' @ dp_Host res"
    using l(3) by (simp_all add: live_result_def)
  have tab: "map_of (snd st') = (map_of (snd st))(dp_Host res \<mapsto> [dp_GuestIP res @ '':80''])"
    using l(7) h r dom by (simp add: routable_host_def site_routes_def lease_addr_def)
  have ip: "dp_GuestIP res = ''172.16.0.'' @ dec (l_octet l)"
    using l(1) r(2) unfolding genuine_def mk_lease_def by (metis lease.select_convs(1))
  have look: "lookup (snd st') (dp_Host res) = Some [dp_GuestIP res @ '':80'']"
    using h(2) by (simp add: edge.look_tab tab Split_no_sep_id)
  moreover have "lookup (snd st') (dp_Host res @ CHR '':'' # p) = Some [dp_GuestIP res @ '':80'']" for p
    using h(2) by (simp add: edge.look_tab tab edge.host_with_port)
  moreover have "lookup (snd st') q = lookup (snd st) q" if "hd (Split q (CHR '':'')) \<noteq> dp_Host res" for q
    using that by (simp add: edge.look_tab tab)
  moreover have "handle hash upstream (snd st') peer
      \<lparr>px_path = u, px_query = q, px_host = Some (dp_Host res), px_uri_host = None\<rparr> = resp"
    if "u \<noteq> ''/healthz''" "u \<noteq> []" "upstream (''http://'' @ dp_GuestIP res @ '':80'' @ u @ q) = Some resp"
    for hash upstream peer u q resp
    using that look by (simp add: handle_def select_def forward_def path_and_query_def)
  moreover have "ipam_inv a' (insert (l_octet l) L)" using l(4) steady_site [OF w n] by simp
  ultimately show ?thesis
    using l(2,5,6) r dom ip by (auto simp: vm_taps_def site_running_def)
qed

lemma mk_lease_two: "l_GuestIP (mk_lease 2) = ''172.16.0.2''" "l_TapDev (mk_lease 2) = ''fctap2''"
  by (simp_all add: mk_lease_def dec.simps digit_def)

lemma calm_real_deploy:
  fixes base
  defines "tr \<equiv> deliver read_route base"
  assumes "dr_SourceDir req = []" "valid_utf8 (dr_Service req @ ''.'' @ domain)" "Allocate a = (Inr l, a1)" "genuine l"
  shows "\<exists>st'. Deploy (real_orc calm path cfg be tr base domain) req a st =
    (Inr (live_result (real_orc calm path cfg be tr base domain) req l), a1, st')"
proof -
  let ?s = "boot_spec l (HostIP a1) (dr_Image req) []"
  obtain h where b: "Boot calm cfg ?s (fst st) = (None, h)"
    using calm_Boot(1) [of cfg ?s "fst st"] by (cases "Boot calm cfg ?s (fst st)") auto
  have "RegisterRoute tr base (dr_Service req @ ''.'' @ domain) [lease_addr l] (snd st) =
      (None, upsert (snd st) (dr_Service req @ ''.'' @ domain) [lease_addr l])"
    using lease_addr_utf8 [OF assms(5)] assms(3) unfolding tr_def
    by (intro wire.register_delivered) simp_all
  with b assms(2,4) show ?thesis
    by (simp add: Deploy_def build_rootfs_def real_orc_def NewOrchestrator_def
        WithBuilder_def site_boot_def site_register_def route_host_def)
qed

lemma calm_deploy:
  assumes "dr_SourceDir req = []" "valid_utf8 (dr_Service req)" "Allocate a = (Inr l, a1)" "genuine l"
  shows "\<exists>st'. Deploy (demo_orc calm) req a st = (Inr (live_result (demo_orc calm) req l), a1, st')"
proof -
  have "valid_utf8 (dr_Service req @ ''.'' @ ''local'')"
    using assms(2) by (rule valid_utf8_append) (simp add: valid_utf8_ascii)
  then show ?thesis unfolding demo_orc_def by (rule calm_real_deploy [OF assms(1) _ assms(3,4)])
qed

lemma demo_Deploy:
  "\<exists>a st. Deploy (demo_orc calm) web_req New (demo_host, []) =
     (Inr \<lparr>dp_Host = ''web.local'', dp_URL = ''http://web.local'', dp_GuestIP = ''172.16.0.2'',
           dp_TapDev = ''fctap2''\<rparr>, a, st)"
  using calm_deploy [of web_req New "mk_lease 2" "New\<lparr>next_octet := 3\<rparr>" "(demo_host, [])"]
  by (auto simp: web_req_def valid_utf8_ascii Allocate_def New_def genuine_def live_result_def
      route_host_def demo_orc_def real_orc_def NewOrchestrator_def WithBuilder_def mk_lease_two)

theorem live_deploy_serves_witness:
  "\<exists>a st. Deploy (demo_orc calm) web_req New (demo_host, []) =
     (Inr \<lparr>dp_Host = ''web.local'', dp_URL = ''http://web.local'', dp_GuestIP = ''172.16.0.2'',
           dp_TapDev = ''fctap2''\<rparr>, a, st) \<and>
     lookup (snd st) ''web.local'' = Some [''172.16.0.2:80'']"
proof -
  obtain a st where d: "Deploy (demo_orc calm) web_req New (demo_host, []) =
     (Inr \<lparr>dp_Host = ''web.local'', dp_URL = ''http://web.local'', dp_GuestIP = ''172.16.0.2'',
           dp_TapDev = ''fctap2''\<rparr>, a, st)" using demo_Deploy by blast
  from live_deploy_serves [OF wire.admin_wire_axioms prompt_lossy [OF prompt_deliver]
      d [unfolded demo_orc_def] ipam_inv_New]
  have "lookup (snd st) ''web.local'' = Some [''172.16.0.2:80'']"
    by (simp add: vm_taps_def demo_host_def valid_utf8_ascii)
  with d show ?thesis by blast
qed

text \<open>
  C31. The unwinding is not complete when the proxy stores a route and its answer is lost: the
  orchestrator stops the VM and releases the lease but never asks the proxy to remove the route.
  The next deploy, of any service, is given the released address, and the proxy then sends the
  traffic of the first host to the VM of the second service.
\<close>

theorem lost_answer_misroutes:
  assumes w: "admin_wire fs" and i: "ipam_inv a L"
    and d1: "Deploy (real_orc env path cfg be (lose_answer (deliver fs base)) base domain) reqA a st =
      (Inl (RegisterFailed x), a1, st1)"
    and d2: "Deploy (real_orc env path cfg be (deliver fs base) base domain) reqB a1 st1 =
      (Inr res, a2, st2)"
    and h: "hostA = dr_Service reqA @ ''.'' @ domain" "valid_utf8 hostA" "CHR '':'' \<notin> set hostA"
      "valid_utf8 (dp_Host res)" "dp_Host res \<noteq> hostA"
  shows "lookup (snd st2) hostA = Some [dp_GuestIP res @ '':80'']"
proof -
  have p1: "vm_platform (real_orc env path cfg be (lose_answer (deliver fs base)) base domain)
      site_running site_routes routable_host"
    using w by (intro real_platform) (auto simp: lossy_net_def)
  have p2: "vm_platform (real_orc env path cfg be (deliver fs base) base domain)
      site_running site_routes routable_host"
    using w prompt_lossy [OF prompt_deliver] by (rule real_platform)
  note orc = real_orc_def NewOrchestrator_def WithBuilder_def
  from d1 show ?thesis
  proof (cases rule: Deploy_cases)
    case r1: (route_failed rootfs s1 l al s2 e s3 r)
    have g: "genuine l" using Allocate_fresh [OF i r1(2)] by blast
    have "site_register (lose_answer (deliver fs base)) base hostA [lease_addr l] s2 = (Some e, s3)"
      using r1(4) h(1) by (simp add: orc route_host_def)
    then have "map_of (snd s3) = (map_of (snd s2))(hostA \<mapsto> [lease_addr l])"
      using admin_wire.register_lost [OF w, of hostA "[lease_addr l]" base "snd s2"] h(1,2)
        lease_addr_utf8 [OF g] by (auto simp: site_register_def map_of_upsert)
    moreover have "map_of (snd st1) = map_of (snd s3)"
      using vm_platform.stop_any [OF p1 r1(5)] by (simp add: site_routes_def)
    ultimately have t1: "map_of (snd st1) hostA = Some [lease_addr l]" by simp
    from d2 show ?thesis
    proof (cases rule: Deploy_cases)
      case r2: (live rootfs' u1 l' u2)
      have "l' = l" using Allocate_Release [OF g, of al] r1(7) r2(2) by simp
      then have res: "dp_GuestIP res = l_GuestIP l" "dp_Host res = dr_Service reqB @ ''.'' @ domain"
        using r2(5) by (simp_all add: live_result_def route_host_def orc)
      have "site_routes st2 = (site_routes u2)(dp_Host res \<mapsto> [lease_addr l'])"
        using vm_platform.register_ok [OF p2 r2(4)] h(4) res(2) lease_addr_utf8 [OF g] \<open>l' = l\<close>
        by (simp add: routable_host_def route_host_def orc)
      moreover have "site_routes u2 = site_routes st1"
        using vm_platform.boot_ok [OF p2 r2(3)] vm_platform.build_rootfs_keeps [OF p2 r2(1)] by simp
      ultimately show ?thesis
        using t1 h(3,5) res(1) by (simp add: edge.look_tab Split_no_sep_id site_routes_def lease_addr_def)
    qed simp_all
  qed (auto dest: build_rootfs_error)
qed

theorem lost_answer_misroutes_witness:
  "\<exists>x a1 st1 res a2 st2.
     Deploy (real_orc calm [] demo_cfg None (lose_answer (deliver read_route ''http://p'')) ''http://p'' ''local'')
       web_req New (demo_host, []) = (Inl (RegisterFailed x), a1, st1) \<and>
     Deploy (demo_orc calm) (web_req\<lparr>dr_Service := ''api''\<rparr>) a1 st1 = (Inr res, a2, st2) \<and>
     dp_Host res = ''api.local'' \<and> lookup (snd st2) ''web.local'' = Some [dp_GuestIP res @ '':80'']"
proof -
  let ?lo = "real_orc calm [] demo_cfg None (lose_answer (deliver read_route ''http://p'')) ''http://p'' ''local''"
  let ?s = "boot_spec (mk_lease 2) ''172.16.0.1'' [] []" and ?a = "New\<lparr>next_octet := 3\<rparr>"
  obtain h where b: "Boot calm demo_cfg ?s demo_host = (None, h)"
    using calm_Boot(1) [of demo_cfg ?s demo_host] by (cases "Boot calm demo_cfg ?s demo_host") auto
  obtain x where r: "RegisterRoute (lose_answer (deliver read_route ''http://p'')) ''http://p''
      ''web.local'' [''172.16.0.2:80''] [] = (Some x, upsert [] ''web.local'' [''172.16.0.2:80''])"
    using wire.register_lost [of "''web.local''" "[''172.16.0.2:80'']"] by (auto simp: valid_utf8_ascii)
  obtain st1 where d1: "Deploy ?lo web_req New (demo_host, []) = (Inl (RegisterFailed x), Release ?a (mk_lease 2), st1)"
    using b r by (cases "Stop calm ''fctap2'' h")
      (auto simp: Deploy_def build_rootfs_def web_req_def Allocate_def New_def HostIP_def
        real_orc_def NewOrchestrator_def WithBuilder_def site_boot_def site_register_def
        site_stop_def route_host_def lease_addr_def mk_lease_two)
  let ?api = "web_req\<lparr>dr_Service := ''api''\<rparr>"
  have "Allocate (Release ?a (mk_lease 2)) = (Inr (mk_lease 2), ?a)"
    by (simp add: Allocate_def Release_def New_def)
  then obtain st2 where d2: "Deploy (demo_orc calm) ?api (Release ?a (mk_lease 2)) st1 =
      (Inr (live_result (demo_orc calm) ?api (mk_lease 2)), ?a, st2)"
    using calm_deploy [of ?api "Release ?a (mk_lease 2)" "mk_lease 2" ?a st1]
    by (auto simp: web_req_def valid_utf8_ascii genuine_def)
  have res: "dp_Host (live_result (demo_orc calm) ?api (mk_lease 2)) = ''api.local''"
    by (simp add: live_result_def route_host_def demo_orc_def real_orc_def NewOrchestrator_def
        WithBuilder_def)
  have "lookup (snd st2) ''web.local'' =
      Some [dp_GuestIP (live_result (demo_orc calm) ?api (mk_lease 2)) @ '':80'']"
    unfolding demo_orc_def
    by (rule lost_answer_misroutes [OF wire.admin_wire_axioms ipam_inv_New d1 d2 [unfolded demo_orc_def]])
      (simp_all add: res [unfolded demo_orc_def] valid_utf8_ascii, simp add: web_req_def)
  with d1 d2 res show ?thesis by blast
qed



end
