(* ===== verification/Interleaving.thy ===== *)
theory Interleaving
  imports Platform
begin

text \<open>
  Deploys run concurrently: the scheduler's HTTP server runs \<^verbatim>\<open>Orchestrator.Deploy\<close>
  (\<^verbatim>\<open>internal/orchestrator/orchestrator.go\<close>) once per request, over one allocator, one runner and
  one proxy. Here \<^verbatim>\<open>Deploy\<close> is cut at its calls into the steps of a phase machine, which is shown
  to compute \<^verbatim>\<open>Deploy\<close> when it runs alone, and the invariants of all interleavings of any number
  of deploys are proved: the network identities of concurrent deploys are disjoint, the running
  VMs are exactly those of the deploys in the phases that own one, and every route leads to the
  VM of a live deploy of the same host.
\<close>

section \<open>Deploy as a phase machine\<close>

datatype phase =
    Requested dep_request
  | Built dep_request string                  \<comment> \<open>the rootfs\<close>
  | Leased dep_request string lease
  | Unbooted string lease                     \<comment> \<open>boot failed, lease not yet released\<close>
  | Booted dep_request lease
  | Unrouted client_error lease               \<comment> \<open>registration failed, VM not yet stopped\<close>
  | Stopped client_error lease                \<comment> \<open>VM stopped, lease not yet released\<close>
  | Live dep_request lease
  | Failed deploy_error

fun advance :: "'s orchestrator \<Rightarrow> phase \<times> allocator \<times> 's \<Rightarrow> phase \<times> allocator \<times> 's" where
  "advance orc (Requested req, a, s) =
     (case build_rootfs orc req s of
        (Inl e, s') \<Rightarrow> (Failed e, a, s')
      | (Inr rootfs, s') \<Rightarrow> (Built req rootfs, a, s'))"
| "advance orc (Built req rootfs, a, s) =
     (case Allocate a of
        (Inl e, a') \<Rightarrow> (Failed (AllocateFailed e), a', s)
      | (Inr l, a') \<Rightarrow> (Leased req rootfs l, a', s))"
| "advance orc (Leased req rootfs l, a, s) =
     (case o_boot orc (boot_spec l (HostIP a) (dr_Image req) rootfs) s of
        (Some e, s') \<Rightarrow> (Unbooted e l, a, s')
      | (None, s') \<Rightarrow> (Booted req l, a, s'))"
| "advance orc (Unbooted e l, a, s) = (Failed (BootFailed e), Release a l, s)"
| "advance orc (Booted req l, a, s) =
     (case o_register orc (route_host orc req) [lease_addr l] s of
        (Some e, s') \<Rightarrow> (Unrouted e l, a, s')
      | (None, s') \<Rightarrow> (Live req l, a, s'))"
| "advance orc (Unrouted e l, a, s) = (Stopped e l, a, snd (o_stop orc (l_TapDev l) s))"
| "advance orc (Stopped e l, a, s) = (Failed (RegisterFailed e), Release a l, s)"
| "advance orc (Live req l, a, s) = (Live req l, a, s)"
| "advance orc (Failed e, a, s) = (Failed e, a, s)"

definition outcome :: "'s orchestrator \<Rightarrow> phase \<Rightarrow> (deploy_error, dep_result) result option" where
  "outcome orc p =
     (case p of
        Live req l \<Rightarrow> Some (Inr (live_result orc req l))
      | Failed e \<Rightarrow> Some (Inl e)
      | _ \<Rightarrow> None)"

lemma funpow6: "(f ^^ 6) x = f (f (f (f (f (f x)))))"
  by (simp add: eval_nat_numeral)

text \<open>Run alone, the machine is \<^verbatim>\<open>Deploy\<close>, and six steps are enough.\<close>

lemma phases_Deploy:
  assumes "Deploy orc req a s = (r, a', s')"
  shows "\<exists>p. (advance orc ^^ 6) (Requested req, a, s) = (p, a', s') \<and> outcome orc p = Some r"
  using assms by (cases rule: Deploy_cases) (simp_all add: funpow6 outcome_def)

section \<open>All interleavings\<close>

text \<open>
  The state of the scheduler is the allocator, the outside and the phases of all the deploys
  that have arrived; any deploy may make the next step. \<open>accepts\<close> restricts the requests.
\<close>

inductive sched_reach ::
  "'s orchestrator \<Rightarrow> (dep_request \<Rightarrow> bool) \<Rightarrow> 's \<Rightarrow> allocator \<Rightarrow> 's \<Rightarrow> phase list \<Rightarrow> bool"
  for orc accepts s0 where
  start: "sched_reach orc accepts s0 New s0 []"
| arrive: "sched_reach orc accepts s0 a s ps \<Longrightarrow> accepts req \<Longrightarrow>
     sched_reach orc accepts s0 a s (ps @ [Requested req])"
| step: "sched_reach orc accepts s0 a s ps \<Longrightarrow> i < length ps \<Longrightarrow>
     advance orc (ps ! i, a, s) = (p, a', s') \<Longrightarrow> sched_reach orc accepts s0 a' s' (ps[i := p])"

text \<open>The lease a deploy holds, and the lease whose VM it owns.\<close>

fun held :: "phase \<Rightarrow> lease list" where
  "held (Leased _ _ l) = [l]"
| "held (Unbooted _ l) = [l]"
| "held (Booted _ l) = [l]"
| "held (Unrouted _ l) = [l]"
| "held (Stopped _ l) = [l]"
| "held (Live _ l) = [l]"
| "held _ = []"

fun owns :: "phase \<Rightarrow> lease list" where
  "owns (Booted _ l) = [l]"
| "owns (Unrouted _ l) = [l]"
| "owns (Live _ l) = [l]"
| "owns _ = []"

definition all_held :: "phase list \<Rightarrow> lease list" where
  "all_held ps = concat (map held ps)"

definition all_owned :: "phase list \<Rightarrow> lease set" where
  "all_owned ps = (\<Union>p \<in> set ps. set (owns p))"

lemma owns_held: "set (owns p) \<subseteq> set (held p)"
  by (cases p) auto

lemma all_owned_held: "all_owned ps \<subseteq> set (all_held ps)"
  using owns_held by (fastforce simp: all_owned_def all_held_def)

lemma all_held_front: "mset (all_held (us @ q # vs)) = mset (held q @ all_held (us @ vs))"
  by (simp add: all_held_def)

lemma all_owned_front: "all_owned (us @ q # vs) = set (owns q) \<union> all_owned (us @ vs)"
  by (auto simp: all_owned_def)

lemma set_split: "i < length ps \<Longrightarrow> \<exists>us vs. ps = us @ ps ! i # vs \<and> ps[i := p] = us @ p # vs"
  by (metis id_take_nth_drop upd_conv_take_nth_drop)

lemma fresh_lease_tap:
  assumes "ipam.ok a (l # ls)" "V \<subseteq> set ls"
  shows "l_TapDev l \<notin> l_TapDev ` V"
proof
  assume "l_TapDev l \<in> l_TapDev ` V"
  then obtain k where k: "k \<in> V" "l_TapDev k = l_TapDev l" by auto
  with assms have "genuine l" "genuine k" "l_octet k \<noteq> l_octet l"
    by (auto simp: ipam.ok_def list_all_iff dest: subsetD) (metis imageI subsetD)
  with k(2) show False by (metis genuine_def mk_lease_TapDev_inj)
qed

lemma ok_release_front: "ipam.ok a (l # ls) \<Longrightarrow> ipam.ok (Release a l) ls"
  using ipam.ok_give [of a "l # ls" l] by simp

text \<open>The request of a deploy that has not registered its route yet.\<close>

fun pending :: "phase \<Rightarrow> dep_request option" where
  "pending (Requested req) = Some req"
| "pending (Built req _) = Some req"
| "pending (Leased req _ _) = Some req"
| "pending (Booted req _) = Some req"
| "pending _ = None"

section \<open>The invariant\<close>

context vm_platform
begin

definition consistent :: "allocator \<Rightarrow> 's \<Rightarrow> phase list \<Rightarrow> bool" where
  "consistent a s ps \<longleftrightarrow> ipam.ok a (all_held ps) \<and> running s = l_TapDev ` all_owned ps"

lemma consistent_front:
  "consistent a s (us @ q # vs) \<longleftrightarrow>
     ipam.ok a (held q @ all_held (us @ vs)) \<and>
     running s = l_TapDev ` (set (owns q) \<union> all_owned (us @ vs))"
  using ipam.ok_perm all_held_front [of us q vs] unfolding consistent_def all_owned_front
  by metis

lemma consistent_advance:
  assumes c: "consistent a s (us @ q # vs)" and ad: "advance orc (q, a, s) = (p, a', s')"
  shows "consistent a' s' (us @ p # vs)"
proof -
  let ?R = "all_held (us @ vs)" and ?V = "all_owned (us @ vs)"
  have V: "?V \<subseteq> set ?R" by (rule all_owned_held)
  note c' = c [unfolded consistent_front]
  show ?thesis
  proof (cases q)
    case (Requested req)
    with c' ad show ?thesis
      by (auto simp: consistent_front dest!: build_rootfs_keeps split: prod.splits sum.splits)
  next
    case (Built req rootfs)
    with c' ad show ?thesis
      by (auto simp: consistent_front split: prod.splits sum.splits
          intro: ipam.ok_take ipam.ok_refuse)
  next
    case (Leased req rootfs l)
    with c' fresh_lease_tap [OF _ V, of a l] have "l_TapDev l \<notin> running s" by simp
    with Leased c' ad show ?thesis
      by (auto simp: consistent_front boot_spec_def split: prod.splits option.splits
          dest!: boot_ok boot_err)
  next
    case (Unbooted e l)
    with c' ad show ?thesis by (auto simp: consistent_front intro: ok_release_front)
  next
    case (Booted req l)
    with c' ad show ?thesis
      by (auto simp: consistent_front split: prod.splits option.splits dest!: register_any)
  next
    case (Unrouted e l)
    with c' fresh_lease_tap [OF _ V, of a l] have "l_TapDev l \<notin> l_TapDev ` ?V" by simp
    with Unrouted c' ad stop_any [of "l_TapDev l" s] show ?thesis
      by (cases "o_stop orc (l_TapDev l) s") (auto simp: consistent_front)
  next
    case (Stopped e l)
    with c' ad show ?thesis by (auto simp: consistent_front intro: ok_release_front)
  qed (use c ad in auto)
qed

lemma consistent_reach:
  assumes "sched_reach orc accepts s0 a s ps" "running s0 = {}"
  shows "consistent a s ps"
  using assms
proof (induction rule: sched_reach.induct)
  case start
  then show ?case by (simp add: consistent_def all_held_def all_owned_def ipam_New_ok)
next
  case (arrive a s ps req)
  then show ?case by (simp add: consistent_def all_held_def all_owned_def)
next
  case (step a s ps i p a' s')
  then show ?case using set_split [of i ps p] consistent_advance by metis
qed

definition routed :: "'s \<Rightarrow> phase list \<Rightarrow> bool" where
  "routed s ps \<longleftrightarrow>
     (\<forall>p \<in> set ps. \<forall>req. pending p = Some req \<longrightarrow> routable (route_host orc req)) \<and>
     (\<forall>h rs. routes s h = Some rs \<longrightarrow>
        (\<exists>req l. Live req l \<in> set ps \<and> h = route_host orc req \<and> rs = [lease_addr l]))"

lemma routed_same_routes:
  assumes "routed s (us @ q # vs)" "routes s' = routes s"
    "pending p = None \<or> pending p = pending q" "\<And>req l. q \<noteq> Live req l"
  shows "routed s' (us @ p # vs)"
  unfolding routed_def
proof (intro conjI allI impI ballI)
  fix p' req assume "p' \<in> set (us @ p # vs)" "pending p' = Some req"
  with assms(1,3) show "routable (route_host orc req)" by (auto simp: routed_def)
next
  fix h rs assume "routes s' h = Some rs"
  then obtain req l where "Live req l \<in> set (us @ q # vs)" "h = route_host orc req"
    "rs = [lease_addr l]" using assms(1,2) unfolding routed_def by metis
  with assms(4) [of req l] show "\<exists>req l. Live req l \<in> set (us @ p # vs) \<and> h = route_host orc req \<and>
      rs = [lease_addr l]" by auto
qed

lemma routed_stored:
  assumes "routed s (us @ q # vs)" "\<And>req' l'. q \<noteq> Live req' l'"
    "routes s' = (routes s)(route_host orc req \<mapsto> [lease_addr l])"
  shows "routed s' (us @ Live req l # vs)"
  unfolding routed_def
proof (intro conjI allI impI ballI)
  fix p' req' assume "p' \<in> set (us @ Live req l # vs)" "pending p' = Some req'"
  with assms(1) show "routable (route_host orc req')" by (auto simp: routed_def)
next
  fix h rs assume h: "routes s' h = Some rs"
  show "\<exists>req' l'. Live req' l' \<in> set (us @ Live req l # vs) \<and> h = route_host orc req' \<and>
      rs = [lease_addr l']"
  proof (cases "h = route_host orc req")
    case True
    with h assms(3) show ?thesis by auto
  next
    case False
    with h assms(3) have "routes s h = Some rs" by simp
    then obtain req' l' where "Live req' l' \<in> set (us @ q # vs)" "h = route_host orc req'"
      "rs = [lease_addr l']" using assms(1) unfolding routed_def by metis
    with assms(2) [of req' l'] show ?thesis by auto
  qed
qed

end

context exact_platform
begin

lemma routed_advance:
  assumes r: "routed s (us @ q # vs)" and c: "consistent a s (us @ q # vs)"
    and ad: "advance orc (q, a, s) = (p, a', s')"
  shows "routed s' (us @ p # vs)"
proof (cases q)
  case (Requested req)
  with ad r show ?thesis
    by (intro routed_same_routes [OF r])
      (auto dest!: build_rootfs_keeps split: prod.splits sum.splits)
next
  case (Built req rootfs)
  with ad r show ?thesis
    by (intro routed_same_routes [OF r]) (auto split: prod.splits sum.splits)
next
  case (Leased req rootfs l)
  have "l_TapDev l \<notin> running s"
    using c fresh_lease_tap [OF _ all_owned_held [of "us @ vs"], of a l] Leased
    unfolding consistent_front by simp
  with Leased ad show ?thesis
    by (intro routed_same_routes [OF r])
      (auto simp: boot_spec_def split: prod.splits option.splits dest!: boot_ok boot_err)
next
  case (Booted req l)
  have g: "genuine l" using c Booted unfolding consistent_front by (simp add: ipam.ok_def)
  obtain re s2 where re: "o_register orc (route_host orc req) [lease_addr l] s = (re, s2)"
    by (cases "o_register orc (route_host orc req) [lease_addr l] s")
  show ?thesis
  proof (cases re)
    case (Some e)
    with Booted ad re show ?thesis
      by (intro routed_same_routes [OF r]) (auto dest: register_err_exact)
  next
    case None
    have ok: "routable (route_host orc req)" using r Booted by (auto simp: routed_def)
    have p: "p = Live req l" "s' = s2" using None Booted ad re by auto
    have "routes s' = (routes s)(route_host orc req \<mapsto> [lease_addr l])"
      using register_ok [OF re [unfolded None] ok _ lease_addr_utf8 [OF g]] p by simp
    with p Booted show ?thesis using routed_stored [OF r] by simp
  qed
next
  case (Unrouted e l)
  with ad show ?thesis
    by (cases "o_stop orc (l_TapDev l) s") (auto intro!: routed_same_routes [OF r] dest: stop_any)
next
  case (Unbooted e l)
  with ad show ?thesis by (intro routed_same_routes [OF r]) auto
next
  case (Stopped e l)
  with ad show ?thesis by (intro routed_same_routes [OF r]) auto
qed (use r ad in auto)

lemma routed_reach:
  assumes "sched_reach orc accepts s0 a s ps" "running s0 = {}" "routes s0 = Map.empty"
    "\<And>req. accepts req \<Longrightarrow> routable (route_host orc req)"
  shows "routed s ps"
  using assms
proof (induction rule: sched_reach.induct)
  case start
  then show ?case by (simp add: routed_def)
next
  case (arrive a s ps req)
  then have "routed s ps" "routable (route_host orc req)" by blast+
  then show ?case unfolding routed_def by auto
next
  case (step a s ps i p a' s')
  then show ?case using set_split [of i ps p] routed_advance consistent_reach by metis
qed

end

section \<open>Properties\<close>

text \<open>A deploy may run without interruption: the sequential executions are among the interleavings.\<close>

lemma reach_steps:
  "sched_reach orc accepts s0 a s (ps @ [q]) \<Longrightarrow> (advance orc ^^ n) (q, a, s) = (p, a', s') \<Longrightarrow>
     sched_reach orc accepts s0 a' s' (ps @ [p])"
proof (induction n arbitrary: q a s)
  case (Suc n)
  obtain q1 a1 s1 where q1: "advance orc (q, a, s) = (q1, a1, s1)" by (cases "advance orc (q, a, s)")
  then have "sched_reach orc accepts s0 a1 s1 ((ps @ [q])[length ps := q1])"
    using Suc.prems(1) by (intro sched_reach.step) auto
  moreover have "(advance orc ^^ n) (q1, a1, s1) = (p, a', s')"
    using Suc.prems(2) q1 by (simp only: funpow_Suc_right comp_apply)
  ultimately show ?case using Suc.IH by simp
qed simp

lemma reach_Deploy:
  assumes "sched_reach orc accepts s0 a s ps" "accepts req" "Deploy orc req a s = (r, a', s')"
  shows "\<exists>p. sched_reach orc accepts s0 a' s' (ps @ [p]) \<and> outcome orc p = Some r"
  using phases_Deploy [OF assms(3)] reach_steps [OF sched_reach.arrive [OF assms(1,2)]] by blast

lemma held_unique:
  assumes "distinct (all_held ps)" "p \<in> set ps" "q \<in> set ps" "l \<in> set (held p)" "l \<in> set (held q)"
  shows "p = q"
  using assms
proof (induction ps)
  case (Cons p0 ps)
  have "set (held p') \<subseteq> set (all_held ps)" if "p' \<in> set ps" for p'
    using that by (auto simp: all_held_def)
  with Cons show ?case by (auto simp: all_held_def)
qed simp

lemma all_held_identities:
  assumes "ipam.ok a (all_held ps)"
  shows "distinct (map l_GuestIP (all_held ps)) \<and> distinct (map l_TapDev (all_held ps)) \<and>
         distinct (map l_GuestMAC (all_held ps))"
  using assms genuine_distinct_identities [of "all_held ps"] by (simp add: ipam.ok_def)



lemma demo_reach:
  "\<exists>a st p. sched_reach (demo_orc calm) (\<lambda>_. True) (demo_host, []) a st [p] \<and>
     outcome (demo_orc calm) p = Some (Inr \<lparr>dp_Host = ''web.local'', dp_URL = ''http://web.local'',
       dp_GuestIP = ''172.16.0.2'', dp_TapDev = ''fctap2''\<rparr>)"
  using demo_Deploy reach_Deploy [OF sched_reach.start, of "\<lambda>_. True" web_req "demo_orc calm"]
  by fastforce




end
