(* ===== verification/Schedhttp.thy ===== *)
theory Schedhttp
  imports Interleaving
begin

text \<open>
  The scheduler's HTTP API, \<^verbatim>\<open>services/scheduler/internal/schedhttp/server.go\<close>: routing of
  requests, the JSON and the multipart deploy, and the extraction of an uploaded source archive.
  The parsed multipart form and the decoded archive are what \<^verbatim>\<open>net/http\<close>, \<^verbatim>\<open>compress/gzip\<close> and
  \<^verbatim>\<open>archive/tar\<close> deliver: the entries up to the end of the archive or the first error. The
  theorems: an entry's path is accepted exactly when it resolves inside the directory, nothing
  outside the directory is written for any archive, the temporary directory is always removed,
  and the status of every answer.
\<close>

section \<open>Extraction\<close>

record tar_entry =
  te_Name :: string
  te_Typeflag :: char
  te_Mode :: int
  te_Data :: string
  te_read_err :: "string option"     \<comment> \<open>the archive breaks off inside the entry\<close>

text \<open>A tar stream; it ends with \<^verbatim>\<open>io.EOF\<close> (\<open>None\<close>) or an error.\<close>

record tar_stream =
  ts_entries :: "tar_entry list"
  ts_end :: "string option"

datatype extract_error = UnsafePath string | ExtractIO string

text \<open>\<open>quote\<close> is the verb \<^verbatim>\<open>%q\<close>.\<close>

fun extract_error_text :: "(string \<Rightarrow> string) \<Rightarrow> extract_error \<Rightarrow> string" where
  "extract_error_text quote (UnsafePath name) = ''unsafe path in archive: '' @ quote name"
| "extract_error_text quote (ExtractIO e) = e"

definition safeJoin :: "string \<Rightarrow> string \<Rightarrow> (extract_error, string) result" where
  "safeJoin dir name =
     (let target = JoinPath [dir, name] in
      if target \<noteq> dir \<and> \<not> HasPrefix target (dir @ ''/'') then Inl (UnsafePath name)
      else Inr target)"

definition io_err :: "reply \<Rightarrow> extract_error option" where
  "io_err r = map_option ExtractIO (r_err r)"

text \<open>What is done for one entry, after its target has been computed.\<close>

definition extract_entry :: "env \<Rightarrow> string \<Rightarrow> tar_entry \<Rightarrow> os \<Rightarrow> extract_error option \<times> os" where
  "extract_entry env target e w =
     (if te_Typeflag e = CHR ''5'' then
        (let (r, w1) = perform env (MkdirAll target) w in (io_err r, w1))
      else if te_Typeflag e = CHR ''0'' then
        (let (r1, w1) = perform env (MkdirAll (Dir target)) w in
         if r_err r1 \<noteq> None then (io_err r1, w1)
         else (let (r2, w2) = perform env (OpenFile target (nat (te_Mode e mod 512))) w1 in
               if r_err r2 \<noteq> None then (io_err r2, w2)
               else (let (r3, w3) = perform env (CopyInto target (te_Data e)) w2 in
                     if te_read_err e \<noteq> None then (map_option ExtractIO (te_read_err e), w3)
                     else (io_err r3, w3))))
      else (None, w))"

fun extract_entries ::
  "env \<Rightarrow> string \<Rightarrow> tar_entry list \<Rightarrow> string option \<Rightarrow> os \<Rightarrow> extract_error option \<times> os" where
  "extract_entries env dir [] end_err w = (map_option ExtractIO end_err, w)"
| "extract_entries env dir (e # es) end_err w =
     (case safeJoin dir (te_Name e) of
        Inl x \<Rightarrow> (Some x, w)
      | Inr target \<Rightarrow>
          (case extract_entry env target e w of
             (Some x, w') \<Rightarrow> (Some x, w')
           | (None, w') \<Rightarrow> extract_entries env dir es end_err w'))"

text \<open>\<open>gunzip_tar\<close> opens the archive: \<open>Inl\<close> when it has no gzip header.\<close>

definition extractTarGz ::
  "env \<Rightarrow> (string \<Rightarrow> (string, tar_stream) result) \<Rightarrow> string \<Rightarrow> string \<Rightarrow> os \<Rightarrow>
   extract_error option \<times> os" where
  "extractTarGz env gunzip_tar bytes dir w =
     (case gunzip_tar bytes of
        Inl e \<Rightarrow> (Some (ExtractIO e), w)
      | Inr ts \<Rightarrow> extract_entries env dir (ts_entries ts) (ts_end ts) w)"

section \<open>Handlers\<close>

text \<open>
  A request as the handler sees it: its path, method, content type and body; for a multipart
  body, the \<^verbatim>\<open>source\<close> file or the error of \<^verbatim>\<open>FormFile\<close>, and the form's values.
\<close>

record sched_request =
  sr_path :: string
  sr_method :: string
  sr_ctype :: string
  sr_body :: string
  sr_source :: "(string, string) result"
  sr_form :: "string \<Rightarrow> string"

definition newline :: string where
  "newline = [CHR 0x0A]"

definition writeJSON :: "nat \<Rightarrow> json \<Rightarrow> http_response" where
  "writeJSON status v =
     \<lparr>rs_status = status, rs_ctype = ''application/json'', rs_body = json_enc v @ newline\<rparr>"

text \<open>The answer of Go's request multiplexer for a path without a handler.\<close>

definition NotFound :: http_response where
  "NotFound = \<lparr>rs_status = 404, rs_ctype = ''text/plain; charset=utf-8'',
     rs_body = ''404 page not found'' @ newline\<rparr>"

definition errJSON :: "nat \<Rightarrow> string \<Rightarrow> http_response" where
  "errJSON status msg = writeJSON status (JObj [(''error'', JStr msg)])"

definition result_json :: "dep_result \<Rightarrow> json" where
  "result_json r =
     JObj [(''host'', JStr (dp_Host r)), (''url'', JStr (dp_URL r)),
           (''guest_ip'', JStr (dp_GuestIP r)), (''tap_dev'', JStr (dp_TapDev r))]"

type_synonym 's deployer =
  "dep_request \<Rightarrow> os \<times> 's \<Rightarrow> (deploy_error, dep_result) result \<times> os \<times> 's"

definition deploy ::
  "'s deployer \<Rightarrow> dep_request \<Rightarrow> os \<times> 's \<Rightarrow> http_response \<times> os \<times> 's" where
  "deploy d req s =
     (case d req s of
        (Inl e, s') \<Rightarrow> (errJSON 502 (deploy_error_text e), s')
      | (Inr res, s') \<Rightarrow> (writeJSON 200 (result_json res), s'))"

text \<open>\<^verbatim>\<open>json.NewDecoder(r.Body).Decode(&req)\<close> into a \<^verbatim>\<open>deployReq\<close>; \<open>None\<close> is an error.\<close>

definition decode_deployReq :: "string \<Rightarrow> (string \<times> string) option" where
  "decode_deployReq body =
     (case json_decode body of
        Some (JObj ms) \<Rightarrow>
          (let names = [''service'', ''image'']; (service, e1) = str_field names ''service'' ms;
               (img, e2) = str_field names ''image'' ms
           in if e1 \<or> e2 then None else Some (service, img))
      | Some JNull \<Rightarrow> Some ([], [])
      | _ \<Rightarrow> None)"

definition handleMultipartDeploy ::
  "env \<Rightarrow> (string \<Rightarrow> string) \<Rightarrow> (string \<Rightarrow> (string, tar_stream) result) \<Rightarrow> 's deployer \<Rightarrow>
   sched_request \<Rightarrow> os \<times> 's \<Rightarrow> http_response \<times> os \<times> 's" where
  "handleMultipartDeploy env quote gunzip_tar d r s =
     (case sr_source r of
        Inl e \<Rightarrow> (errJSON 400 (''missing source file: '' @ e), s)
      | Inr file \<Rightarrow>
          (let service = sr_form r ''service'' in
           if service = [] then (errJSON 400 ''service is required'', s)
           else
             (let (rt, w1) = perform env (MkdirTemp [] ''antariksh-src-'') (fst s) in
              case r_err rt of
                Some e \<Rightarrow> (errJSON 500 (''temp dir: '' @ e), w1, snd s)
              | None \<Rightarrow>
                  (let srcDir = r_out rt;
                       (resp, w2, s2) =
                         (case extractTarGz env gunzip_tar file srcDir w1 of
                            (Some e, w2) \<Rightarrow>
                              (errJSON 400 (''extract source: '' @ extract_error_text quote e), w2, snd s)
                          | (None, w2) \<Rightarrow>
                              deploy d \<lparr>dr_Service = service, dr_Image = sr_form r ''image'',
                                       dr_SourceDir = srcDir\<rparr> (w2, snd s))
                   in (resp, exec env (RemoveAll srcDir) w2, s2)))))"

definition Handler ::
  "env \<Rightarrow> (string \<Rightarrow> string) \<Rightarrow> (string \<Rightarrow> (string, tar_stream) result) \<Rightarrow> 's deployer \<Rightarrow>
   sched_request \<Rightarrow> os \<times> 's \<Rightarrow> http_response \<times> os \<times> 's" where
  "Handler env quote gunzip_tar d r s =
     (if sr_path r = ''/healthz'' then (writeJSON 200 (JObj [(''status'', JStr ''ok'')]), s)
      else if sr_path r = ''/internal/deploy'' then
        (if sr_method r \<noteq> ''POST'' then (errJSON 405 ''method not allowed'', s)
         else if HasPrefix (sr_ctype r) ''multipart/'' then
           handleMultipartDeploy env quote gunzip_tar d r s
         else (case decode_deployReq (sr_body r) of
                 None \<Rightarrow> (errJSON 400 ''service is required'', s)
               | Some (service, img) \<Rightarrow>
                   if service = [] then (errJSON 400 ''service is required'', s)
                   else deploy d \<lparr>dr_Service = service, dr_Image = img, dr_SourceDir = []\<rparr> s))
      else (NotFound, s))"

section \<open>Paths\<close>

text \<open>
  The reference for \<^verbatim>\<open>safeJoin\<close>: resolve the name's components against the directory's, and accept
  when the directory's components are a prefix of the outcome.
\<close>

lemma safeJoin_resolve:
  assumes ds: "list_all proper ds" "ds \<noteq> []"
  shows "safeJoin (abs_path ds) name =
    (if prefix ds (resolve ds name) then Inr (abs_path (resolve ds name)) else Inl (UnsafePath name))"
proof -
  let ?cs = "resolve ds name"
  have cs: "list_all proper ?cs" using ds by (intro resolve_proper)
  have "abs_path ?cs = abs_path ds \<longleftrightarrow> ?cs = ds" using abs_path_inj [OF cs ds(1)] by auto
  moreover have "prefix ds ?cs \<longleftrightarrow> ?cs = ds \<or> (\<exists>e es. ?cs = ds @ e # es)"
    unfolding prefix_def by (metis append_Nil2 neq_Nil_conv)
  ultimately show ?thesis
    using abs_path_prefix [OF ds cs] JoinPath_abs [OF ds] by (simp add: safeJoin_def Let_def)
qed

definition inside :: "string list \<Rightarrow> string \<Rightarrow> bool" where
  "inside ds p \<longleftrightarrow> (\<exists>es. list_all proper es \<and> p = abs_path (ds @ es))"

text \<open>
  The calls the extraction may make: files and directories inside the directory, and the
  directory's parent, which exists already, for an entry that names the directory itself.
\<close>

fun confined :: "string list \<Rightarrow> os_call \<Rightarrow> bool" where
  "confined ds (MkdirAll p) = (inside ds p \<or> p = abs_path (butlast ds))"
| "confined ds (OpenFile p _) = inside ds p"
| "confined ds (CopyInto p _) = inside ds p"
| "confined ds _ = False"

lemma safeJoin_inside:
  assumes ds: "list_all proper ds" "ds \<noteq> []" and t: "safeJoin (abs_path ds) name = Inr target"
  shows "inside ds target \<and> (inside ds (Dir target) \<or> Dir target = abs_path (butlast ds))"
proof -
  from t have p: "prefix ds (resolve ds name)" "target = abs_path (resolve ds name)"
    by (auto simp: safeJoin_resolve [OF ds] split: if_splits)
  then obtain es where es: "resolve ds name = ds @ es" by (auto elim: prefixE)
  have pr: "list_all proper (ds @ es)" using resolve_proper [OF ds(1), of name] es by simp
  then have "inside ds target" using p(2) es by (auto simp: inside_def)
  moreover have "Dir target = abs_path (butlast (ds @ es))"
    using Dir_abs_path [OF pr] p(2) es by simp
  then have "inside ds (Dir target) \<or> Dir target = abs_path (butlast ds)"
  proof (cases "es = []")
    case False
    then have "butlast (ds @ es) = ds @ butlast es" by (simp add: butlast_append)
    moreover have "list_all proper (butlast es)"
      using pr by (auto simp: list_all_iff dest: in_set_butlastD)
    ultimately show ?thesis
      using \<open>Dir target = abs_path (butlast (ds @ es))\<close> by (auto simp: inside_def)
  qed simp
  ultimately show ?thesis by blast
qed

lemma extract_entry_confined:
  assumes "inside ds target \<and> (inside ds (Dir target) \<or> Dir target = abs_path (butlast ds))"
    and "extract_entry env target e w = (r, w')"
  shows "\<exists>cs. trace w' = trace w @ cs \<and> list_all (confined ds) cs"
  using assms by (auto simp: extract_entry_def perform_eq Let_def split: if_splits)

lemma extract_entries_confined:
  assumes ds: "list_all proper ds" "ds \<noteq> []"
  shows "extract_entries env (abs_path ds) es en w = (r, w') \<Longrightarrow>
    \<exists>cs. trace w' = trace w @ cs \<and> list_all (confined ds) cs"
proof (induction es arbitrary: w)
  case (Cons e es)
  show ?case
  proof (cases "safeJoin (abs_path ds) (te_Name e)")
    case (Inr target)
    obtain x w1 where x: "extract_entry env target e w = (x, w1)" by (cases "extract_entry env target e w")
    obtain cs where cs: "trace w1 = trace w @ cs" "list_all (confined ds) cs"
      using extract_entry_confined [OF safeJoin_inside [OF ds Inr] x] by blast
    show ?thesis
    proof (cases x)
      case None
      with Cons.prems Inr x have "extract_entries env (abs_path ds) es en w1 = (r, w')" by simp
      from Cons.IH [OF this] cs show ?thesis by auto
    qed (use Cons.prems Inr x cs in auto)
  qed (use Cons.prems in auto)
qed simp

section \<open>Properties\<close>

text \<open>
  C17. \<^verbatim>\<open>safeJoin\<close> is exact: for a clean absolute directory it accepts a name, with any mix of
  slashes, dots and dot-dots, if and only if the name resolves to the directory or to something
  below it, and then returns the resolved path.
\<close>

theorem safeJoin_exact:
  assumes "list_all proper ds" "ds \<noteq> []"
  shows "safeJoin (abs_path ds) name =
    (if prefix ds (resolve ds name) then Inr (abs_path (resolve ds name)) else Inl (UnsafePath name))"
  by (rule safeJoin_resolve [OF assms])

theorem safeJoin_exact_witness:
  "safeJoin ''/tmp/src'' ''a/../../src/b'' = Inr ''/tmp/src/b'' \<and>
   safeJoin ''/tmp/src'' ''a/../../src2/b'' = Inl (UnsafePath ''a/../../src2/b'')"
proof -
  have p: "list_all proper [''tmp'', ''src'']" "[''tmp'', ''src''] \<noteq> []" by (auto simp: proper_def)
  show ?thesis
    using safeJoin_exact [OF p, of "''a/../../src/b''"] safeJoin_exact [OF p, of "''a/../../src2/b''"]
    by (simp add: abs_path_def resolve_def)
qed

text \<open>
  C16. Extraction is confined: whatever the uploaded archive contains and whatever the operating
  system answers, every directory \<^verbatim>\<open>extractTarGz\<close> makes and every file it writes lies inside the
  target directory; the only other path it touches is the directory's own parent, as a directory
  that is made if it is missing.
\<close>

theorem extractTarGz_confined:
  assumes "list_all proper ds" "ds \<noteq> []"
    and "extractTarGz env gunzip_tar bytes (abs_path ds) w = (r, w')"
  shows "\<exists>cs. trace w' = trace w @ cs \<and> list_all (confined ds) cs"
  using assms(3) extract_entries_confined [OF assms(1,2)]
  by (auto simp: extractTarGz_def split: sum.splits)

definition evil_archive :: "string \<Rightarrow> (string, tar_stream) result" where
  "evil_archive bytes = Inr \<lparr>ts_entries =
     [\<lparr>te_Name = ''../../etc/passwd'', te_Typeflag = CHR ''0'', te_Mode = 420, te_Data = ''x'',
       te_read_err = None\<rparr>], ts_end = None\<rparr>"

theorem extractTarGz_confined_witness:
  "\<exists>cs. trace (snd (extractTarGz calm evil_archive [] ''/tmp/src'' boot_os)) = trace boot_os @ cs \<and>
     list_all (confined [''tmp'', ''src'']) cs"
proof -
  have p: "list_all proper [''tmp'', ''src'']" "[''tmp'', ''src''] \<noteq> []" by (auto simp: proper_def)
  show ?thesis
    using extractTarGz_confined [OF p, of calm evil_archive "[]" boot_os] prod.collapse
    by (simp add: abs_path_def) (metis prod.collapse)
qed

section \<open>The handlers\<close>

lemma deploy_status:
  "deploy d req s = (resp, s') \<Longrightarrow>
     \<exists>res. d req s = (res, s') \<and> rs_status resp = (if succeeded res then 200 else 502) \<and>
       (\<forall>r. res = Inr r \<longrightarrow> rs_body resp = json_enc (result_json r) @ newline)"
  by (auto simp: deploy_def errJSON_def writeJSON_def succeeded_def split: prod.splits sum.splits)

text \<open>Either the deployer was not called, or the answer reports what it returned.\<close>

definition not_called :: "http_response \<Rightarrow> 's \<Rightarrow> 's \<Rightarrow> bool" where
  "not_called resp s s' \<longleftrightarrow> rs_status resp \<in> {400, 404, 405, 500} \<and> s' = s"

definition reported :: "'s deployer \<Rightarrow> http_response \<Rightarrow> 's \<Rightarrow> 's \<Rightarrow> bool" where
  "reported d resp s s' \<longleftrightarrow>
     (\<exists>req w w' res. dr_Service req \<noteq> [] \<and> d req (w, s) = (res, w', s') \<and>
        rs_status resp = (if succeeded res then 200 else 502) \<and>
        (\<forall>r. res = Inr r \<longrightarrow> rs_body resp = json_enc (result_json r) @ newline))"

lemma deploy_reported:
  "deploy d req (w, s) = (resp, w', s') \<Longrightarrow> dr_Service req \<noteq> [] \<Longrightarrow> reported d resp s s'"
  using deploy_status [of d req "(w, s)" resp "(w', s')"] unfolding reported_def by blast

lemma errJSON_status [simp]: "rs_status (errJSON n m) = n"
  by (simp add: errJSON_def writeJSON_def)

lemma multipart_outcome:
  assumes "handleMultipartDeploy env quote gz d r (w, s) = (resp, w', s')"
  shows "not_called resp s s' \<or> reported d resp s s'"
proof (cases "sr_source r")
  case (Inl e)
  with assms show ?thesis by (auto simp: handleMultipartDeploy_def not_called_def)
next
  case (Inr fl)
  show ?thesis
  proof (cases "sr_form r ''service'' = [] \<or> r_err (reply_of env (MkdirTemp [] ''antariksh-src-'') w) \<noteq> None")
    case True
    with assms Inr show ?thesis
      by (cases "sr_form r ''service'' = []")
        (auto simp: handleMultipartDeploy_def not_called_def perform_eq)
  next
    case False
    let ?m = "MkdirTemp [] ''antariksh-src-''"
    obtain x w2 where x: "extractTarGz env gz fl (r_out (reply_of env ?m w)) (exec env ?m w) = (x, w2)"
      by (cases "extractTarGz env gz fl (r_out (reply_of env ?m w)) (exec env ?m w)")
    show ?thesis
    proof (cases x)
      case None
      let ?req = "\<lparr>dr_Service = sr_form r ''service'', dr_Image = sr_form r ''image'',
        dr_SourceDir = r_out (reply_of env ?m w)\<rparr>"
      obtain resp' w3 s3 where d: "deploy d ?req (w2, s) = (resp', w3, s3)" by (cases "deploy d ?req (w2, s)")
      with assms Inr False x None have "resp' = resp" "s3 = s'"
        by (auto simp: handleMultipartDeploy_def perform_eq)
      with deploy_reported [OF d] False show ?thesis by simp
    next
      case (Some e)
      with assms Inr False x show ?thesis
        by (auto simp: handleMultipartDeploy_def not_called_def perform_eq)
    qed
  qed
qed

text \<open>
  C37. The status tells the truth: for every request other than a health check, either the
  orchestrator was not called and the answer is 400, 404, 405 or 500, or it was called once for
  a service with a non-empty name and the answer is 200 with the JSON of its result when it
  succeeded and 502 when it failed.
\<close>

theorem Handler_truthful:
  assumes "Handler env quote gz d r (w, s) = (resp, w', s')" "sr_path r \<noteq> ''/healthz''"
  shows "not_called resp s s' \<or> reported d resp s s'"
proof -
  consider (other) "sr_path r \<noteq> ''/internal/deploy'' \<or> sr_method r \<noteq> ''POST''"
    | (multi) "sr_path r = ''/internal/deploy''" "sr_method r = ''POST''" "HasPrefix (sr_ctype r) ''multipart/''"
    | (json) "sr_path r = ''/internal/deploy''" "sr_method r = ''POST''" "\<not> HasPrefix (sr_ctype r) ''multipart/''"
    by blast
  then show ?thesis
  proof cases
    case other
    with assms show ?thesis by (auto simp: Handler_def not_called_def NotFound_def split: if_splits)
  next
    case multi
    with assms multipart_outcome show ?thesis by (simp add: Handler_def)
  next
    case json
    with assms show ?thesis
      by (auto simp: Handler_def not_called_def split: option.splits prod.splits if_splits
          intro: deploy_reported)
  qed
qed

definition down :: "unit deployer" where
  "down req s = (Inl (AllocateFailed PoolExhausted), s)"

definition get_req :: sched_request where
  "get_req = \<lparr>sr_path = ''/internal/deploy'', sr_method = ''GET'', sr_ctype = [], sr_body = [],
     sr_source = Inl ''no multipart boundary'', sr_form = (\<lambda>_. [])\<rparr>"

theorem Handler_truthful_witness:
  "rs_status (fst (Handler calm id evil_archive down get_req (boot_os, ()))) = 405 \<and>
   (not_called (fst (Handler calm id evil_archive down get_req (boot_os, ()))) () () \<or>
    reported down (fst (Handler calm id evil_archive down get_req (boot_os, ()))) () ())"
proof -
  have "Handler calm id evil_archive down get_req (boot_os, ()) =
      (errJSON 405 ''method not allowed'', boot_os, ())"
    by (simp add: Handler_def get_req_def)
  from Handler_truthful [OF this] this show ?thesis by (simp add: get_req_def)
qed

text \<open>
  C36. An upload leaves nothing behind: once the temporary directory has been made, the last
  thing a multipart deploy does, on every branch, is to remove it; and the orchestrator is
  called only when the extraction has succeeded, with that directory as its source.
\<close>

theorem upload_cleaned_up:
  assumes h: "handleMultipartDeploy env quote gz d r (w, s) = (resp, w', s')"
    and "sr_source r = Inr file" "sr_form r ''service'' \<noteq> []"
    and t: "perform env (MkdirTemp [] ''antariksh-src-'') w = (rt, w1)" "r_err rt = None"
  shows "last (trace w') = RemoveAll (r_out rt) \<and>
    (case extractTarGz env gz file (r_out rt) w1 of
       (Some e, _) \<Rightarrow> rs_status resp = 400 \<and> s' = s
     | (None, w2) \<Rightarrow>
         (resp, s') = (case deploy d \<lparr>dr_Service = sr_form r ''service'', dr_Image = sr_form r ''image'',
                           dr_SourceDir = r_out rt\<rparr> (w2, s) of (a, _, b) \<Rightarrow> (a, b)))"
proof -
  obtain x w2 where x: "extractTarGz env gz file (r_out rt) w1 = (x, w2)"
    by (cases "extractTarGz env gz file (r_out rt) w1")
  let ?req = "\<lparr>dr_Service = sr_form r ''service'', dr_Image = sr_form r ''image'', dr_SourceDir = r_out rt\<rparr>"
  obtain resp' w3 s3 where d: "deploy d ?req (w2, s) = (resp', w3, s3)" by (cases "deploy d ?req (w2, s)")
  from assms x d show ?thesis
    by (cases x) (auto simp: handleMultipartDeploy_def)
qed

definition post_upload :: sched_request where
  "post_upload = get_req\<lparr>sr_method := ''POST'', sr_ctype := ''multipart/form-data'', sr_source := Inr [],
     sr_form := (\<lambda>_. ''web'')\<rparr>"

definition tmp_env :: env where
  "tmp_env h c = ok_reply\<lparr>r_out := ''/tmp/src''\<rparr>"

theorem upload_cleaned_up_witness:
  "\<exists>resp w' s'. handleMultipartDeploy tmp_env id evil_archive down post_upload (boot_os, ()) = (resp, w', s') \<and>
     last (trace w') = RemoveAll ''/tmp/src''"
proof -
  obtain resp w' s' where h: "handleMultipartDeploy tmp_env id evil_archive down post_upload (boot_os, ()) = (resp, w', s')"
    by (cases "handleMultipartDeploy tmp_env id evil_archive down post_upload (boot_os, ())")
  let ?rt = "ok_reply\<lparr>r_out := ''/tmp/src''\<rparr>"
  have t: "perform tmp_env (MkdirTemp [] ''antariksh-src-'') boot_os =
      (?rt, exec tmp_env (MkdirTemp [] ''antariksh-src-'') boot_os)" "r_err ?rt = None"
    by (simp_all add: perform_def exec_def tmp_env_def ok_reply_def Let_def)
  have u: "sr_source post_upload = Inr []" "sr_form post_upload ''service'' \<noteq> []"
    by (simp_all add: post_upload_def)
  have "last (trace w') = RemoveAll (r_out ?rt)"
    by (rule upload_cleaned_up [OF h u t, THEN conjunct1])
  with h show ?thesis by (intro exI [of _ resp] exI [of _ w'] exI [of _ s']) simp
qed

end
