(* ===== verification/Upload.thy ===== *)
theory Upload
  imports Schedhttp "HOL-Library.Countable"
begin

text \<open>
  The source upload, \<^verbatim>\<open>tarGzDir\<close> of \<^verbatim>\<open>cli/cmd/deploy.go\<close>: the walk over a project directory that
  writes its regular files to an archive, and what the scheduler makes of that archive. A file tree
  is what \<^verbatim>\<open>filepath.Walk\<close> meets, errors included. The theorem: the directory the scheduler extracts
  has exactly the regular files of the project that are not below a skipped directory, with their
  contents and permissions.
\<close>

section \<open>File trees\<close>

text \<open>
  What \<^verbatim>\<open>Walk\<close> sees at a path: a regular file with its mode bits, its bytes and the error of opening
  or reading it; a directory with the error of listing it, or its entries in the order of
  \<^verbatim>\<open>readDirNames\<close> (sorted by name); a symbolic link, device or socket; or an error of \<^verbatim>\<open>Lstat\<close>.
\<close>

datatype fnode =
    Regular nat string "string option"
  | Folder "string option" "(string \<times> fnode) list"
  | Special
  | Broken string

definition skipDir :: "string set" where
  "skipDir = {''.git'', ''node_modules'', ''target'', ''vendor'', ''.antctl''}"

text \<open>
  The archive entry of a file. Paths are kept relative to the root as lists of components:
  \<^verbatim>\<open>filepath.Rel\<close> of the root and a path the walk made by joining names to the root gives those names
  joined by slashes, and a dot for the root itself.
\<close>

definition rel_name :: "string list \<Rightarrow> string" where
  "rel_name rel = (if rel = [] then ''.'' else Join rel ''/'')"

definition file_entry :: "string list \<Rightarrow> nat \<Rightarrow> string \<Rightarrow> tar_entry" where
  "file_entry rel mode bytes =
     \<lparr>te_Name = rel_name rel, te_Typeflag = CHR ''0'', te_Mode = int mode, te_Data = bytes, te_read_err = None\<rparr>"

text \<open>
  The walk: the entries written and the error that ended it. A directory is listed before the
  callback can skip it, so an error of listing ends the walk even there.
\<close>

fun walk :: "string list \<Rightarrow> fnode \<Rightarrow> tar_entry list \<times> string option"
  and walk_names :: "string list \<Rightarrow> (string \<times> fnode) list \<Rightarrow> tar_entry list \<times> string option" where
  "walk rel (Broken e) = ([], Some e)"
| "walk rel Special = ([], None)"
| "walk rel (Regular mode bytes err) = ([file_entry rel mode bytes], err)"
| "walk rel (Folder err names) =
     (case err of
        Some e \<Rightarrow> ([], Some e)
      | None \<Rightarrow> if rel \<noteq> [] \<and> last rel \<in> skipDir then ([], None) else walk_names rel names)"
| "walk_names rel [] = ([], None)"
| "walk_names rel ((n, t) # rest) =
     (case walk (rel @ [n]) t of
        (es, Some e) \<Rightarrow> (es, Some e)
      | (es, None) \<Rightarrow> (let (es', e) = walk_names rel rest in (es @ es', e)))"

text \<open>
  \<^verbatim>\<open>tarGzDir\<close>: \<open>targz\<close> is the byte stream of an archive with the given entries; on an error the pipe
  the archive is written to is closed with it.
\<close>

definition tarGzDir :: "(tar_entry list \<Rightarrow> string) \<Rightarrow> fnode \<Rightarrow> (string, string) result" where
  "tarGzDir targz root =
     (case walk [] root of (es, None) \<Rightarrow> Inr (targz es) | (es, Some e) \<Rightarrow> Inl e)"

section \<open>The files of a tree\<close>

fun is_folder :: "fnode \<Rightarrow> bool" where
  "is_folder (Folder _ _) = True"
| "is_folder _ = False"

definition skipped :: "string \<Rightarrow> fnode \<Rightarrow> bool" where
  "skipped n t \<longleftrightarrow> is_folder t \<and> n \<in> skipDir"

text \<open>The reference: the regular file at a path, unless a directory on the way is skipped.\<close>

fun tree_lookup :: "fnode \<Rightarrow> string list \<Rightarrow> (nat \<times> string) option" where
  "tree_lookup (Regular mode bytes _) [] = Some (mode, bytes)"
| "tree_lookup (Folder _ names) (n # cs) =
     (case map_of names n of
        Some t \<Rightarrow> if skipped n t then None else tree_lookup t cs
      | None \<Rightarrow> None)"
| "tree_lookup _ _ = None"

text \<open>Names in a directory are distinct, not empty, without slashes and not dot or dot-dot.\<close>

fun tree_ok :: "fnode \<Rightarrow> bool" where
  "tree_ok (Folder _ names) \<longleftrightarrow>
     distinct (map fst names) \<and> list_all (\<lambda>(n, t). proper n \<and> tree_ok t) names"
| "tree_ok _ \<longleftrightarrow> True"

fun tree_files :: "fnode \<Rightarrow> (string list \<times> nat \<times> string) list" where
  "tree_files (Regular mode bytes _) = [([], mode, bytes)]"
| "tree_files (Folder _ names) =
     concat (map (\<lambda>(n, t). if skipped n t then [] else map (\<lambda>(cs, x). (n # cs, x)) (tree_files t)) names)"
| "tree_files _ = []"

lemma entries_Folder:
  "map (\<lambda>(cs, mode, bytes). file_entry (rel @ cs) mode bytes) (tree_files (Folder e names)) =
     concat (map (\<lambda>(n, t). if skipped n t then []
       else map (\<lambda>(cs, mode, bytes). file_entry (rel @ n # cs) mode bytes) (tree_files t)) names)"
  by (induction names) auto

lemma walk_entries:
  "snd (walk rel t) = None \<Longrightarrow>
     fst (walk rel t) = (if rel \<noteq> [] \<and> skipped (last rel) t then []
       else map (\<lambda>(cs, mode, bytes). file_entry (rel @ cs) mode bytes) (tree_files t))"
  "snd (walk_names rel names) = None \<Longrightarrow>
     fst (walk_names rel names) =
       concat (map (\<lambda>(n, t). if skipped n t then []
         else map (\<lambda>(cs, mode, bytes). file_entry (rel @ n # cs) mode bytes) (tree_files t)) names)"
proof (induction rel t and rel names rule: walk_walk_names.induct)
  case (4 rel err names)
  then show ?case
    unfolding entries_Folder by (auto simp: skipped_def split: option.splits if_splits)
next
  case (6 rel n t rest)
  obtain es err where w: "walk (rel @ [n]) t = (es, err)" by (cases "walk (rel @ [n]) t")
  show ?case
  proof (cases err)
    case None
    with "6.IH"(2) [of es None] "6.IH"(1) "6.prems" w show ?thesis by (auto simp: Let_def split: prod.splits)
  qed (use "6.prems" w in auto)
qed (simp_all add: skipped_def)

lemma map_of_Cons_paths: "map_of (map (\<lambda>(cs, x). (n # cs, x)) fs) p = (case p of [] \<Rightarrow> None | m # cs \<Rightarrow> if m = n then map_of fs cs else None)"
  by (induction fs) (auto split: list.splits)

lemma map_of_not_key: "n \<notin> fst ` set names \<Longrightarrow> map_of names n = None"
  by (simp add: map_of_eq_None_iff)

lemma tree_files_lookup: "tree_ok t \<Longrightarrow> map_of (tree_files t) p = tree_lookup t p"
proof (induction t arbitrary: p rule: tree_files.induct)
  case (1 mode bytes e)
  then show ?case by (cases p) auto
next
  case (2 e names)
  have IH: "map_of (tree_files t) cs = tree_lookup t cs" if "(n, t) \<in> set names" "\<not> skipped n t" for n t cs
    using 2 that by (auto simp: list_all_iff)
  let ?f = "\<lambda>(n, t). if skipped n t then [] else map (\<lambda>(cs, x). (n # cs, x)) (tree_files t)"
  have "distinct (map fst ns) \<Longrightarrow> set ns \<subseteq> set names \<Longrightarrow>
      map_of (concat (map ?f ns)) p = tree_lookup (Folder e ns) p" for ns
  proof (induction ns)
    case Nil
    then show ?case by (cases p) auto
  next
    case (Cons a ns)
    obtain n t where a: "a = (n, t)" by (cases a)
    with Cons have IH': "map_of (concat (map ?f ns)) p = tree_lookup (Folder e ns) p" by simp
    have nn: "map_of ns n = None" using Cons.prems a by (simp add: map_of_eq_None_iff)
    have lu: "map_of (tree_files t) cs = tree_lookup t cs" if "\<not> skipped n t" for cs
      by (rule IH [OF _ that]) (use Cons.prems a in simp)
    show ?case
    proof (cases p)
      case Nil
      with a IH' show ?thesis by (auto simp: map_of_Cons_paths map_add_def split: option.splits)
    next
      fix m cs assume "p = m # cs"
      then show ?thesis
        using a IH' lu nn by (auto simp: map_of_Cons_paths map_add_def split: option.splits)
    qed
  qed
  with 2 show ?case by simp
qed (auto elim: tree_lookup.elims)

lemma tree_files_proper: "tree_ok t \<Longrightarrow> (cs, x) \<in> set (tree_files t) \<Longrightarrow> list_all proper cs"
proof (induction t arbitrary: cs rule: tree_files.induct)
  case (2 e names)
  then show ?case by (fastforce simp: list_all_iff split: if_splits)
qed auto

lemma tree_files_distinct: "tree_ok t \<Longrightarrow> distinct (map fst (tree_files t))"
proof (induction t rule: tree_files.induct)
  case (2 e names)
  have IH: "distinct (map fst (tree_files t))" if "(n, t) \<in> set names" "\<not> skipped n t" for n t
    using 2 that by (auto simp: list_all_iff)
  let ?f = "\<lambda>(n, t). if skipped n t then [] else map (\<lambda>(cs, x). (n # cs, x)) (tree_files t)"
  have "distinct (map fst ns) \<Longrightarrow> set ns \<subseteq> set names \<Longrightarrow> distinct (map fst (concat (map ?f ns)))" for ns
  proof (induction ns)
    case (Cons a ns)
    obtain n t where a: "a = (n, t)" by (cases a)
    have c: "map fst (map (\<lambda>(cs, x). (n # cs, x)) fs) = map ((#) n) (map fst fs)" for fs :: "(string list \<times> nat \<times> string) list"
      by (induction fs) auto
    have d: "distinct (map fst (map (\<lambda>(cs, x). (n # cs, x)) (tree_files t)))" if "\<not> skipped n t"
      unfolding c using IH [OF _ that] Cons.prems a by (subst distinct_map) (simp add: inj_on_def)
    have k: "m \<in> fst ` set ns" if "p \<in> fst ` set (concat (map ?f ns))" "p = m # cs" for p m cs
      using that by (force split: if_splits)
    have "n # cs \<notin> fst ` set (concat (map ?f ns))" for cs
    proof
      assume "n # cs \<in> fst ` set (concat (map ?f ns))"
      from k [OF this refl] show False using Cons.prems(1) a by simp
    qed
    with d Cons a show ?case by (auto simp: image_iff)
  qed simp
  with 2 show ?case by simp
qed auto

section \<open>Extraction\<close>

text \<open>The files a sequence of system calls leaves: mode bits and contents by path.\<close>

fun file_effect :: "os_call \<Rightarrow> (string \<rightharpoonup> nat \<times> string) \<Rightarrow> (string \<rightharpoonup> nat \<times> string)" where
  "file_effect (OpenFile p mode) fs = fs(p \<mapsto> (case fs p of Some (m, _) \<Rightarrow> m | None \<Rightarrow> mode, []))"
| "file_effect (CopyInto p bytes) fs = fs(p \<mapsto> (case fs p of Some (m, _) \<Rightarrow> m | None \<Rightarrow> 0, bytes))"
| "file_effect _ fs = fs"

definition files_of :: "os_call list \<Rightarrow> (string \<rightharpoonup> nat \<times> string)" where
  "files_of cs = fold file_effect cs Map.empty"

lemma files_of_append: "files_of (xs @ ys) = fold file_effect ys (files_of xs)"
  by (simp add: files_of_def)

definition entry_calls :: "string list \<Rightarrow> string list \<times> nat \<times> string \<Rightarrow> os_call list" where
  "entry_calls ds f =
     [MkdirAll (Dir (abs_path (ds @ fst f))), OpenFile (abs_path (ds @ fst f)) (fst (snd f) mod 512),
      CopyInto (abs_path (ds @ fst f)) (snd (snd f))]"

lemma entry_calls_effect:
  "F (abs_path (ds @ cs)) = None \<Longrightarrow>
     fold file_effect (entry_calls ds (cs, mode, bytes)) F = F(abs_path (ds @ cs) \<mapsto> (mode mod 512, bytes))"
  by (simp add: entry_calls_def)

lemma extract_files:
  assumes ds: "list_all proper ds"
  shows "distinct (map fst fs) \<Longrightarrow> list_all (\<lambda>f. list_all proper (fst f) \<and> F (abs_path (ds @ fst f)) = None) fs \<Longrightarrow>
    list_all proper cs \<Longrightarrow>
    fold file_effect (concat (map (entry_calls ds) fs)) F (abs_path (ds @ cs)) =
      (case map_of fs cs of Some (mode, bytes) \<Rightarrow> Some (mode mod 512, bytes) | None \<Rightarrow> F (abs_path (ds @ cs)))"
proof (induction fs arbitrary: F)
  case (Cons f fs)
  obtain c0 mode bytes where f: "f = (c0, mode, bytes)" by (metis surj_pair)
  let ?F = "F(abs_path (ds @ c0) \<mapsto> (mode mod 512, bytes))"
  have inj: "abs_path (ds @ xs) = abs_path (ds @ ys) \<longleftrightarrow> xs = ys"
    if "list_all proper xs" "list_all proper ys" for xs ys
    using abs_path_inj [of "ds @ xs" "ds @ ys"] ds that by auto
  have p0: "list_all proper c0" "F (abs_path (ds @ c0)) = None" using Cons.prems(2) f by auto
  have "?F (abs_path (ds @ fst g)) = None \<and> list_all proper (fst g)" if g: "g \<in> set fs" for g
  proof -
    have "list_all proper (fst g)" "F (abs_path (ds @ fst g)) = None" "fst g \<noteq> c0"
      using Cons.prems(1,2) f g by (auto simp: list_all_iff)
    with inj [OF this(1) p0(1)] show ?thesis by simp
  qed
  then have l: "list_all (\<lambda>g. list_all proper (fst g) \<and> ?F (abs_path (ds @ fst g)) = None) fs"
    by (simp add: list_all_iff)
  have "fold file_effect (concat (map (entry_calls ds) fs)) ?F (abs_path (ds @ cs)) =
      (case map_of fs cs of Some (mode, bytes) \<Rightarrow> Some (mode mod 512, bytes) | None \<Rightarrow> ?F (abs_path (ds @ cs)))"
    by (rule Cons.IH [OF _ l Cons.prems(3)]) (use Cons.prems(1) in simp)
  moreover have "map_of fs c0 = None" using Cons.prems(1) f by (simp add: map_of_eq_None_iff)
  moreover have "fold file_effect (concat (map (entry_calls ds) (f # fs))) F =
      fold file_effect (concat (map (entry_calls ds) fs)) ?F"
    using entry_calls_effect [where F = F and ds = ds and cs = c0, of mode bytes] p0(2) f by simp
  ultimately show ?case
    using f inj [OF Cons.prems(3) p0(1)] by (cases "cs = c0") (simp_all split: option.splits)
qed simp

lemma resolve_rel_name:
  assumes "list_all proper cs" "cs \<noteq> []"
  shows "resolve ds (rel_name cs) = ds @ cs"
  using Split_Join [OF assms(2) proper_slash [OF assms(1)]] clean_comps_append_proper [OF assms(1), of "rev ds" "[]"] assms(2)
  by (simp add: resolve_def rel_name_def)

lemma safeJoin_rel_name:
  assumes "list_all proper ds" "ds \<noteq> []" "list_all proper cs" "cs \<noteq> []"
  shows "safeJoin (abs_path ds) (rel_name cs) = Inr (abs_path (ds @ cs))"
  by (simp add: safeJoin_resolve [OF assms(1,2)] resolve_rel_name [OF assms(3,4)])

lemma extract_entry_file:
  "extract_entry env target (file_entry rel mode bytes) w = (None, w') \<Longrightarrow>
     trace w' = trace w @ [MkdirAll (Dir target), OpenFile target (mode mod 512), CopyInto target bytes]"
  by (auto simp: extract_entry_def file_entry_def perform_eq io_err_def nat_mod_distrib Let_def split: if_splits)

lemma extract_entry_succeeds:
  "never_fails env \<Longrightarrow> \<exists>w'. extract_entry env target (file_entry rel mode bytes) w = (None, w')"
  by (simp add: extract_entry_def file_entry_def perform_eq io_err_def never_fails_reply Let_def)

definition archive_of :: "(string list \<times> nat \<times> string) list \<Rightarrow> tar_entry list" where
  "archive_of fs = map (\<lambda>(cs, mode, bytes). file_entry cs mode bytes) fs"

lemma extract_entries_calls:
  assumes ds: "list_all proper ds" "ds \<noteq> []"
  shows "list_all (\<lambda>f. list_all proper (fst f) \<and> fst f \<noteq> []) fs \<Longrightarrow>
    extract_entries env (abs_path ds) (archive_of fs) None w = (None, w') \<Longrightarrow>
    trace w' = trace w @ concat (map (entry_calls ds) fs)"
proof (induction fs arbitrary: w)
  case (Cons f fs)
  obtain cs mode bytes where f: "f = (cs, mode, bytes)" by (metis surj_pair)
  have t: "safeJoin (abs_path ds) (rel_name cs) = Inr (abs_path (ds @ cs))"
    using safeJoin_rel_name [OF ds] Cons.prems(1) f by simp
  obtain w1 where w1: "extract_entry env (abs_path (ds @ cs)) (file_entry cs mode bytes) w = (None, w1)"
    "extract_entries env (abs_path ds) (archive_of fs) None w1 = (None, w')"
    using Cons.prems(2) f t by (auto simp: archive_of_def file_entry_def split: prod.splits option.splits)
  with Cons.IH [OF _ w1(2)] Cons.prems(1) extract_entry_file [OF w1(1)] f show ?case
    by (simp add: entry_calls_def)
qed (simp add: archive_of_def)

lemma extract_entries_succeeds:
  assumes ds: "list_all proper ds" "ds \<noteq> []" and n: "never_fails env"
  shows "list_all (\<lambda>f. list_all proper (fst f) \<and> fst f \<noteq> []) fs \<Longrightarrow>
    \<exists>w'. extract_entries env (abs_path ds) (archive_of fs) None w = (None, w')"
proof (induction fs arbitrary: w)
  case (Cons f fs)
  obtain cs mode bytes where f: "f = (cs, mode, bytes)" by (metis surj_pair)
  have t: "safeJoin (abs_path ds) (rel_name cs) = Inr (abs_path (ds @ cs))"
    using safeJoin_rel_name [OF ds] Cons.prems f by simp
  obtain w1 where w1: "extract_entry env (abs_path (ds @ cs)) (file_entry cs mode bytes) w = (None, w1)"
    using extract_entry_succeeds [OF n] by blast
  from Cons obtain w' where "extract_entries env (abs_path ds) (archive_of fs) None w1 = (None, w')" by fastforce
  with w1 t f show ?case by (simp add: archive_of_def file_entry_def)
qed (simp add: archive_of_def)

lemma tarGzDir_files:
  assumes "tarGzDir targz t = Inr b"
  shows "b = targz (archive_of (tree_files t))"
  using assms walk_entries(1) [of "[]" t]
  by (auto simp: tarGzDir_def archive_of_def split: prod.splits option.splits)

lemma tree_files_nonroot: "is_folder t \<Longrightarrow> (cs, x) \<in> set (tree_files t) \<Longrightarrow> cs \<noteq> []"
  by (cases t) (auto split: if_splits)

lemma tree_files_extractable:
  assumes "tree_ok t" "is_folder t"
  shows "list_all (\<lambda>f. list_all proper (fst f) \<and> fst f \<noteq> []) (tree_files t)"
  using tree_files_proper [OF assms(1)] tree_files_nonroot [OF assms(2)] by (auto simp: list_all_iff)

text \<open>
  What is known of the two archive packages together: reading the stream that was written for some
  entries gives those entries and then the end of the archive.
\<close>

definition archive_codec ::
  "(tar_entry list \<Rightarrow> string) \<Rightarrow> (string \<Rightarrow> (string, tar_stream) result) \<Rightarrow> bool" where
  "archive_codec targz gunzip_tar \<longleftrightarrow>
     (\<forall>fs. gunzip_tar (targz (archive_of fs)) = Inr \<lparr>ts_entries = archive_of fs, ts_end = None\<rparr>)"

lemma upload_extracted:
  assumes codec: "archive_codec targz gunzip_tar"
    and t: "tree_ok t" "is_folder t" "tarGzDir targz t = Inr b"
    and ds: "list_all proper ds" "ds \<noteq> []"
    and fresh: "\<And>cs. files_of (trace w) (abs_path (ds @ cs)) = None"
    and x: "extractTarGz env gunzip_tar b (abs_path ds) w = (None, w')"
    and cs: "list_all proper cs"
  shows "files_of (trace w') (abs_path (ds @ cs)) =
    map_option (\<lambda>(mode, bytes). (mode mod 512, bytes)) (tree_lookup t cs)"
proof -
  have e: "extract_entries env (abs_path ds) (archive_of (tree_files t)) None w = (None, w')"
    using x codec tarGzDir_files [OF t(3)] by (simp add: extractTarGz_def archive_codec_def)
  have "trace w' = trace w @ concat (map (entry_calls ds) (tree_files t))"
    by (rule extract_entries_calls [OF ds tree_files_extractable [OF t(1,2)] e])
  moreover have "list_all (\<lambda>f. list_all proper (fst f) \<and> files_of (trace w) (abs_path (ds @ fst f)) = None) (tree_files t)"
    using tree_files_proper [OF t(1)] fresh unfolding list_all_iff by auto
  note extract_files [OF ds(1) tree_files_distinct [OF t(1)] this cs]
  ultimately have "files_of (trace w') (abs_path (ds @ cs)) =
      (case map_of (tree_files t) cs of Some (mode, bytes) \<Rightarrow> Some (mode mod 512, bytes) | None \<Rightarrow> None)"
    using fresh [of cs] by (simp add: files_of_append split: option.splits)
  then show ?thesis by (auto simp: tree_files_lookup [OF t(1)] split: option.splits)
qed

section \<open>Properties\<close>


text \<open>A codec with the assumed property: an archive of regular files as a unary number.\<close>

definition unary_targz :: "tar_entry list \<Rightarrow> string" where
  "unary_targz es = replicate (to_nat (map (\<lambda>e. (te_Name e, nat (te_Mode e), te_Data e)) es)) (CHR ''x'')"

definition unary_gunzip :: "string \<Rightarrow> (string, tar_stream) result" where
  "unary_gunzip b = Inr \<lparr>ts_entries =
     map (\<lambda>(n, m, d). \<lparr>te_Name = n, te_Typeflag = CHR ''0'', te_Mode = int m, te_Data = d, te_read_err = None\<rparr>)
       (from_nat (length b)), ts_end = None\<rparr>"

lemma unary_codec: "archive_codec unary_targz unary_gunzip"
proof -
  have "map (\<lambda>(n, m, d). \<lparr>te_Name = n, te_Typeflag = CHR ''0'', te_Mode = int m, te_Data = d, te_read_err = None\<rparr>)
      (map (\<lambda>e. (te_Name e, nat (te_Mode e), te_Data e)) (archive_of fs)) = archive_of fs" for fs
    by (induction fs) (auto simp: archive_of_def file_entry_def)
  then show ?thesis by (simp add: archive_codec_def unary_targz_def unary_gunzip_def)
qed

definition demo_tree :: fnode where
  "demo_tree = Folder None
     [(''.git'', Folder None [(''HEAD'', Regular 420 ''ref'' None)]),
      (''Dockerfile'', Regular 420 ''FROM scratch'' None),
      (''link'', Special),
      (''src'', Folder None [(''main.go'', Regular 2541 ''package main'' None)])]"


text \<open>
  A project directory given as a symbolic link is not entered: the walk does not follow links, so
  the upload succeeds with an empty archive although the manifest was found through the link.
\<close>

lemma symlinked_root_uploads_nothing: "tarGzDir targz Special = Inr (targz [])"
  by (simp add: tarGzDir_def)

text \<open>A skipped directory that cannot be listed fails the upload, although nothing of it is uploaded.\<close>

lemma unreadable_skipped_dir_fails:
  "tarGzDir targz (Folder None [(''node_modules'', Folder (Some e) [])]) = Inl e"
  by (simp add: tarGzDir_def)

end
