(* ===== verification/Sched_Client.thy ===== *)
theory Sched_Client
  imports Schedhttp
begin

text \<open>
  The control plane's client of the scheduler, \<^verbatim>\<open>services/api/internal/scheduler/client.go\<close>, over
  an arbitrary transport, and the transport that delivers its calls to the scheduler's HTTP
  handler, over which the client returns exactly what the orchestrator returned.
\<close>

section \<open>The client\<close>

text \<open>
  The body of a call: a JSON document, or the multipart form with the fields \<^verbatim>\<open>service\<close> and
  \<^verbatim>\<open>image\<close> and the file \<^verbatim>\<open>source\<close>.
\<close>

datatype deploy_call = JsonCall string | FormCall string string string

type_synonym 's sched_transport =
  "string \<Rightarrow> deploy_call \<Rightarrow> 's \<Rightarrow> (http_error, http_response) result \<times> 's"

datatype sched_error =
    SchedRequest string             \<comment> \<open>the request could not be made\<close>
  | SchedPost string bool string    \<comment> \<open>base URL, whether with source, cause\<close>
  | SchedStatus nat string
  | SchedDecode

fun sched_error_text :: "sched_error \<Rightarrow> string" where
  "sched_error_text (SchedRequest e) = e"
| "sched_error_text (SchedPost base src e) =
     ''POST '' @ base @ ''/internal/deploy'' @ (if src then '' (source)'' else []) @ '': '' @ e"
| "sched_error_text (SchedStatus st b) = ''scheduler deploy: '' @ status_line st @ '': '' @ b"
| "sched_error_text SchedDecode = ''decode scheduler response''"

definition deploy_body :: "string \<Rightarrow> string \<Rightarrow> string" where
  "deploy_body service img = json_enc (JObj [(''service'', JStr service), (''image'', JStr img)])"

definition decode_result :: "string \<Rightarrow> dep_result option" where
  "decode_result body =
     (case json_decode body of
        Some (JObj ms) \<Rightarrow>
          (let names = [''host'', ''url'', ''guest_ip'', ''tap_dev''];
               (h, e1) = str_field names ''host'' ms; (u, e2) = str_field names ''url'' ms;
               (g, e3) = str_field names ''guest_ip'' ms; (t, e4) = str_field names ''tap_dev'' ms
           in if e1 \<or> e2 \<or> e3 \<or> e4 then None
              else Some \<lparr>dp_Host = h, dp_URL = u, dp_GuestIP = g, dp_TapDev = t\<rparr>)
      | Some JNull \<Rightarrow> Some \<lparr>dp_Host = [], dp_URL = [], dp_GuestIP = [], dp_TapDev = []\<rparr>
      | _ \<Rightarrow> None)"

text \<open>What both calls do with the outcome of the request.\<close>

definition read_answer ::
  "string \<Rightarrow> bool \<Rightarrow> (http_error, http_response) result \<Rightarrow> (sched_error, dep_result) result" where
  "read_answer base src r =
     (case r of
        Inl (BadURL e) \<Rightarrow> Inl (SchedRequest e)
      | Inl (Transport e) \<Rightarrow> Inl (SchedPost base src e)
      | Inr resp \<Rightarrow>
          if rs_status resp \<noteq> 200 then Inl (SchedStatus (rs_status resp) (take 2048 (rs_body resp)))
          else (case decode_result (rs_body resp) of None \<Rightarrow> Inl SchedDecode | Some res \<Rightarrow> Inr res))"

definition ClientDeploy ::
  "'s sched_transport \<Rightarrow> string \<Rightarrow> string \<Rightarrow> string \<Rightarrow> 's \<Rightarrow> (sched_error, dep_result) result \<times> 's" where
  "ClientDeploy tr base service img s =
     (let (r, s') = tr (base @ ''/internal/deploy'') (JsonCall (deploy_body service img)) s
      in (read_answer base False r, s'))"

definition ClientDeployWithSource ::
  "'s sched_transport \<Rightarrow> string \<Rightarrow> string \<Rightarrow> string \<Rightarrow> string \<Rightarrow> 's \<Rightarrow>
   (sched_error, dep_result) result \<times> 's" where
  "ClientDeployWithSource tr base service img src s =
     (let (r, s') = tr (base @ ''/internal/deploy'') (FormCall service img src) s
      in (read_answer base True r, s'))"

section \<open>Delivery to the scheduler\<close>

definition request_of :: "deploy_call \<Rightarrow> sched_request" where
  "request_of c =
     (case c of
        JsonCall body \<Rightarrow>
          \<lparr>sr_path = ''/internal/deploy'', sr_method = ''POST'', sr_ctype = ''application/json'',
           sr_body = body, sr_source = Inl ''request Content-Type isn't multipart/form-data'',
           sr_form = (\<lambda>_. [])\<rparr>
      | FormCall service img src \<Rightarrow>
          \<lparr>sr_path = ''/internal/deploy'', sr_method = ''POST'',
           sr_ctype = ''multipart/form-data; boundary=b'', sr_body = [], sr_source = Inr src,
           sr_form = (\<lambda>_. [])(''service'' := service, ''image'' := img)\<rparr>)"

definition to_handler ::
  "env \<Rightarrow> (string \<Rightarrow> string) \<Rightarrow> (string \<Rightarrow> (string, tar_stream) result) \<Rightarrow> 's deployer \<Rightarrow>
   (os \<times> 's) sched_transport" where
  "to_handler env quote gz d url c s =
     (let (resp, s') = Handler env quote gz d (request_of c) s in (Inr resp, s'))"

lemma decode_deployReq_body:
  assumes "valid_utf8 service" "valid_utf8 img"
  shows "decode_deployReq (deploy_body service img) = Some (service, img)"
proof -
  have "json_decode (deploy_body service img @ []) =
      Some (JObj [(''service'', JStr service), (''image'', JStr img)])"
    unfolding deploy_body_def
    by (rule json_decode_enc) (use assms in \<open>simp_all add: valid_utf8_ascii\<close>)
  then show ?thesis by (simp add: decode_deployReq_def str_field_def key_matches_def)
qed

definition result_utf8 :: "dep_result \<Rightarrow> bool" where
  "result_utf8 r \<longleftrightarrow> list_all valid_utf8 [dp_Host r, dp_URL r, dp_GuestIP r, dp_TapDev r]"

lemma decode_result_json:
  assumes "result_utf8 r"
  shows "decode_result (json_enc (result_json r) @ newline) = Some r"
proof -
  have "json_decode (json_enc (result_json r) @ newline) = Some (result_json r)"
    by (rule json_decode_enc)
      (use assms in \<open>simp_all add: result_json_def result_utf8_def valid_utf8_ascii newline_def stops_def
        is_num_char_def is_digit_def\<close>)
  then show ?thesis by (simp add: decode_result_def result_json_def str_field_def key_matches_def)
qed

lemma multipart_ctype: "HasPrefix ''multipart/form-data; boundary=b'' ''multipart/''"
  by (simp add: HasPrefix_def)

lemma ClientDeploy_delivered:
  assumes u: "valid_utf8 service" "valid_utf8 img" "service \<noteq> []"
    and d: "d \<lparr>dr_Service = service, dr_Image = img, dr_SourceDir = []\<rparr> s = (res, s')"
    and r: "\<And>x. res = Inr x \<Longrightarrow> result_utf8 x"
  shows "ClientDeploy (to_handler env quote gz d) base service img s =
    (case res of
       Inr x \<Rightarrow> Inr x
     | Inl e \<Rightarrow> Inl (SchedStatus 502 (take 2048 (rs_body (errJSON 502 (deploy_error_text e))))), s')"
proof -
  have "\<not> HasPrefix ''application/json'' ''multipart/''" by (simp add: HasPrefix_def)
  then have h: "Handler env quote gz d (request_of (JsonCall (deploy_body service img))) s =
      deploy d \<lparr>dr_Service = service, dr_Image = img, dr_SourceDir = []\<rparr> s"
    using decode_deployReq_body [OF u(1,2)] u(3) by (simp add: Handler_def request_of_def)
  show ?thesis
  proof (cases res)
    case (Inl e)
    then show ?thesis
      using d by (simp add: ClientDeploy_def to_handler_def h deploy_def read_answer_def)
  next
    case (Inr x)
    then show ?thesis
      using d decode_result_json [OF r [OF Inr]]
      by (simp add: ClientDeploy_def to_handler_def h deploy_def read_answer_def writeJSON_def)
  qed
qed

lemma ClientDeployWithSource_delivered:
  assumes svc: "service \<noteq> []"
    and tmp: "reply_of env (MkdirTemp [] ''antariksh-src-'') w0 = rt" "r_err rt = None"
    and x: "extractTarGz env gz src (r_out rt) (exec env (MkdirTemp [] ''antariksh-src-'') w0) = (None, w1)"
    and d: "d \<lparr>dr_Service = service, dr_Image = img, dr_SourceDir = r_out rt\<rparr> (w1, s) = (res, w2, s')"
    and r: "\<And>y. res = Inr y \<Longrightarrow> result_utf8 y"
  shows "ClientDeployWithSource (to_handler env quote gz d) base service img src (w0, s) =
    (case res of
       Inr y \<Rightarrow> Inr y
     | Inl e \<Rightarrow> Inl (SchedStatus 502 (take 2048 (rs_body (errJSON 502 (deploy_error_text e))))),
     exec env (RemoveAll (r_out rt)) w2, s')"
proof -
  have h: "Handler env quote gz d (request_of (FormCall service img src)) (w0, s) =
      (fst (deploy d \<lparr>dr_Service = service, dr_Image = img, dr_SourceDir = r_out rt\<rparr> (w1, s)),
       exec env (RemoveAll (r_out rt)) w2, s')"
    using svc tmp x d multipart_ctype
    by (simp add: Handler_def request_of_def handleMultipartDeploy_def perform_eq Let_def deploy_def split: sum.splits)
  show ?thesis
  proof (cases res)
    case (Inl e)
    then show ?thesis
      using d by (simp add: ClientDeployWithSource_def to_handler_def h deploy_def read_answer_def)
  next
    case (Inr y)
    then show ?thesis
      using d decode_result_json [OF r [OF Inr]]
      by (simp add: ClientDeployWithSource_def to_handler_def h deploy_def read_answer_def writeJSON_def)
  qed
qed

section \<open>Properties\<close>

text \<open>
  The wire between the control plane and the scheduler loses nothing: over a transport that
  delivers to the scheduler's handler, the client returns exactly the result the orchestrator
  returned for exactly the service and image asked for, and an error with status 502 when the
  orchestrator failed.
\<close>

theorem client_transparent:
  assumes "valid_utf8 service" "valid_utf8 img" "service \<noteq> []"
    and "d \<lparr>dr_Service = service, dr_Image = img, dr_SourceDir = []\<rparr> s = (res, s')"
    and "\<And>x. res = Inr x \<Longrightarrow> result_utf8 x"
  shows "ClientDeploy (to_handler env quote gz d) base service img s =
    (case res of
       Inr x \<Rightarrow> Inr x
     | Inl e \<Rightarrow> Inl (SchedStatus 502 (take 2048 (rs_body (errJSON 502 (deploy_error_text e))))), s')"
  by (rule ClientDeploy_delivered [where d = d, OF assms(1-4)]) (rule assms(5))

definition up :: "unit deployer" where
  "up req s = (Inr \<lparr>dp_Host = dr_Service req @ ''.local'', dp_URL = [], dp_GuestIP = ''172.16.0.2'',
     dp_TapDev = ''fctap2''\<rparr>, s)"

theorem client_transparent_witness:
  "\<exists>res. ClientDeploy (to_handler calm id evil_archive up) ''http://s'' ''web'' ''img'' (boot_os, ()) =
     (Inr res, boot_os, ()) \<and> dp_Host res = ''web.local''"
proof -
  have "up \<lparr>dr_Service = ''web'', dr_Image = ''img'', dr_SourceDir = []\<rparr> (boot_os, ()) =
      (Inr \<lparr>dp_Host = ''web.local'', dp_URL = [], dp_GuestIP = ''172.16.0.2'', dp_TapDev = ''fctap2''\<rparr>,
       boot_os, ())" by (simp add: up_def)
  from client_transparent [where d = up, OF _ _ _ this] show ?thesis
    by (auto simp: valid_utf8_ascii result_utf8_def)
qed

section \<open>From the control plane to the virtual machine\<close>

text \<open>
  The orchestrator as the handler's deployer: its state is the allocator, the process map and the
  routing table, and it makes its operating system calls on the same trace as the handler.
\<close>

type_synonym sched_state = "allocator \<times> (string \<rightharpoonup> nat) \<times> router"

definition site_deployer ::
  "env \<Rightarrow> string \<Rightarrow> exec_cfg \<Rightarrow> build_exec option \<Rightarrow> router transport \<Rightarrow> string \<Rightarrow> string \<Rightarrow>
   sched_state deployer" where
  "site_deployer env path cfg be tr base domain req st =
     (case st of (w, a, p, r) \<Rightarrow>
        (case Deploy (real_orc env path cfg be tr base domain) req a (\<lparr>procs = p, world = w\<rparr>, r) of
           (res, a', h', r') \<Rightarrow> (res, world h', a', procs h', r')))"

lemma live_result_utf8:
  assumes "genuine l" "valid_utf8 (route_host orc req)"
  shows "result_utf8 (live_result orc req l)"
proof -
  have l: "l = mk_lease (l_octet l)" using assms(1) by (simp add: genuine_def)
  have "valid_utf8 (l_GuestIP (mk_lease n)) \<and> valid_utf8 (l_TapDev (mk_lease n))" for n
    unfolding mk_lease_def by (simp add: dec_valid_utf8)
  then have "valid_utf8 (l_GuestIP l)" "valid_utf8 (l_TapDev l)" using l by metis+
  then show ?thesis using assms(2) by (simp add: result_utf8_def live_result_def)
qed

text \<open>
  A deploy asked of the control plane's client, delivered to the scheduler's handler and run
  by the orchestrator on the real runner and proxy client, all or nothing: when the client returns
  a result, the host is the service under the scheduler's domain, the guest has a fresh address,
  exactly its VM was added and exactly the route from the host to port 80 of the guest; when it
  returns an error, the leases, the running VMs and the routes are as before (as long as no answer
  of the proxy is lost).
\<close>

lemma control_plane_deploy:
  assumes w: "admin_wire fs" and n: "prompt_net fs base tr"
    and i: "ipam_inv a L" "dom p \<subseteq> lease_taps L"
    and u: "valid_utf8 service" "valid_utf8 img" "service \<noteq> []" "valid_utf8 domain"
    and c: "ClientDeploy (to_handler env quote gz (site_deployer env path cfg be tr base domain)) url
        service img (w0, a, p, r) = (out_res, w', a', p', r')"
  shows "case out_res of
      Inr res \<Rightarrow>
        dp_Host res = service @ ''.'' @ domain \<and> dp_URL res = ''http://'' @ dp_Host res \<and>
        (\<exists>m. m \<notin> L \<and> ipam_inv a' (insert m L) \<and> dp_GuestIP res = l_GuestIP (mk_lease m) \<and>
             dp_TapDev res = l_TapDev (mk_lease m)) \<and>
        dp_TapDev res \<notin> dom p \<and> dom p' = insert (dp_TapDev res) (dom p) \<and>
        map_of r' = (map_of r)(dp_Host res \<mapsto> [dp_GuestIP res @ '':80''])
    | Inl e \<Rightarrow> ipam_inv a' L \<and> dom p' = dom p \<and> map_of r' = map_of r"
proof -
  let ?orc = "real_orc env path cfg be tr base domain"
  let ?req = "\<lparr>dr_Service = service, dr_Image = img, dr_SourceDir = []\<rparr>"
  let ?st = "(\<lparr>procs = p, world = w0\<rparr>, r)"
  let ?d = "site_deployer env path cfg be tr base domain"
  have host: "route_host ?orc ?req = service @ ''.'' @ domain"
    by (simp add: route_host_def real_orc_def NewOrchestrator_def WithBuilder_def)
  have "valid_utf8 (''.'' @ domain)" using u(4) by simp
  with host u(1) have hu: "valid_utf8 (route_host ?orc ?req)" by (metis valid_utf8_append)
  have s: "vm_platform.steady site_running a L ?st"
    using i steady_site [OF w prompt_lossy [OF n]] by (simp add: vm_taps_def)
  obtain res a1 h1 r1 where D: "Deploy ?orc ?req a ?st = (res, a1, h1, r1)"
    by (cases "Deploy ?orc ?req a ?st")
  then have d: "?d ?req (w0, a, p, r) = (res, world h1, a1, procs h1, r1)" by (simp add: site_deployer_def)
  note live = vm_platform.live_deploy [OF real_platform [OF w prompt_lossy [OF n]] _ s]
  have ru: "result_utf8 x" if "res = Inr x" for x
    using live [OF D [unfolded that]] live_result_utf8 [OF _ hu] by blast
  have eqs: "out_res = (case res of Inr x \<Rightarrow> Inr x
      | Inl e \<Rightarrow> Inl (SchedStatus 502 (take 2048 (rs_body (errJSON 502 (deploy_error_text e))))))"
    "a' = a1" "p' = procs h1" "r' = r1"
    using c ClientDeploy_delivered [where d = ?d, OF u(1-3) d ru] by auto
  show ?thesis
  proof (cases res)
    case (Inl e)
    note fd = D [unfolded Inl]
    show ?thesis
      using vm_platform.failed_deploy [OF real_platform [OF w prompt_lossy [OF n]] fd s]
        exact_platform.failed_deploy_exact [OF real_exact_platform [OF w n] fd s] eqs Inl
      by (simp add: site_running_def site_routes_def)
  next
    case (Inr x)
    obtain l where l: "genuine l" "l_octet l \<notin> L" "x = live_result ?orc ?req l"
      "vm_platform.steady site_running a1 (insert (l_octet l) L) (h1, r1)"
      "site_running (h1, r1) = insert (l_TapDev l) (site_running ?st)" "l_TapDev l \<notin> site_running ?st"
      "routable_host (route_host ?orc ?req) \<longrightarrow>
         site_routes (h1, r1) = (site_routes ?st)(route_host ?orc ?req \<mapsto> [lease_addr l])"
      using live [OF D [unfolded Inr]] by blast
    have x: "dp_Host x = service @ ''.'' @ domain" "dp_URL x = ''http://'' @ dp_Host x"
      "dp_GuestIP x = l_GuestIP l" "dp_TapDev x = l_TapDev l"
      using l(3) host by (simp_all add: live_result_def)
    have lm: "l_GuestIP l = l_GuestIP (mk_lease (l_octet l))" "l_TapDev l = l_TapDev (mk_lease (l_octet l))"
      using l(1) by (metis genuine_def)+
    have inv: "ipam_inv a1 (insert (l_octet l) L)"
      using l(4) steady_site [OF w prompt_lossy [OF n]] by simp
    have rt: "map_of r1 = (map_of r)(dp_Host x \<mapsto> [dp_GuestIP x @ '':80''])"
      using l(7) hu x host by (simp add: routable_host_def site_routes_def lease_addr_def)
    have dp: "dom (procs h1) = insert (dp_TapDev x) (dom p)" "dp_TapDev x \<notin> dom p"
      using l(5,6) x(4) by (simp_all add: site_running_def)
    show ?thesis
      unfolding eqs(1) Inr sum.case eqs(2-4) using x lm inv rt dp l(2) by metis
  qed
qed

definition demo_deployer :: "sched_state deployer" where
  "demo_deployer = site_deployer calm [] demo_cfg None (deliver read_route ''http://p'') ''http://p'' ''local''"

lemma demo_control_plane_deploy:
  "\<exists>res w' a' p' r'. ClientDeploy (to_handler calm id evil_archive demo_deployer) ''http://s'' ''web'' []
       (boot_os, New, Map.empty, []) = (Inr res, w', a', p', r') \<and>
     dp_Host res = ''web.local'' \<and> dp_URL res = ''http://web.local'' \<and> map_of r' = [''web.local'' \<mapsto> [''172.16.0.2:80'']]"
proof -
  let ?res = "\<lparr>dp_Host = ''web.local'', dp_URL = ''http://web.local'', dp_GuestIP = ''172.16.0.2'',
    dp_TapDev = ''fctap2''\<rparr>"
  obtain a st where D: "Deploy (demo_orc calm) web_req New (demo_host, []) = (Inr ?res, a, st)"
    using demo_Deploy by blast
  obtain h r where st: "st = (h, r)" by (cases st)
  have d: "demo_deployer \<lparr>dr_Service = ''web'', dr_Image = [], dr_SourceDir = []\<rparr> (boot_os, New, Map.empty, []) =
      (Inr ?res, world h, a, procs h, r)"
    using D st by (simp add: demo_deployer_def site_deployer_def demo_orc_def web_req_def demo_host_def)
  have c: "ClientDeploy (to_handler calm id evil_archive demo_deployer) ''http://s'' ''web'' []
      (boot_os, New, Map.empty, []) = (Inr ?res, world h, a, procs h, r)"
    using ClientDeploy_delivered [where d = demo_deployer, OF _ _ _ d]
    by (simp add: valid_utf8_ascii result_utf8_def)
  have "map_of r = [''web.local'' \<mapsto> [''172.16.0.2:80'']]"
    using control_plane_deploy [OF wire.admin_wire_axioms prompt_deliver ipam_inv_New _ _ _ _ _
        c [unfolded demo_deployer_def]] by (simp add: valid_utf8_ascii)
  with c show ?thesis by auto
qed

end
