(* ===== verification/Sha256.thy ===== *)
theory Sha256
  imports Prelude
begin

text \<open>
  The hash and the message authentication code behind the tokens: SHA-256 (FIPS 180-4) and HMAC
  (RFC 2104) on byte strings, as \<^verbatim>\<open>crypto/sha256\<close> and \<^verbatim>\<open>crypto/hmac\<close> compute them.
\<close>

unbundle bit_operations_syntax

type_synonym w32 = "32 word"

definition byte_of :: "char \<Rightarrow> nat" where
  "byte_of c = of_char c"

section \<open>The compression function\<close>

definition round_constants :: "w32 list" where
  "round_constants =
    [1116352408, 1899447441, 3049323471, 3921009573, 961987163, 1508970993, 2453635748, 2870763221,
     3624381080, 310598401, 607225278, 1426881987, 1925078388, 2162078206, 2614888103, 3248222580,
     3835390401, 4022224774, 264347078, 604807628, 770255983, 1249150122, 1555081692, 1996064986,
     2554220882, 2821834349, 2952996808, 3210313671, 3336571891, 3584528711, 113926993, 338241895,
     666307205, 773529912, 1294757372, 1396182291, 1695183700, 1986661051, 2177026350, 2456956037,
     2730485921, 2820302411, 3259730800, 3345764771, 3516065817, 3600352804, 4094571909, 275423344,
     430227734, 506948616, 659060556, 883997877, 958139571, 1322822218, 1537002063, 1747873779,
     1955562222, 2024104815, 2227730452, 2361852424, 2428436474, 2756734187, 3204031479, 3329325298]"

definition initial_state :: "w32 list" where
  "initial_state =
    [1779033703, 3144134277, 1013904242, 2773480762, 1359893119, 2600822924, 528734635, 1541459225]"

definition small_sigma :: "nat \<Rightarrow> nat \<Rightarrow> nat \<Rightarrow> w32 \<Rightarrow> w32" where
  "small_sigma a b s x = word_rotr a x XOR word_rotr b x XOR drop_bit s x"

definition big_sigma :: "nat \<Rightarrow> nat \<Rightarrow> nat \<Rightarrow> w32 \<Rightarrow> w32" where
  "big_sigma a b c x = word_rotr a x XOR word_rotr b x XOR word_rotr c x"

definition next_word :: "w32 list \<Rightarrow> w32" where
  "next_word ws =
     (let n = length ws in
      small_sigma 17 19 10 (ws ! (n - 2)) + ws ! (n - 7) + small_sigma 7 18 3 (ws ! (n - 15)) +
      ws ! (n - 16))"

definition schedule :: "w32 list \<Rightarrow> w32 list" where
  "schedule block = ((\<lambda>ws. ws @ [next_word ws]) ^^ 48) block"

fun sha_round :: "w32 list \<Rightarrow> w32 \<times> w32 \<Rightarrow> w32 list" where
  "sha_round [a, b, c, d, e, f, g, h] (k, w) =
     (let ch = (e AND f) XOR (NOT e AND g);
          maj = (a AND b) XOR (a AND c) XOR (b AND c);
          t1 = h + big_sigma 6 11 25 e + ch + k + w;
          t2 = big_sigma 2 13 22 a + maj
      in [t1 + t2, a, b, c, d + t1, e, f, g])"
| "sha_round st _ = st"

definition compress :: "w32 list \<Rightarrow> w32 list \<Rightarrow> w32 list" where
  "compress st block =
     map2 (+) st (foldl sha_round st (zip round_constants (schedule block)))"

section \<open>Padding and blocks\<close>

fun be_bytes :: "nat \<Rightarrow> nat \<Rightarrow> nat list" where
  "be_bytes 0 n = []"
| "be_bytes (Suc k) n = be_bytes k (n div 256) @ [n mod 256]"

definition pad :: "nat list \<Rightarrow> nat list" where
  "pad m = m @ 128 # replicate ((119 - length m mod 64) mod 64) 0 @ be_bytes 8 (8 * length m)"

fun chunks :: "nat \<Rightarrow> 'a list \<Rightarrow> nat \<Rightarrow> 'a list list" where
  "chunks k xs 0 = []"
| "chunks k xs (Suc n) = take k xs # chunks k (drop k xs) n"

definition words_of_block :: "nat list \<Rightarrow> w32 list" where
  "words_of_block bs = map (\<lambda>q. of_nat (foldl (\<lambda>n b. 256 * n + b) 0 q)) (chunks 4 bs 16)"

definition sha256 :: "nat list \<Rightarrow> nat list" where
  "sha256 m =
     (let p = pad m; blocks = map words_of_block (chunks 64 p (length p div 64))
      in concat (map (\<lambda>w. be_bytes 4 (unat w)) (foldl compress initial_state blocks)))"

section \<open>HMAC\<close>

definition hmac_key :: "nat list \<Rightarrow> nat list" where
  "hmac_key k = (let k' = (if length k > 64 then sha256 k else k) in k' @ replicate (64 - length k') 0)"

definition xor_byte :: "nat \<Rightarrow> nat \<Rightarrow> nat" where
  "xor_byte p b = (p XOR b) mod 256"

definition hmac_sha256 :: "nat list \<Rightarrow> nat list \<Rightarrow> nat list" where
  "hmac_sha256 key msg =
     (let k = hmac_key key
      in sha256 (map (xor_byte 92) k @ sha256 (map (xor_byte 54) k @ msg)))"

lemma be_bytes_lt: "b \<in> set (be_bytes k n) \<Longrightarrow> b < 256"
  by (induction k arbitrary: n) auto

lemma sha256_bytes: "b \<in> set (sha256 m) \<Longrightarrow> b < 256"
  by (auto simp: sha256_def Let_def dest: be_bytes_lt)

lemma length_be_bytes [simp]: "length (be_bytes k n) = k"
  by (induction k arbitrary: n) auto

text \<open>Padding fills whole blocks, so no byte of the message is left out.\<close>

lemma pad_whole_blocks: "length (pad m) mod 64 = 0"
proof -
  let ?l = "length m mod 64"
  have "(length m + 9 + (119 - ?l) mod 64) mod 64 = (?l + 9 + (119 - ?l) mod 64) mod 64"
    by (metis (no_types, lifting) add.assoc mod_add_left_eq)
  also have "\<dots> = (?l + 9 + (119 - ?l)) mod 64" by (metis mod_add_right_eq)
  also have "?l < 64" by simp
  then have "?l + 9 + (119 - ?l) = 128" by linarith
  finally show ?thesis by (simp add: pad_def ac_simps)
qed

end
