(* ===== verification/Base64.thy ===== *)
theory Base64
  imports Go_Strings
begin

text \<open>
  \<^verbatim>\<open>base64.RawURLEncoding\<close>: the URL alphabet without padding. The decoder skips carriage returns
  and line feeds, accepts any values in the unused bits of the last character, and refuses every
  other character and a last group of one character. The theorem is the round trip.
\<close>

definition b64_alphabet :: string where
  "b64_alphabet = ''ABCDEFGHIJKLMNOPQRSTUVWXYZabcdefghijklmnopqrstuvwxyz0123456789-_''"

definition b64_char :: "nat \<Rightarrow> char" where
  "b64_char n = b64_alphabet ! n"

fun b64_index :: "char \<Rightarrow> string \<Rightarrow> nat option" where
  "b64_index c [] = None"
| "b64_index c (x # xs) = (if c = x then Some 0 else map_option Suc (b64_index c xs))"

definition b64_val :: "char \<Rightarrow> nat option" where
  "b64_val c = b64_index c b64_alphabet"

fun b64_encode :: "nat list \<Rightarrow> string" where
  "b64_encode [] = []"
| "b64_encode [a] = map b64_char [a div 4, a mod 4 * 16]"
| "b64_encode [a, b] = map b64_char [a div 4, a mod 4 * 16 + b div 16, b mod 16 * 4]"
| "b64_encode (a # b # c # s) =
     map b64_char [a div 4, a mod 4 * 16 + b div 16, b mod 16 * 4 + c div 64, c mod 64] @ b64_encode s"

text \<open>Decoding of six-bit values; a byte is eight bits of a group.\<close>

fun b64_groups :: "nat list \<Rightarrow> nat list option" where
  "b64_groups [] = Some []"
| "b64_groups [p] = None"
| "b64_groups [p, q] = Some [p * 4 + q div 16]"
| "b64_groups [p, q, r] = Some [p * 4 + q div 16, q mod 16 * 16 + r div 4]"
| "b64_groups (p # q # r # t # s) =
     map_option ((@) [p * 4 + q div 16, q mod 16 * 16 + r div 4, r mod 4 * 64 + t]) (b64_groups s)"

definition b64_decode :: "string \<Rightarrow> nat list option" where
  "b64_decode s =
     (let vs = map b64_val (filter (\<lambda>c. c \<noteq> CHR 0x0A \<and> c \<noteq> CHR 0x0D) s)
      in if list_all (\<lambda>v. v \<noteq> None) vs then b64_groups (map the vs) else None)"

section \<open>Round trip\<close>

lemma b64_alphabet_distinct: "distinct b64_alphabet"
  by (simp add: b64_alphabet_def)

lemma b64_alphabet_length: "length b64_alphabet = 64"
  by (simp add: b64_alphabet_def)

lemma b64_index_nth: "distinct xs \<Longrightarrow> n < length xs \<Longrightarrow> b64_index (xs ! n) xs = Some n"
proof (induction xs arbitrary: n)
  case (Cons x xs)
  then show ?case by (cases n) auto
qed simp

lemma b64_val_char: "n < 64 \<Longrightarrow> b64_val (b64_char n) = Some n"
  unfolding b64_val_def b64_char_def
  by (rule b64_index_nth [OF b64_alphabet_distinct]) (simp add: b64_alphabet_length)

lemma b64_char_in: "n < 64 \<Longrightarrow> b64_char n \<in> set b64_alphabet"
  by (simp add: b64_char_def b64_alphabet_length)

text \<open>The six-bit values of an encoding.\<close>

fun sextets :: "nat list \<Rightarrow> nat list" where
  "sextets [] = []"
| "sextets [a] = [a div 4, a mod 4 * 16]"
| "sextets [a, b] = [a div 4, a mod 4 * 16 + b div 16, b mod 16 * 4]"
| "sextets (a # b # c # s) =
     [a div 4, a mod 4 * 16 + b div 16, b mod 16 * 4 + c div 64, c mod 64] @ sextets s"

lemma b64_encode_sextets: "b64_encode bs = map b64_char (sextets bs)"
  by (induction bs rule: sextets.induct) auto

lemma hi_lo_bits: "a < 256 \<Longrightarrow> a div 4 < 64" "b < 256 \<Longrightarrow> (a::nat) mod 4 * 16 + b div 16 < 64"
    "c < 256 \<Longrightarrow> (b::nat) mod 16 * 4 + c div 64 < 64"
    "(a::nat) mod 4 * 16 < 64" "(b::nat) mod 16 * 4 < 64"
proof -
  show "a div 4 < 64" if "a < 256" using that by linarith
  have "a mod 4 < 4" "b mod 16 < 16" by simp_all
  then show "a mod 4 * 16 + b div 16 < 64" if "b < 256" using that by linarith
  show "b mod 16 * 4 + c div 64 < 64" if "c < 256" using that \<open>b mod 16 < 16\<close> by linarith
  show "a mod 4 * 16 < 64" "b mod 16 * 4 < 64" using \<open>a mod 4 < 4\<close> \<open>b mod 16 < 16\<close> by linarith+
qed

lemma sextets_lt: "list_all (\<lambda>b. b < 256) bs \<Longrightarrow> list_all (\<lambda>v. v < 64) (sextets bs)"
  by (induction bs rule: sextets.induct) (auto simp: hi_lo_bits)

lemma regroup:
  "(a::nat) div 4 * 4 + (a mod 4 * 16) div 16 = a"
  "b < 256 \<Longrightarrow> (a::nat) div 4 * 4 + (a mod 4 * 16 + b div 16) div 16 = a"
  "b < 256 \<Longrightarrow> ((a::nat) mod 4 * 16 + b div 16) mod 16 * 16 + (b mod 16 * 4) div 4 = b"
  "b < 256 \<Longrightarrow> c < 256 \<Longrightarrow> ((a::nat) mod 4 * 16 + b div 16) mod 16 * 16 + (b mod 16 * 4 + c div 64) div 4 = b"
  "c < 256 \<Longrightarrow> ((b::nat) mod 16 * 4 + c div 64) mod 4 * 64 + c mod 64 = c"
proof -
  show "a div 4 * 4 + (a mod 4 * 16) div 16 = a" by simp
  show "a div 4 * 4 + (a mod 4 * 16 + b div 16) div 16 = a" if "b < 256"
  proof -
    have "b div 16 < 16" using that by linarith
    then have "(a mod 4 * 16 + b div 16) div 16 = a mod 4" by simp
    then show ?thesis by simp
  qed
  have m: "(a mod 4 * 16 + b div 16) mod 16 = b div 16" if "b < 256"
  proof -
    have "b div 16 < 16" using that by linarith
    then show ?thesis by simp
  qed
  show "(a mod 4 * 16 + b div 16) mod 16 * 16 + (b mod 16 * 4) div 4 = b" if "b < 256"
    using m [OF that] by simp
  show "(a mod 4 * 16 + b div 16) mod 16 * 16 + (b mod 16 * 4 + c div 64) div 4 = b" if "b < 256" "c < 256"
  proof -
    have "c div 64 < 4" using that by linarith
    then have "(b mod 16 * 4 + c div 64) div 4 = b mod 16" by simp
    with m [OF that(1)] show ?thesis by simp
  qed
  show "(b mod 16 * 4 + c div 64) mod 4 * 64 + c mod 64 = c" if "c < 256"
  proof -
    have "c div 64 < 4" using that by linarith
    then have "(b mod 16 * 4 + c div 64) mod 4 = c div 64" by simp
    then show ?thesis by simp
  qed
qed

lemma b64_groups_sextets: "list_all (\<lambda>b. b < 256) bs \<Longrightarrow> b64_groups (sextets bs) = Some bs"
proof (induction bs rule: sextets.induct)
  case (2 a)
  then show ?case using regroup(1) [of a] by simp
next
  case (3 a b)
  then show ?case using regroup(2) [of b a] regroup(3) [of b a] by simp
next
  case (4 a b c s)
  then show ?case using regroup(2) [of b a] regroup(4) [of b c a] regroup(5) [of c b] by simp
qed simp

lemma b64_alphabet_no: "c \<in> set b64_alphabet \<Longrightarrow> c \<noteq> CHR 0x0A \<and> c \<noteq> CHR 0x0D \<and> c \<noteq> CHR ''.''"
  by (auto simp: b64_alphabet_def)

lemma b64_encode_chars: "list_all (\<lambda>b. b < 256) bs \<Longrightarrow> set (b64_encode bs) \<subseteq> set b64_alphabet"
  using sextets_lt [of bs] b64_char_in by (auto simp: b64_encode_sextets list_all_iff)

lemma b64_decode_encode:
  assumes "list_all (\<lambda>b. b < 256) bs"
  shows "b64_decode (b64_encode bs) = Some bs"
proof -
  have "filter (\<lambda>c. c \<noteq> CHR 0x0A \<and> c \<noteq> CHR 0x0D) (b64_encode bs) = b64_encode bs"
    using b64_encode_chars [OF assms] b64_alphabet_no by (auto intro!: filter_True)
  moreover have "map b64_val (b64_encode bs) = map Some (sextets bs)"
    using sextets_lt [OF assms] by (auto simp: b64_encode_sextets list_all_iff b64_val_char)
  ultimately show ?thesis
    using b64_groups_sextets [OF assms] by (simp add: b64_decode_def list_all_iff comp_def)
qed

lemma b64_encode_no_dot: "list_all (\<lambda>b. b < 256) bs \<Longrightarrow> CHR ''.'' \<notin> set (b64_encode bs)"
  using b64_encode_chars b64_alphabet_no by blast

end
