(* ===== verification/Go_Time.thy ===== *)
theory Go_Time
  imports Go_Strings
begin

text \<open>
  Instants of time and their JSON form: an instant is its number of nanoseconds since the Unix
  epoch, and \<^verbatim>\<open>time.Time\<close> in UTC is written in RFC 3339 with the fraction of a second without
  trailing zeros. The calendar is the proleptic Gregorian one, computed from the day number in
  eras of 400 years.
\<close>

type_synonym time = int

definition Unix :: "time \<Rightarrow> int" where
  "Unix t = t div 1000000000"

text \<open>Year, month and day of a day number counted from 1970-01-01.\<close>

definition civil_from_days :: "int \<Rightarrow> int \<times> int \<times> int" where
  "civil_from_days d =
     (let z = d + 719468;
          era = z div 146097;
          doe = z mod 146097;
          yoe = (doe - doe div 1460 + doe div 36524 - doe div 146096) div 365;
          doy = doe - (365 * yoe + yoe div 4 - yoe div 100);
          mp = (5 * doy + 2) div 153;
          day = doy - (153 * mp + 2) div 5 + 1;
          m = (if mp < 10 then mp + 3 else mp - 9);
          y = yoe + era * 400
      in (if m \<le> 2 then y + 1 else y, m, day))"

definition pad_dec :: "nat \<Rightarrow> int \<Rightarrow> string" where
  "pad_dec w n = (let s = dec (nat n) in replicate (w - length s) (CHR ''0'') @ s)"

definition fraction :: "int \<Rightarrow> string" where
  "fraction ns =
     (if ns = 0 then []
      else ''.'' @ rev (dropWhile (\<lambda>c. c = CHR ''0'') (rev (pad_dec 9 ns))))"

definition rfc3339 :: "time \<Rightarrow> string" where
  "rfc3339 t =
     (let s = Unix t; ns = t mod 1000000000; sod = s mod 86400;
          (y, m, d) = civil_from_days (s div 86400)
      in pad_dec 4 y @ ''-'' @ pad_dec 2 m @ ''-'' @ pad_dec 2 d @ ''T'' @
         pad_dec 2 (sod div 3600) @ '':'' @ pad_dec 2 (sod div 60 mod 60) @ '':'' @
         pad_dec 2 (sod mod 60) @ fraction ns @ ''Z'')"

lemma pad_dec_chars: "c \<in> set (pad_dec w n) \<Longrightarrow> is_digit c"
  by (auto simp: pad_dec_def Let_def is_digit_def dest: dec_set_digits)

lemma rfc3339_chars: "c \<in> set (rfc3339 t) \<Longrightarrow> is_digit c \<or> c \<in> set ''-:.TZ''"
  by (auto simp: rfc3339_def fraction_def Let_def split: prod.splits if_splits
      dest!: pad_dec_chars set_dropWhileD)

end
