(* ===== verification/Token.thy ===== *)
theory Token
  imports Sha256 Base64 Json_Codec Go_Time
begin

text \<open>
  The bearer tokens of the control plane, \<^verbatim>\<open>services/api/internal/auth/token.go\<close>: HS256 JSON web
  tokens, signed with HMAC-SHA-256. The theorems: an issued token verifies until it expires and
  never after, a token that verifies carries the signature of its own contents, and which error
  each other token gets.
\<close>

section \<open>Operations\<close>

datatype token_error = ErrMalformed | ErrSignature | ErrExpired

fun token_error_text :: "token_error \<Rightarrow> string" where
  "token_error_text ErrMalformed = ''malformed token''"
| "token_error_text ErrSignature = ''invalid token signature''"
| "token_error_text ErrExpired = ''token expired''"

record claims =
  c_Sub :: string
  c_Iat :: int
  c_Exp :: int

definition bytes :: "string \<Rightarrow> nat list" where
  "bytes s = map of_char s"

definition text_of :: "nat list \<Rightarrow> string" where
  "text_of bs = map char_of bs"

definition b64 :: "string \<Rightarrow> string" where
  "b64 s = b64_encode (bytes s)"

definition sign :: "string \<Rightarrow> string \<Rightarrow> string" where
  "sign secret signingInput = b64_encode (hmac_sha256 (bytes secret) (bytes signingInput))"

definition header_json :: json where
  "header_json = JObj [(''alg'', JStr ''HS256''), (''typ'', JStr ''JWT'')]"

definition claims_json :: "claims \<Rightarrow> json" where
  "claims_json c = JObj [(''sub'', JStr (c_Sub c)), (''iat'', JInt (c_Iat c)), (''exp'', JInt (c_Exp c))]"

definition Issue :: "string \<Rightarrow> string \<Rightarrow> int \<Rightarrow> time \<Rightarrow> string" where
  "Issue secret sub ttl now =
     (let h = json_enc header_json;
          p = json_enc (claims_json \<lparr>c_Sub = sub, c_Iat = Unix now, c_Exp = Unix (now + ttl)\<rparr>);
          signingInput = b64 h @ ''.'' @ b64 p
      in signingInput @ ''.'' @ sign secret signingInput)"

text \<open>\<^verbatim>\<open>json.Unmarshal\<close> into \<^verbatim>\<open>Claims\<close>.\<close>

definition decode_claims :: "string \<Rightarrow> claims option" where
  "decode_claims s =
     (case json_unmarshal s of
        Some (JObj ms) \<Rightarrow>
          (let names = [''sub'', ''iat'', ''exp'']; (sub, e1) = str_field names ''sub'' ms;
               (iat, e2) = int_field names ''iat'' ms; (ex, e3) = int_field names ''exp'' ms
           in if e1 \<or> e2 \<or> e3 then None else Some \<lparr>c_Sub = sub, c_Iat = iat, c_Exp = ex\<rparr>)
      | Some JNull \<Rightarrow> Some \<lparr>c_Sub = [], c_Iat = 0, c_Exp = 0\<rparr>
      | _ \<Rightarrow> None)"

definition Verify :: "string \<Rightarrow> string \<Rightarrow> time \<Rightarrow> (token_error, claims) result" where
  "Verify secret token now =
     (case Split token (CHR ''.'') of
        [p0, p1, p2] \<Rightarrow>
          if sign secret (p0 @ ''.'' @ p1) \<noteq> p2 then Inl ErrSignature
          else (case b64_decode p1 of
                  None \<Rightarrow> Inl ErrMalformed
                | Some payload \<Rightarrow>
                    (case decode_claims (text_of payload) of
                       None \<Rightarrow> Inl ErrMalformed
                     | Some c \<Rightarrow> if Unix now \<ge> c_Exp c then Inl ErrExpired else Inr c))
      | _ \<Rightarrow> Inl ErrMalformed)"

section \<open>Encoding\<close>

lemma bytes_lt: "list_all (\<lambda>b. b < 256) (bytes s)"
  by (auto simp: bytes_def list_all_iff)

lemma text_of_bytes [simp]: "text_of (bytes s) = s"
  by (induction s) (auto simp: text_of_def bytes_def)

lemma b64_no_dot [simp]: "CHR ''.'' \<notin> set (b64 s)"
  unfolding b64_def by (rule b64_encode_no_dot [OF bytes_lt])

lemma sign_no_dot [simp]: "CHR ''.'' \<notin> set (sign secret s)"
  unfolding sign_def hmac_sha256_def Let_def
  by (rule b64_encode_no_dot) (auto simp: list_all_iff dest: sha256_bytes)

lemma b64_decode_b64: "b64_decode (b64 s) = Some (bytes s)"
  unfolding b64_def by (rule b64_decode_encode [OF bytes_lt])

lemma claims_json_unmarshal:
  assumes "valid_utf8 (c_Sub c)" "int64 (c_Iat c)" "int64 (c_Exp c)"
  shows "decode_claims (json_enc (claims_json c)) = Some c"
proof -
  have "json_unmarshal (json_enc (claims_json c)) = Some (claims_json c)"
    by (rule json_unmarshal_enc) (use assms in \<open>simp_all add: claims_json_def JInt_wf valid_utf8_ascii\<close>,
      simp_all add: JInt_def)
  then show ?thesis
    using assms by (simp add: decode_claims_def claims_json_def str_field_def int_field_def
        key_matches_def JInt_def parse_int64_itoa)
qed

lemma Issue_parts:
  "\<exists>p1. Split (Issue secret sub ttl now) (CHR ''.'') =
     [b64 (json_enc header_json), p1, sign secret (b64 (json_enc header_json) @ ''.'' @ p1)] \<and>
     p1 = b64 (json_enc (claims_json \<lparr>c_Sub = sub, c_Iat = Unix now, c_Exp = Unix (now + ttl)\<rparr>))"
proof -
  define p0 where "p0 = b64 (json_enc header_json)"
  define p1 where "p1 = b64 (json_enc (claims_json \<lparr>c_Sub = sub, c_Iat = Unix now, c_Exp = Unix (now + ttl)\<rparr>))"
  define p2 where "p2 = sign secret (p0 @ ''.'' @ p1)"
  have nd: "CHR ''.'' \<notin> set p0" "CHR ''.'' \<notin> set p1" "CHR ''.'' \<notin> set p2"
    unfolding p0_def p1_def p2_def by (rule b64_no_dot, rule b64_no_dot, rule sign_no_dot)
  have "Issue secret sub ttl now = Join [p0, p1, p2] ''.''"
    unfolding Issue_def Let_def p0_def [symmetric] p1_def [symmetric] p2_def by simp
  moreover have "Split (Join [p0, p1, p2] ''.'') (CHR ''.'') = [p0, p1, p2]"
    by (rule Split_Join) (use nd in auto)
  ultimately show ?thesis unfolding p0_def [symmetric] p1_def [symmetric] p2_def by simp
qed

lemma Verify_cases:
  "Verify secret token now = Inr c \<longleftrightarrow>
     (\<exists>p0 p1 payload. token = p0 @ ''.'' @ p1 @ ''.'' @ sign secret (p0 @ ''.'' @ p1) \<and>
        CHR ''.'' \<notin> set p0 \<and> CHR ''.'' \<notin> set p1 \<and> b64_decode p1 = Some payload \<and>
        decode_claims (text_of payload) = Some c \<and> Unix now < c_Exp c)"
  (is "?V \<longleftrightarrow> ?E")
proof
  assume ?V
  then obtain p0 p1 p2 where sp: "Split token (CHR ''.'') = [p0, p1, p2]"
    by (auto simp: Verify_def split: list.splits)
  then have tok: "token = p0 @ ''.'' @ p1 @ ''.'' @ p2" using Join_Split [of token "CHR ''.''"] by simp
  have nd: "CHR ''.'' \<notin> set p0" "CHR ''.'' \<notin> set p1"
    using Split_no_sep [of _ token "CHR ''.''"] sp by auto
  from \<open>?V\<close> sp have sg: "sign secret (p0 @ ''.'' @ p1) = p2" by (auto simp: Verify_def split: if_splits)
  with \<open>?V\<close> sp have "\<exists>payload. b64_decode p1 = Some payload \<and>
      decode_claims (text_of payload) = Some c \<and> Unix now < c_Exp c"
    by (auto simp: Verify_def split: option.splits if_splits)
  with tok sg nd show ?E by blast
next
  assume ?E
  then obtain p0 p1 payload where e: "token = p0 @ ''.'' @ p1 @ ''.'' @ sign secret (p0 @ ''.'' @ p1)"
    "CHR ''.'' \<notin> set p0" "CHR ''.'' \<notin> set p1" "b64_decode p1 = Some payload"
    "decode_claims (text_of payload) = Some c" "Unix now < c_Exp c" by blast
  let ?p2 = "sign secret (p0 @ ''.'' @ p1)"
  have j: "token = Join [p0, p1, ?p2] ''.''" using e(1) by simp
  have "Split token (CHR ''.'') = [p0, p1, ?p2]"
    unfolding j by (rule Split_Join) (use e(2,3) sign_no_dot [of secret "p0 @ ''.'' @ p1"] in auto)
  with e show ?V by (simp add: Verify_def)
qed

lemma issued_verifies:
  assumes "valid_utf8 sub" "int64 (Unix now)" "int64 (Unix (now + ttl))"
  shows "Verify secret (Issue secret sub ttl now) later =
    (if Unix later < Unix (now + ttl)
     then Inr \<lparr>c_Sub = sub, c_Iat = Unix now, c_Exp = Unix (now + ttl)\<rparr> else Inl ErrExpired)"
proof -
  let ?c = "\<lparr>c_Sub = sub, c_Iat = Unix now, c_Exp = Unix (now + ttl)\<rparr>"
  have d: "decode_claims (json_enc (claims_json ?c)) = Some ?c"
    by (rule claims_json_unmarshal) (use assms in simp_all)
  obtain p1 where p1: "Split (Issue secret sub ttl now) (CHR ''.'') =
      [b64 (json_enc header_json), p1, sign secret (b64 (json_enc header_json) @ ''.'' @ p1)]"
    "p1 = b64 (json_enc (claims_json ?c))" using Issue_parts [of secret sub ttl now] by blast
  have "b64_decode p1 = Some (bytes (json_enc (claims_json ?c)))" using p1(2) b64_decode_b64 by simp
  then show ?thesis using p1(1) d by (simp add: Verify_def)
qed

lemma b64_ascii: "list_all (\<lambda>b. b < 256) bs \<Longrightarrow> list_all (\<lambda>c. byte c < 128) (b64_encode bs)"
proof -
  assume "list_all (\<lambda>b. b < 256) bs"
  moreover have "list_all (\<lambda>c. byte c < 128) b64_alphabet" by (simp add: b64_alphabet_def)
  ultimately show ?thesis using b64_encode_chars [of bs] by (auto simp: list_all_iff)
qed

lemma Issue_utf8: "valid_utf8 (Issue secret sub ttl now)"
proof (rule valid_utf8_ascii)
  have "list_all (\<lambda>c. byte c < 128) (b64 s)" for s unfolding b64_def by (rule b64_ascii [OF bytes_lt])
  moreover have "list_all (\<lambda>c. byte c < 128) (sign secret s)" for s
    unfolding sign_def hmac_sha256_def Let_def
    by (rule b64_ascii) (auto simp: list_all_iff dest: sha256_bytes)
  ultimately show "list_all (\<lambda>c. byte c < 128) (Issue secret sub ttl now)"
    by (simp add: Issue_def Let_def)
qed

section \<open>Properties\<close>

text \<open>
  C23. A token is good for exactly its lifetime: verified with the secret it was issued with, an
  issued token gives back its subject and its two times as long as the clock, in whole seconds,
  has not reached the expiry, and is refused as expired from then on.
\<close>

theorem token_lifetime:
  assumes "valid_utf8 sub" "int64 (Unix now)" "int64 (Unix (now + ttl))"
  shows "Verify secret (Issue secret sub ttl now) later =
    (if Unix later < Unix (now + ttl)
     then Inr \<lparr>c_Sub = sub, c_Iat = Unix now, c_Exp = Unix (now + ttl)\<rparr> else Inl ErrExpired)"
  by (rule issued_verifies [OF assms])

theorem token_lifetime_witness:
  "Verify ''k'' (Issue ''k'' ''a@b.c'' 86400000000000 1000000000) 2000000000 =
     Inr \<lparr>c_Sub = ''a@b.c'', c_Iat = 1, c_Exp = 86401\<rparr> \<and>
   Verify ''k'' (Issue ''k'' ''a@b.c'' 86400000000000 1000000000) 86401000000000 = Inl ErrExpired"
  using token_lifetime [of "''a@b.c''" 1000000000 86400000000000 "''k''" 2000000000]
    token_lifetime [of "''a@b.c''" 1000000000 86400000000000 "''k''" 86401000000000]
  by (simp add: Unix_def int64_def valid_utf8_ascii)

text \<open>
  C18. Only signed tokens verify: a token is accepted exactly when it has three parts, the last
  is the HMAC of the first two under the secret, the second decodes to JSON claims, and their
  expiry lies ahead; the claims returned are the ones that were signed. So an accepted token
  whose first two parts were never signed contains a forged HMAC.
\<close>

theorem accepted_iff_signed:
  "Verify secret token now = Inr c \<longleftrightarrow>
     (\<exists>p0 p1 payload. token = p0 @ ''.'' @ p1 @ ''.'' @ sign secret (p0 @ ''.'' @ p1) \<and>
        CHR ''.'' \<notin> set p0 \<and> CHR ''.'' \<notin> set p1 \<and> b64_decode p1 = Some payload \<and>
        decode_claims (text_of payload) = Some c \<and> Unix now < c_Exp c)"
  by (rule Verify_cases)

text \<open>
  Verification checks the signature before it looks at the contents: a token whose last part
  is not the signature of the rest is refused as badly signed, whatever its payload and expiry,
  and a token without exactly two dots is malformed.
\<close>

theorem signature_checked_first:
  "(CHR ''.'' \<notin> set p0 \<longrightarrow> CHR ''.'' \<notin> set p1 \<longrightarrow> CHR ''.'' \<notin> set p2 \<longrightarrow>
      p2 \<noteq> sign secret (p0 @ ''.'' @ p1) \<longrightarrow>
      Verify secret (p0 @ ''.'' @ p1 @ ''.'' @ p2) now = Inl ErrSignature) \<and>
   (length (filter (\<lambda>c. c = CHR ''.'') token) \<noteq> 2 \<longrightarrow> Verify secret token now = Inl ErrMalformed)"
proof -
  have "Verify secret (p0 @ ''.'' @ p1 @ ''.'' @ p2) now = Inl ErrSignature"
    if "CHR ''.'' \<notin> set p0" "CHR ''.'' \<notin> set p1" "CHR ''.'' \<notin> set p2" "p2 \<noteq> sign secret (p0 @ ''.'' @ p1)"
  proof -
    have "Split (Join [p0, p1, p2] ''.'') (CHR ''.'') = [p0, p1, p2]"
      by (rule Split_Join) (use that in auto)
    then show ?thesis using that(4) by (simp add: Verify_def)
  qed
  moreover have "length (Split s (CHR ''.'')) = Suc (length (filter (\<lambda>c. c = CHR ''.'') s))" for s
    by (induction s) (auto split: list.splits)
  then have "Verify secret token now = Inl ErrMalformed"
    if "length (filter (\<lambda>c. c = CHR ''.'') token) \<noteq> 2"
    using that by (auto simp: Verify_def split: list.splits) (metis length_Cons list.size(3) numeral_2_eq_2 Suc_inject)+
  ultimately show ?thesis by blast
qed

theorem signature_checked_first_witness:
  "Verify ''k'' ''a.b'' 0 = Inl ErrMalformed"
  using signature_checked_first [of "[]" "[]" "[]" "''k''" 0 "''a.b''"] by simp

end
