(* ===== verification/Domain.thy ===== *)
theory Domain
  imports Json_Codec Go_Time
begin

text \<open>
  The domain types of the control plane that its handlers use,
  \<^verbatim>\<open>services/api/internal/domain/types.go\<close>, with their JSON form, and the region catalog,
  \<^verbatim>\<open>services/api/internal/regions/regions.go\<close>. A named string type with constants is a datatype of
  these constants; a slice that may be nil is an option.
\<close>

section \<open>Deployments\<close>

datatype deploy_status =
  DeployPending | DeployBuilding | DeployDeploying | DeployLive | DeployFailed | DeployStopped

fun deploy_status_text :: "deploy_status \<Rightarrow> string" where
  "deploy_status_text DeployPending = ''pending''"
| "deploy_status_text DeployBuilding = ''building''"
| "deploy_status_text DeployDeploying = ''deploying''"
| "deploy_status_text DeployLive = ''live''"
| "deploy_status_text DeployFailed = ''failed''"
| "deploy_status_text DeployStopped = ''stopped''"

record deployment =
  d_ID :: string
  d_ServiceID :: string
  d_EnvID :: string
  d_Image :: string
  d_Status :: deploy_status
  d_CreatedAt :: time
  d_FinishedAt :: "time option"

text \<open>The members of a deployment's object; \<^verbatim>\<open>finished_at\<close> is left out when nil.\<close>

definition deployment_members :: "deployment \<Rightarrow> (string \<times> json) list" where
  "deployment_members d =
     [(''id'', JStr (d_ID d)), (''service_id'', JStr (d_ServiceID d)), (''env_id'', JStr (d_EnvID d)),
      (''image'', JStr (d_Image d)), (''status'', JStr (deploy_status_text (d_Status d))),
      (''created_at'', JStr (rfc3339 (d_CreatedAt d)))] @
     (case d_FinishedAt d of None \<Rightarrow> [] | Some t \<Rightarrow> [(''finished_at'', JStr (rfc3339 t))])"

section \<open>Regions\<close>

datatype residency_rule = ResidencyNone | ResidencySoft | ResidencyHard

fun residency_text :: "residency_rule \<Rightarrow> string" where
  "residency_text ResidencyNone = ''none''"
| "residency_text ResidencySoft = ''soft''"
| "residency_text ResidencyHard = ''hard''"

datatype data_class = DataClassPersonal | DataClassSensitive | DataClassPayment | DataClassTelemetry

fun data_class_text :: "data_class \<Rightarrow> string" where
  "data_class_text DataClassPersonal = ''personal''"
| "data_class_text DataClassSensitive = ''sensitive''"
| "data_class_text DataClassPayment = ''payment''"
| "data_class_text DataClassTelemetry = ''telemetry''"

record data_class_pin =
  pin_Class :: data_class
  pin_Residency :: residency_rule

record jurisdiction_profile =
  jp_CountryCode :: string
  jp_ResidencyRule :: residency_rule
  jp_TransferMechanism :: string
  jp_BreachAuthority :: string
  jp_BreachWindowHrs :: int
  jp_PaymentGateway :: string
  jp_Currency :: string
  jp_TaxModel :: string
  jp_DataClassPinning :: "data_class_pin list option"

record region =
  rg_ID :: string
  rg_Slug :: string
  rg_DisplayName :: string
  rg_Jurisdiction :: jurisdiction_profile

datatype region_status = StatusAvailable | StatusPlanned

fun region_status_text :: "region_status \<Rightarrow> string" where
  "region_status_text StatusAvailable = ''available''"
| "region_status_text StatusPlanned = ''planned''"

record region_entry =
  en_Region :: region
  en_Status :: region_status

definition hard_pin :: "data_class \<Rightarrow> data_class_pin" where
  "hard_pin c = \<lparr>pin_Class = c, pin_Residency = ResidencyHard\<rparr>"

definition india :: jurisdiction_profile where
  "india = \<lparr>jp_CountryCode = ''IN'', jp_ResidencyRule = ResidencySoft,
     jp_TransferMechanism = ''consent'', jp_BreachAuthority = ''DPB'', jp_BreachWindowHrs = 72,
     jp_PaymentGateway = ''razorpay'', jp_Currency = ''INR'', jp_TaxModel = ''gst'',
     jp_DataClassPinning = Some [hard_pin DataClassPayment]\<rparr>"

definition catalog :: "region_entry list" where
  "catalog =
    [\<lparr>en_Region = \<lparr>rg_ID = ''in-mum-1'', rg_Slug = ''in-mum-1'', rg_DisplayName = ''Mumbai, India'',
        rg_Jurisdiction = india\<rparr>, en_Status = StatusAvailable\<rparr>,
     \<lparr>en_Region = \<lparr>rg_ID = ''in-hyd-1'', rg_Slug = ''in-hyd-1'', rg_DisplayName = ''Hyderabad, India'',
        rg_Jurisdiction = india\<rparr>, en_Status = StatusPlanned\<rparr>,
     \<lparr>en_Region = \<lparr>rg_ID = ''ae-dxb-1'', rg_Slug = ''ae-dxb-1'', rg_DisplayName = ''Dubai, UAE'',
        rg_Jurisdiction = \<lparr>jp_CountryCode = ''AE'', jp_ResidencyRule = ResidencySoft,
          jp_TransferMechanism = ''adequacy'', jp_BreachAuthority = ''DIFC'', jp_BreachWindowHrs = 72,
          jp_PaymentGateway = ''paytabs'', jp_Currency = ''AED'', jp_TaxModel = ''vat_uae'',
          jp_DataClassPinning = None\<rparr>\<rparr>, en_Status = StatusPlanned\<rparr>,
     \<lparr>en_Region = \<lparr>rg_ID = ''sa-ruh-1'', rg_Slug = ''sa-ruh-1'', rg_DisplayName = ''Riyadh, Saudi Arabia'',
        rg_Jurisdiction = \<lparr>jp_CountryCode = ''SA'', jp_ResidencyRule = ResidencyHard,
          jp_TransferMechanism = ''authorization'', jp_BreachAuthority = ''SDAIA'', jp_BreachWindowHrs = 72,
          jp_PaymentGateway = ''paytabs'', jp_Currency = ''SAR'', jp_TaxModel = ''vat_ksa_zatca'',
          jp_DataClassPinning = Some (map hard_pin
            [DataClassPersonal, DataClassSensitive, DataClassPayment])\<rparr>\<rparr>, en_Status = StatusPlanned\<rparr>]"

text \<open>\<^verbatim>\<open>Catalog\<close> returns a copy, so that callers cannot change the catalog.\<close>

definition Catalog :: "region_entry list" where
  "Catalog = catalog"

section \<open>Regions on the wire\<close>

definition pin_json :: "data_class_pin \<Rightarrow> json" where
  "pin_json p = JObj [(''class'', JStr (data_class_text (pin_Class p))),
     (''residency'', JStr (residency_text (pin_Residency p)))]"

definition jurisdiction_json :: "jurisdiction_profile \<Rightarrow> json" where
  "jurisdiction_json j =
     JObj [(''country_code'', JStr (jp_CountryCode j)),
       (''residency_rule'', JStr (residency_text (jp_ResidencyRule j))),
       (''transfer_mechanism'', JStr (jp_TransferMechanism j)),
       (''breach_authority'', JStr (jp_BreachAuthority j)),
       (''breach_window_hrs'', JInt (jp_BreachWindowHrs j)),
       (''payment_gateway'', JStr (jp_PaymentGateway j)), (''currency'', JStr (jp_Currency j)),
       (''tax_model'', JStr (jp_TaxModel j)),
       (''data_class_pinning'',
         case jp_DataClassPinning j of None \<Rightarrow> JNull | Some ps \<Rightarrow> JArr (map pin_json ps))]"

text \<open>The embedded region's members come first, then the status.\<close>

definition entry_json :: "region_entry \<Rightarrow> json" where
  "entry_json e =
     (let r = en_Region e in
      JObj [(''id'', JStr (rg_ID r)), (''slug'', JStr (rg_Slug r)),
        (''display_name'', JStr (rg_DisplayName r)), (''jurisdiction'', jurisdiction_json (rg_Jurisdiction r)),
        (''status'', JStr (region_status_text (en_Status e)))])"

definition regions_json :: json where
  "regions_json = JObj [(''regions'', JArr (map entry_json Catalog))]"

section \<open>Well-formedness on the wire\<close>

lemma rfc3339_utf8: "valid_utf8 (rfc3339 t)"
proof (rule valid_utf8_ascii)
  show "list_all (\<lambda>c. byte c < 128) (rfc3339 t)"
    by (auto simp: list_all_iff is_digit_def dest!: rfc3339_chars)
qed

lemma status_utf8: "valid_utf8 (deploy_status_text st)"
  by (cases st) (simp_all add: valid_utf8_ascii)

lemma deployment_wf:
  assumes "list_all valid_utf8 [d_ID d, d_ServiceID d, d_EnvID d, d_Image d]"
  shows "list_all (\<lambda>(k, v). valid_utf8 k \<and> json_wf v) (deployment_members d)"
  using assms
  by (auto simp: deployment_members_def rfc3339_utf8 status_utf8 valid_utf8_ascii split: option.splits)

lemma deployment_depth: "(k, v) \<in> set (deployment_members d) \<Longrightarrow> json_depth v = 0"
  by (auto simp: deployment_members_def split: option.splits)

section \<open>Properties\<close>

definition pinned_hard :: "jurisdiction_profile \<Rightarrow> data_class \<Rightarrow> bool" where
  "pinned_hard j c \<longleftrightarrow> (case jp_DataClassPinning j of None \<Rightarrow> False | Some ps \<Rightarrow> hard_pin c \<in> set ps)"

lemma regions_json_wf: "json_wf regions_json"
  by (simp add: regions_json_def entry_json_def jurisdiction_json_def pin_json_def hard_pin_def india_def
      Catalog_def catalog_def Let_def JInt_wf valid_utf8_ascii)

lemma regions_json_depth: "json_depth regions_json \<le> 10000"
  by (simp add: regions_json_def entry_json_def jurisdiction_json_def pin_json_def hard_pin_def india_def
      Catalog_def catalog_def Let_def JInt_def)


end
