(* ===== verification/Deploystore.thy ===== *)
theory Deploystore
  imports Domain "HOL-Library.Multiset"
begin

text \<open>
  The in-memory store of deployments, \<^verbatim>\<open>services/api/internal/deploystore/store.go\<close>. Its lock
  makes each operation atomic. \<^verbatim>\<open>sort.Slice\<close> is not stable: the sort is a parameter, of which only
  what its documentation promises is assumed. The theorems: the store lists exactly what was
  created for a service, newest first, whatever else was created in between.
\<close>

section \<open>State and operations\<close>

record store =
  byID :: "string \<rightharpoonup> deployment"
  bySvc :: "string \<Rightarrow> string list"     \<comment> \<open>a missing key of the Go map reads as the empty slice\<close>

definition NewStore :: store where
  "NewStore = \<lparr>byID = Map.empty, bySvc = (\<lambda>_. [])\<rparr>"

definition Create :: "store \<Rightarrow> deployment \<Rightarrow> store" where
  "Create s d =
     \<lparr>byID = (byID s)(d_ID d \<mapsto> d),
      bySvc = (bySvc s)(d_ServiceID d := bySvc s (d_ServiceID d) @ [d_ID d])\<rparr>"

text \<open>A missing key of \<^verbatim>\<open>byID\<close> reads as the zero deployment.\<close>

definition zero_deployment :: deployment where
  "zero_deployment = \<lparr>d_ID = [], d_ServiceID = [], d_EnvID = [], d_Image = [],
     d_Status = DeployPending, d_CreatedAt = 0, d_FinishedAt = None\<rparr>"

definition get_deployment :: "store \<Rightarrow> string \<Rightarrow> deployment" where
  "get_deployment s i = (case byID s i of Some d \<Rightarrow> d | None \<Rightarrow> zero_deployment)"

definition newer :: "deployment \<Rightarrow> deployment \<Rightarrow> bool" where
  "newer d e \<longleftrightarrow> d_CreatedAt d > d_CreatedAt e"

definition ListByService ::
  "((deployment \<Rightarrow> deployment \<Rightarrow> bool) \<Rightarrow> deployment list \<Rightarrow> deployment list) \<Rightarrow> store \<Rightarrow> string \<Rightarrow>
   deployment list" where
  "ListByService slice_sort s svc = slice_sort newer (map (get_deployment s) (bySvc s svc))"

section \<open>What sorting promises\<close>

text \<open>
  \<^verbatim>\<open>sort.Slice\<close> with a strict weak order permutes the slice so that no element is less than one
  before it.
\<close>

locale slice_sorting =
  fixes slice_sort :: "('a \<Rightarrow> 'a \<Rightarrow> bool) \<Rightarrow> 'a list \<Rightarrow> 'a list"
  assumes sort_perm: "mset (slice_sort lt xs) = mset xs"
    and sort_ordered:
      "(\<And>x y. lt x y \<Longrightarrow> \<not> lt y x) \<Longrightarrow>
       (\<And>x y z. \<not> lt x y \<Longrightarrow> \<not> lt y z \<Longrightarrow> \<not> lt x z) \<Longrightarrow>
       sorted_wrt (\<lambda>x y. \<not> lt y x) (slice_sort lt xs)"
begin

lemma sort_set: "set (slice_sort lt xs) = set xs"
  by (metis sort_perm set_mset_mset)

end

text \<open>Insertion sort is one such sort.\<close>

fun insert_by :: "('a \<Rightarrow> 'a \<Rightarrow> bool) \<Rightarrow> 'a \<Rightarrow> 'a list \<Rightarrow> 'a list" where
  "insert_by lt x [] = [x]"
| "insert_by lt x (y # ys) = (if lt y x then y # insert_by lt x ys else x # y # ys)"

definition insertion_sort :: "('a \<Rightarrow> 'a \<Rightarrow> bool) \<Rightarrow> 'a list \<Rightarrow> 'a list" where
  "insertion_sort lt xs = foldr (insert_by lt) xs []"

lemma mset_insert_by: "mset (insert_by lt x ys) = add_mset x (mset ys)"
  by (induction ys) auto

lemma set_insert_by: "set (insert_by lt x ys) = insert x (set ys)"
  by (induction ys) auto

lemma insert_by_ordered:
  assumes asym: "\<And>x y. lt x y \<Longrightarrow> \<not> lt y x"
    and trans: "\<And>x y z. \<not> lt x y \<Longrightarrow> \<not> lt y z \<Longrightarrow> \<not> lt x z"
  shows "sorted_wrt (\<lambda>x y. \<not> lt y x) ys \<Longrightarrow> sorted_wrt (\<lambda>x y. \<not> lt y x) (insert_by lt x ys)"
proof (induction ys)
  case (Cons y ys)
  show ?case
  proof (cases "lt y x")
    case True
    with Cons asym [OF True] show ?thesis by (auto simp: set_insert_by)
  next
    case False
    then have "\<not> lt z x" if "z \<in> set ys" for z
      using trans [of z y x] Cons.prems that by auto
    with False Cons.prems show ?thesis by auto
  qed
qed simp

interpretation isort: slice_sorting insertion_sort
proof unfold_locales
  fix lt :: "'a \<Rightarrow> 'a \<Rightarrow> bool" and xs
  show "mset (insertion_sort lt xs) = mset xs"
    by (induction xs) (auto simp: insertion_sort_def mset_insert_by)
next
  fix lt :: "'a \<Rightarrow> 'a \<Rightarrow> bool" and xs
  assume a: "\<And>x y. lt x y \<Longrightarrow> \<not> lt y x"
    and t: "\<And>x y z. \<not> lt x y \<Longrightarrow> \<not> lt y z \<Longrightarrow> \<not> lt x z"
  show "sorted_wrt (\<lambda>x y. \<not> lt y x) (insertion_sort lt xs)"
  proof (induction xs)
    case (Cons x xs)
    from insert_by_ordered [where x = x, OF a t Cons.IH] show ?case by (simp add: insertion_sort_def)
  qed (simp add: insertion_sort_def)
qed

section \<open>The contents of the store\<close>

definition created :: "deployment list \<Rightarrow> store" where
  "created ds = foldl Create NewStore ds"

lemma created_snoc: "created (ds @ [d]) = Create (created ds) d"
  by (simp add: created_def)

lemma created_bySvc: "bySvc (created ds) svc = map d_ID (filter (\<lambda>d. d_ServiceID d = svc) ds)"
  by (induction ds rule: rev_induct) (auto simp: created_snoc Create_def, simp add: created_def NewStore_def)

lemma created_byID: "distinct (map d_ID ds) \<Longrightarrow> d \<in> set ds \<Longrightarrow> byID (created ds) (d_ID d) = Some d"
  by (induction ds rule: rev_induct) (auto simp: created_snoc Create_def, metis imageI)

lemma created_get:
  assumes "distinct (map d_ID ds)"
  shows "map (get_deployment (created ds)) (bySvc (created ds) svc) = filter (\<lambda>d. d_ServiceID d = svc) ds"
  unfolding created_bySvc map_map
  by (rule map_idI) (use created_byID [OF assms] in \<open>auto simp: get_deployment_def\<close>)

lemma created_listed:
  assumes "slice_sorting sorter" and "distinct (map d_ID ds)"
  shows "mset (ListByService sorter (created ds) svc) = mset (filter (\<lambda>d. d_ServiceID d = svc) ds) \<and>
    sorted_wrt (\<lambda>d e. d_CreatedAt d \<ge> d_CreatedAt e) (ListByService sorter (created ds) svc)"
proof -
  have l: "ListByService sorter (created ds) svc = sorter newer (filter (\<lambda>d. d_ServiceID d = svc) ds)"
    by (simp add: ListByService_def created_get [OF assms(2)])
  have "sorted_wrt (\<lambda>d e. \<not> newer e d) (sorter newer (filter (\<lambda>d. d_ServiceID d = svc) ds))"
    by (rule slice_sorting.sort_ordered [OF assms(1)]) (auto simp: newer_def)
  then show ?thesis
    unfolding l by (simp add: slice_sorting.sort_perm [OF assms(1)] newer_def not_less)
qed

text \<open>
  The store lists what it was given: after any deployments with distinct ids have been
  created, listing a service gives exactly the deployments of that service, each once, and no
  deployment in the list is newer than one before it.
\<close>

theorem ListByService_complete:
  assumes "slice_sorting sorter" and "distinct (map d_ID ds)"
  shows "mset (ListByService sorter (created ds) svc) = mset (filter (\<lambda>d. d_ServiceID d = svc) ds) \<and>
    sorted_wrt (\<lambda>d e. d_CreatedAt d \<ge> d_CreatedAt e) (ListByService sorter (created ds) svc)"
  by (rule created_listed [OF assms])

definition demo_dep :: "string \<Rightarrow> string \<Rightarrow> time \<Rightarrow> deployment" where
  "demo_dep i svc t = zero_deployment\<lparr>d_ID := i, d_ServiceID := svc, d_CreatedAt := t\<rparr>"

theorem ListByService_complete_witness:
  "mset (ListByService insertion_sort (created [demo_dep ''a'' ''web'' 1, demo_dep ''b'' ''api'' 2, demo_dep ''c'' ''web'' 3]) ''web'') =
     mset [demo_dep ''a'' ''web'' 1, demo_dep ''c'' ''web'' 3]"
  using ListByService_complete [OF isort.slice_sorting_axioms,
      of "[demo_dep ''a'' ''web'' 1, demo_dep ''b'' ''api'' 2, demo_dep ''c'' ''web'' 3]" "''web''"]
  by (simp add: demo_dep_def)

text \<open>
  Distinct ids are needed: when a second deployment of a service is created with the id of
  an earlier one, the list of the service has the new deployment twice and the old one is lost.
\<close>

theorem duplicate_id_loses_deployment:
  "d_ID e = d_ID d \<Longrightarrow> d_ServiceID d = svc \<Longrightarrow> d_ServiceID e = svc \<Longrightarrow>
     ListByService insertion_sort (created [d, e]) svc = [e, e]"
  by (simp add: ListByService_def created_def Create_def NewStore_def get_deployment_def
      insertion_sort_def newer_def)

theorem duplicate_id_loses_deployment_witness:
  "ListByService insertion_sort (created [demo_dep ''a'' ''web'' 1, demo_dep ''a'' ''web'' 2]) ''web'' =
     [demo_dep ''a'' ''web'' 2, demo_dep ''a'' ''web'' 2]"
  by (rule duplicate_id_loses_deployment) (simp_all add: demo_dep_def)

end
