(* ===== verification/Api.thy ===== *)
theory Api
  imports Sched_Client Token Deploystore
begin

text \<open>
  The control plane's HTTP API, \<^verbatim>\<open>services/api/cmd/api\<close>: \<^verbatim>\<open>auth.go\<close>, \<^verbatim>\<open>deploy.go\<close>, \<^verbatim>\<open>regions.go\<close>
  and the routes of \<^verbatim>\<open>main.go\<close>. The request multiplexer (the chi package) is a parameter: a function
  from the route table, a method and a path to an endpoint and its URL parameters. The theorems:
  no endpoint but the login is reached without a token the server signed, a login's token opens
  them for a day, a deploy is recorded exactly once with the status the scheduler's answer calls
  for, and it is listed afterwards.
\<close>

section \<open>Requests and configuration\<close>

text \<open>A multipart form: its values and its \<^verbatim>\<open>source\<close> file or the error of \<^verbatim>\<open>FormFile\<close>.\<close>

record upload =
  up_value :: "string \<Rightarrow> string"
  up_source :: "(string, string) result"

record api_request =
  ar_method :: string
  ar_path :: string
  ar_auth :: string
  ar_ctype :: string
  ar_body :: string
  ar_form :: "(string, upload) result"     \<comment> \<open>what \<^verbatim>\<open>ParseMultipartForm\<close> gives\<close>

definition envOr :: "(string \<Rightarrow> string) \<Rightarrow> string \<Rightarrow> string \<Rightarrow> string" where
  "envOr getenv key def = (if getenv key \<noteq> [] then getenv key else def)"

section \<open>Login and authentication\<close>

definition tokenTTL :: int where
  "tokenTTL = 24 * 3600 * 1000000000"

definition writeJSONError :: "nat \<Rightarrow> string \<Rightarrow> http_response" where
  "writeJSONError status msg = writeJSON status (JObj [(''error'', JStr msg)])"

definition decode_login :: "string \<Rightarrow> (string \<times> string) option" where
  "decode_login body =
     (case json_decode body of
        Some (JObj ms) \<Rightarrow>
          (let names = [''email'', ''api_key'']; (email, e1) = str_field names ''email'' ms;
               (key, e2) = str_field names ''api_key'' ms
           in if e1 \<or> e2 then None else Some (email, key))
      | Some JNull \<Rightarrow> Some ([], [])
      | _ \<Rightarrow> None)"

definition login_json :: "string \<Rightarrow> string \<Rightarrow> int \<Rightarrow> json" where
  "login_json tok email expires =
     JObj [(''token'', JStr tok), (''email'', JStr email), (''expires_at'', JInt expires)]"

definition loginHandler :: "string \<Rightarrow> string \<Rightarrow> time \<Rightarrow> string \<Rightarrow> http_response" where
  "loginHandler secret apiKey now body =
     (case decode_login body of
        None \<Rightarrow> writeJSONError 400 ''invalid request body''
      | Some (email, key) \<Rightarrow>
          if email = [] \<or> key = [] then writeJSONError 400 ''email and api_key are required''
          else if key \<noteq> apiKey then writeJSONError 401 ''invalid credentials''
          else writeJSON 200 (login_json (Issue secret email tokenTTL now) email (Unix (now + tokenTTL))))"

text \<open>The middleware calls the next handler with the claims, or answers 401.\<close>

definition authMiddleware ::
  "string \<Rightarrow> time \<Rightarrow> string \<Rightarrow> (claims \<Rightarrow> 's \<Rightarrow> http_response \<times> 's) \<Rightarrow> 's \<Rightarrow> http_response \<times> 's" where
  "authMiddleware secret now authorization next_handler s =
     (let (token, ok) = CutPrefix authorization ''Bearer '' in
      if \<not> ok \<or> token = [] then (writeJSONError 401 ''missing bearer token'', s)
      else (case Verify secret token now of
              Inl _ \<Rightarrow> (writeJSONError 401 ''invalid or expired token'', s)
            | Inr c \<Rightarrow> next_handler c s))"

section \<open>Deploys\<close>

record deploy_request =
  rq_Builder :: string
  rq_Region :: string
  rq_Env :: string
  rq_Image :: string

text \<open>
  The JSON body, with errors ignored: a malformed document leaves every field empty, a member of
  the wrong type leaves its own field empty.
\<close>

definition decode_deploy :: "string \<Rightarrow> deploy_request" where
  "decode_deploy body =
     (let names = [''builder'', ''region'', ''env'', ''image''];
          ms = (case json_decode body of Some (JObj ms) \<Rightarrow> ms | _ \<Rightarrow> [])
      in \<lparr>rq_Builder = fst (str_field names ''builder'' ms), rq_Region = fst (str_field names ''region'' ms),
          rq_Env = fst (str_field names ''env'' ms), rq_Image = fst (str_field names ''image'' ms)\<rparr>)"

definition hex_byte :: "nat \<Rightarrow> string" where
  "hex_byte b = [hex_digit (b div 16), hex_digit (b mod 16)]"

definition newID :: "string \<Rightarrow> nat list \<Rightarrow> string" where
  "newID pre rnd = pre @ ''_'' @ concat (map hex_byte rnd)"

definition deploy_response :: "deployment \<Rightarrow> string \<Rightarrow> json" where
  "deploy_response d url =
     JObj (deployment_members d @ (if url = [] then [] else [(''url'', JStr url)]))"

text \<open>The request's fields and its source, or the answer that refuses it.\<close>

definition read_deploy ::
  "api_request \<Rightarrow> (http_response, deploy_request \<times> string option) result" where
  "read_deploy r =
     (if HasPrefix (ar_ctype r) ''multipart/'' then
        (case ar_form r of
           Inl e \<Rightarrow> Inl (writeJSONError 400 (''parse upload: '' @ e))
         | Inr f \<Rightarrow>
             (case up_source f of
                Inl e \<Rightarrow> Inl (writeJSONError 400 (''missing source file: '' @ e))
              | Inr src \<Rightarrow>
                  Inr (\<lparr>rq_Builder = up_value f ''builder'', rq_Region = up_value f ''region'',
                        rq_Env = up_value f ''env'', rq_Image = up_value f ''image''\<rparr>, Some src)))
      else Inr (decode_deploy (ar_body r), None))"

text \<open>
  A configured scheduler is its transport and base URL. \<open>rnd\<close> are the eight bytes read from
  \<^verbatim>\<open>crypto/rand\<close> for the id, \<open>now\<close> is the clock.
\<close>

type_synonym 's sched = "('s sched_transport \<times> string) option"

definition call_scheduler ::
  "'s sched \<Rightarrow> string \<Rightarrow> string \<Rightarrow> string option \<Rightarrow> 's \<Rightarrow> (sched_error, dep_result) result option \<times> 's" where
  "call_scheduler sched svc img src s =
     (case sched of
        None \<Rightarrow> (None, s)
      | Some (tr, base) \<Rightarrow>
          (case src of
             Some b \<Rightarrow> (let (r, s') = ClientDeployWithSource tr base svc img b s in (Some r, s'))
           | None \<Rightarrow> (let (r, s') = ClientDeploy tr base svc img s in (Some r, s'))))"

definition deployHandler ::
  "'s sched \<Rightarrow> string \<Rightarrow> time \<Rightarrow> nat list \<Rightarrow> api_request \<Rightarrow> store \<times> 's \<Rightarrow> http_response \<times> store \<times> 's" where
  "deployHandler sched svcID now rnd r st =
     (if svcID = [] then (writeJSONError 400 ''missing service id'', st)
      else (case read_deploy r of
        Inl resp \<Rightarrow> (resp, st)
      | Inr (req, src) \<Rightarrow>
          (let dep0 = \<lparr>d_ID = newID ''dep'' rnd, d_ServiceID = svcID,
                       d_EnvID = (if rq_Env req = [] then ''production'' else rq_Env req),
                       d_Image = rq_Image req, d_Status = DeployPending, d_CreatedAt = now,
                       d_FinishedAt = None\<rparr>;
               (ans, s') = call_scheduler sched svcID (rq_Image req) src (snd st);
               (dep, url) = (case ans of
                               Some (Inr res) \<Rightarrow> (dep0\<lparr>d_Status := DeployLive\<rparr>, dp_URL res)
                             | _ \<Rightarrow> (dep0, []))
           in (writeJSON 202 (deploy_response dep url), Create (fst st) dep, s'))))"

definition listDeploymentsHandler ::
  "((deployment \<Rightarrow> deployment \<Rightarrow> bool) \<Rightarrow> deployment list \<Rightarrow> deployment list) \<Rightarrow> string \<Rightarrow> store \<Rightarrow>
   http_response" where
  "listDeploymentsHandler sorter svcID st =
     writeJSON 200 (JObj [(''deployments'',
       JArr (map (\<lambda>d. JObj (deployment_members d)) (ListByService sorter st svcID)))])"

definition regionsHandler :: http_response where
  "regionsHandler = writeJSON 200 regions_json"

text \<open>The names of the stubs are plain ASCII, where Go's \<^verbatim>\<open>%q\<close> quotes as JSON does.\<close>

definition stubHandler :: "string \<Rightarrow> http_response" where
  "stubHandler name = writeJSON 501 (JObj [(''endpoint'', JStr name), (''status'', JStr ''not_implemented'')])"

section \<open>Routes\<close>

datatype endpoint = LoginEP | RegionsEP | DeployEP | ListEP | StubEP string

text \<open>The routes below \<^verbatim>\<open>/v1\<close>, with their methods and patterns, in the order of registration.\<close>

definition v1_routes :: "(string \<times> string \<times> endpoint) list" where
  "v1_routes =
     (let org = ''/orgs/{orgSlug}/projects''; prj = org @ ''/{projectID}'';
          svc = prj @ ''/services''; one = svc @ ''/{serviceID}''; db = prj @ ''/databases'';
          db1 = db @ ''/{dbID}''
      in [(''POST'', ''/auth/login'', LoginEP),
          (''GET'', ''/regions'', RegionsEP),
          (''GET'', org @ ''/'', StubEP ''list-projects''),
          (''POST'', org @ ''/'', StubEP ''create-project''),
          (''GET'', prj @ ''/'', StubEP ''get-project''),
          (''GET'', svc @ ''/'', StubEP ''list-services''),
          (''POST'', svc @ ''/'', StubEP ''create-service''),
          (''GET'', one @ ''/'', StubEP ''get-service''),
          (''POST'', one @ ''/deploy'', DeployEP),
          (''GET'', one @ ''/deployments'', ListEP),
          (''GET'', one @ ''/logs'', StubEP ''stream-logs''),
          (''GET'', prj @ ''/envs/'', StubEP ''list-envs''),
          (''POST'', prj @ ''/envs/'', StubEP ''create-env''),
          (''GET'', db @ ''/'', StubEP ''list-dbs''),
          (''POST'', db @ ''/'', StubEP ''create-db''),
          (''GET'', db1 @ ''/'', StubEP ''get-db''),
          (''POST'', db1 @ ''/branches'', StubEP ''create-branch''),
          (''GET'', db1 @ ''/branches'', StubEP ''list-branches''),
          (''POST'', db1 @ ''/restore'', StubEP ''restore-pitr'')])"

type_synonym mux = "(string \<times> string \<times> endpoint) list \<Rightarrow> string \<Rightarrow> string \<Rightarrow> (endpoint \<times> (string \<Rightarrow> string)) option"

record api_config =
  cf_secret :: string
  cf_apiKey :: string

definition serve_endpoint ::
  "((deployment \<Rightarrow> deployment \<Rightarrow> bool) \<Rightarrow> deployment list \<Rightarrow> deployment list) \<Rightarrow> 's sched \<Rightarrow>
   endpoint \<Rightarrow> string \<Rightarrow> time \<Rightarrow> nat list \<Rightarrow> api_request \<Rightarrow> store \<times> 's \<Rightarrow> http_response \<times> store \<times> 's" where
  "serve_endpoint sorter sched ep svcID now rnd r st =
     (case ep of
        RegionsEP \<Rightarrow> (regionsHandler, st)
      | DeployEP \<Rightarrow> deployHandler sched svcID now rnd r st
      | ListEP \<Rightarrow> (listDeploymentsHandler sorter svcID (fst st), st)
      | StubEP name \<Rightarrow> (stubHandler name, st)
      | LoginEP \<Rightarrow> (NotFound, st))"

text \<open>
  \<^verbatim>\<open>v1Router\<close>: the login is public, every other endpoint goes through the middleware. \<open>unmatched\<close>
  is what the multiplexer answers a request that no route matches.
\<close>

definition v1Router ::
  "mux \<Rightarrow> (time \<Rightarrow> api_request \<Rightarrow> http_response) \<Rightarrow> api_config \<Rightarrow>
   ((deployment \<Rightarrow> deployment \<Rightarrow> bool) \<Rightarrow> deployment list \<Rightarrow> deployment list) \<Rightarrow> 's sched \<Rightarrow>
   time \<Rightarrow> nat list \<Rightarrow> api_request \<Rightarrow> store \<times> 's \<Rightarrow> http_response \<times> store \<times> 's" where
  "v1Router chi unmatched cfg sorter sched now rnd r st =
     (case chi v1_routes (ar_method r) (ar_path r) of
        None \<Rightarrow> (unmatched now r, st)
      | Some (LoginEP, _) \<Rightarrow> (loginHandler (cf_secret cfg) (cf_apiKey cfg) now (ar_body r), st)
      | Some (ep, param) \<Rightarrow>
          authMiddleware (cf_secret cfg) now (ar_auth r)
            (\<lambda>c. serve_endpoint sorter sched ep (param ''serviceID'') now rnd r) st)"

section \<open>The service\<close>

text \<open>What \<^verbatim>\<open>main\<close> reads from the environment, and whether it warns of default credentials.\<close>

definition listen_addr :: "(string \<Rightarrow> string) \<Rightarrow> string" where
  "listen_addr getenv = '':'' @ envOr getenv ''PORT'' ''8080''"

definition credentials_of :: "(string \<Rightarrow> string) \<Rightarrow> api_config \<times> bool" where
  "credentials_of getenv =
     (let authSecret = envOr getenv ''API_AUTH_SECRET'' ''dev-insecure-secret-change-me'';
          apiKey = envOr getenv ''API_KEY'' ''dev-api-key''
      in (\<lparr>cf_secret = authSecret, cf_apiKey = apiKey\<rparr>,
          authSecret = ''dev-insecure-secret-change-me'' \<or> apiKey = ''dev-api-key''))"

definition scheduler_of :: "(string \<Rightarrow> string) \<Rightarrow> 's sched_transport \<Rightarrow> 's sched" where
  "scheduler_of getenv tr =
     (let u = envOr getenv ''SCHEDULER_URL'' [] in if u \<noteq> [] then Some (tr, u) else None)"

text \<open>
  The root of the multiplexer: the health check, and the routes mounted under \<^verbatim>\<open>/v1\<close>. The middlewares
  of the chi package (request ids, the client's address, recovery from panics) do not change what the
  handlers see.
\<close>

definition root_handler ::
  "(api_request \<Rightarrow> store \<times> 's \<Rightarrow> http_response \<times> store \<times> 's) \<Rightarrow> (api_request \<Rightarrow> http_response) \<Rightarrow>
   api_request \<Rightarrow> store \<times> 's \<Rightarrow> http_response \<times> store \<times> 's" where
  "root_handler v1 unmatched r st =
     (if ar_method r = ''GET'' \<and> ar_path r = ''/healthz'' then
        (\<lparr>rs_status = 200, rs_ctype = ''text/plain; charset=utf-8'',
           rs_body = json_enc (JObj [(''status'', JStr ''ok'')])\<rparr>, st)
      else if HasPrefix (ar_path r) ''/v1/'' then v1 (r\<lparr>ar_path := drop 3 (ar_path r)\<rparr>) st
      else (unmatched r, st))"

section \<open>Authentication\<close>

lemma Verify_Nil [simp]: "Verify secret [] now = Inl ErrMalformed"
  by (simp add: Verify_def)

lemma authMiddleware_cases:
  "authMiddleware secret now authz h s =
     (case CutPrefix authz ''Bearer '' of (token, ok) \<Rightarrow>
        (case (ok, Verify secret token now) of
           (True, Inr c) \<Rightarrow> h c s
         | _ \<Rightarrow> (writeJSONError 401 (if ok \<and> token \<noteq> [] then ''invalid or expired token''
                                    else ''missing bearer token''), s)))"
  by (auto simp: authMiddleware_def split: prod.splits bool.splits sum.splits)

definition authorised :: "string \<Rightarrow> time \<Rightarrow> api_request \<Rightarrow> bool" where
  "authorised secret now r \<longleftrightarrow>
     (case CutPrefix (ar_auth r) ''Bearer '' of (token, ok) \<Rightarrow>
        (case Verify secret token now of Inr _ \<Rightarrow> ok | Inl _ \<Rightarrow> False))"

lemma authMiddleware_unauthorised:
  "\<not> authorised secret now r \<Longrightarrow> \<exists>msg. authMiddleware secret now (ar_auth r) h s = (writeJSONError 401 msg, s)"
  by (auto simp: authMiddleware_cases authorised_def split: prod.splits bool.splits sum.splits)

lemma authMiddleware_authorised:
  "authorised secret now r \<Longrightarrow> \<exists>c. authMiddleware secret now (ar_auth r) h s = h c s"
  by (auto simp: authMiddleware_cases authorised_def split: prod.splits bool.splits sum.splits)

lemma authorised_iff:
  "authorised secret now r \<longleftrightarrow> (\<exists>token c. ar_auth r = ''Bearer '' @ token \<and> Verify secret token now = Inr c)"
  by (auto simp: authorised_def CutPrefix_def HasPrefix_prefix prefix_def split: sum.splits if_splits prod.splits)

text \<open>What the router does with an endpoint: it asks for a token unless it is the login.\<close>

lemma v1Router_public:
  "chi v1_routes (ar_method r) (ar_path r) = Some (LoginEP, ps) \<Longrightarrow>
     v1Router chi unmatched cfg sorter sched now rnd r st =
       (loginHandler (cf_secret cfg) (cf_apiKey cfg) now (ar_body r), st)"
  by (simp add: v1Router_def)

lemma v1Router_protected:
  "chi v1_routes (ar_method r) (ar_path r) = Some (ep, ps) \<Longrightarrow> ep \<noteq> LoginEP \<Longrightarrow>
     v1Router chi unmatched cfg sorter sched now rnd r st =
       authMiddleware (cf_secret cfg) now (ar_auth r)
         (\<lambda>c. serve_endpoint sorter sched ep (ps ''serviceID'') now rnd r) st"
  by (cases ep) (simp_all add: v1Router_def)

lemma writeJSONError_status [simp]: "rs_status (writeJSONError st msg) = st"
  by (simp add: writeJSONError_def writeJSON_def)

text \<open>
  C3. Nothing but the login works without a token. However requests are matched to routes: a
  request to any other endpoint whose \<^verbatim>\<open>Authorization\<close> header does not carry a token the server's
  secret verifies is answered 401 and changes nothing, and any request that changes the store or
  reaches the scheduler carries such a token.
\<close>

theorem protected_endpoints:
  fixes st :: "store \<times> 's"
  assumes "v1Router chi unmatched cfg sorter sched now rnd r st = (resp, st')"
    and "\<And>token c. ar_auth r = ''Bearer '' @ token \<Longrightarrow> Verify (cf_secret cfg) token now \<noteq> Inr c"
  shows "st' = st \<and>
    (case chi v1_routes (ar_method r) (ar_path r) of
       Some (ep, _) \<Rightarrow> ep \<noteq> LoginEP \<longrightarrow> rs_status resp = 401
     | None \<Rightarrow> resp = unmatched now r)"
proof -
  have na: "\<not> authorised (cf_secret cfg) now r" using assms(2) by (auto simp: authorised_iff)
  show ?thesis
  proof (cases "chi v1_routes (ar_method r) (ar_path r)")
    case None
    with assms(1) show ?thesis by (auto simp: v1Router_def)
  next
    case (Some m)
    obtain ep ps where m: "m = (ep, ps)" by (cases m)
    show ?thesis
    proof (cases "ep = LoginEP")
      case True
      with Some m assms(1) show ?thesis by (auto simp: v1Router_public)
    next
      case False
      have r: "v1Router chi unmatched cfg sorter sched now rnd r st =
          authMiddleware (cf_secret cfg) now (ar_auth r)
            (\<lambda>c. serve_endpoint sorter sched ep (ps ''serviceID'') now rnd r) st"
        by (rule v1Router_protected) (use Some m False in simp_all)
      obtain msg where "authMiddleware (cf_secret cfg) now (ar_auth r)
          (\<lambda>c. serve_endpoint sorter sched ep (ps ''serviceID'') now rnd r) st = (writeJSONError 401 msg, st)"
        by (rule exE [OF authMiddleware_unauthorised [OF na]])
      with r assms(1) have "resp = writeJSONError 401 msg" "st' = st" by auto
      with Some m show ?thesis by simp
    qed
  qed
qed

definition exact_mux :: mux where
  "exact_mux routes m p =
     map_option (\<lambda>e. (snd (snd e), \<lambda>_. ''svc''))
       (List.find (\<lambda>e. fst e = m \<and> fst (snd e) = p) routes)"

definition get_regions :: api_request where
  "get_regions = \<lparr>ar_method = ''GET'', ar_path = ''/regions'', ar_auth = ''Bearer x.y'', ar_ctype = [],
     ar_body = [], ar_form = Inl []\<rparr>"

theorem protected_endpoints_witness:
  "rs_status (fst (v1Router exact_mux (\<lambda>_ _. NotFound) \<lparr>cf_secret = ''s'', cf_apiKey = ''k''\<rparr> insertion_sort
     (None :: unit sched) 0 [] get_regions (NewStore, ()))) = 401"
proof -
  let ?out = "v1Router exact_mux (\<lambda>_ _. NotFound) \<lparr>cf_secret = ''s'', cf_apiKey = ''k''\<rparr> insertion_sort
     (None :: unit sched) 0 [] get_regions (NewStore, ())"
  obtain resp st' where o: "?out = (resp, st')" by (cases ?out)
  have "Verify ''s'' token 0 \<noteq> Inr c" if "ar_auth get_regions = ''Bearer '' @ token" for token c
    using that by (auto simp: get_regions_def Verify_def)
  with protected_endpoints [OF o] have "rs_status resp = 401"
    by (simp add: exact_mux_def v1_routes_def get_regions_def Let_def)
  with o show ?thesis by simp
qed

section \<open>Sessions\<close>

definition credentials :: "string \<Rightarrow> string \<Rightarrow> string" where
  "credentials email key = json_enc (JObj [(''email'', JStr email), (''api_key'', JStr key)])"

lemma decode_credentials:
  assumes "valid_utf8 email" "valid_utf8 key"
  shows "decode_login (credentials email key) = Some (email, key)"
proof -
  have "json_decode (credentials email key @ []) =
      Some (JObj [(''email'', JStr email), (''api_key'', JStr key)])"
    unfolding credentials_def
    by (rule json_decode_enc) (use assms in \<open>simp_all add: valid_utf8_ascii\<close>)
  then show ?thesis by (simp add: decode_login_def str_field_def key_matches_def)
qed

text \<open>A session is a day, to the second.\<close>

lemma Unix_tokenTTL: "Unix (now + tokenTTL) = Unix now + 24 * 3600"
  by (simp add: Unix_def tokenTTL_def)

lemma Issue_nonempty: "Issue secret sub ttl now \<noteq> []"
  by (simp add: Issue_def Let_def)

text \<open>
  A login is a day's session: with the API key, an email gets a token and its expiry, a wrong
  key gets 401; a request with that token is let through, with the email as its subject, up to
  exactly 24 hours after the login, to the second, and is answered 401 from then on.
\<close>

theorem login_session:
  assumes "valid_utf8 email" "valid_utf8 key" "email \<noteq> []" "key \<noteq> []"
    and "int64 (Unix now)" "int64 (Unix now + 24 * 3600)"
  shows "let tok = Issue secret email tokenTTL now; expiry = Unix now + 24 * 3600 in
    loginHandler secret apiKey now (credentials email key) =
      (if key = apiKey then writeJSON 200 (login_json tok email expiry)
       else writeJSONError 401 ''invalid credentials'') \<and>
    authMiddleware secret later (''Bearer '' @ tok) h s =
      (if Unix later < expiry then h \<lparr>c_Sub = email, c_Iat = Unix now, c_Exp = expiry\<rparr> s
       else (writeJSONError 401 ''invalid or expired token'', s))"
proof -
  let ?tok = "Issue secret email tokenTTL now"
  have v: "Verify secret ?tok later =
      (if Unix later < Unix (now + tokenTTL)
       then Inr \<lparr>c_Sub = email, c_Iat = Unix now, c_Exp = Unix (now + tokenTTL)\<rparr> else Inl ErrExpired)"
    by (rule issued_verifies) (use assms in \<open>simp_all add: Unix_tokenTTL\<close>)
  have "CutPrefix (''Bearer '' @ ?tok) ''Bearer '' = (?tok, True)" by (rule CutPrefix_append)
  then have "authMiddleware secret later (''Bearer '' @ ?tok) h s =
      (if Unix later < Unix (now + tokenTTL)
       then h \<lparr>c_Sub = email, c_Iat = Unix now, c_Exp = Unix (now + tokenTTL)\<rparr> s
       else (writeJSONError 401 ''invalid or expired token'', s))"
    unfolding authMiddleware_def by (simp add: v Issue_nonempty)
  moreover have "loginHandler secret apiKey now (credentials email key) =
      (if key = apiKey then writeJSON 200 (login_json ?tok email (Unix (now + tokenTTL)))
       else writeJSONError 401 ''invalid credentials'')"
    by (simp add: loginHandler_def decode_credentials assms)
  ultimately show ?thesis by (simp only: Let_def Unix_tokenTTL)
qed

theorem login_session_witness:
  "rs_status (loginHandler ''s'' ''k'' 0 (credentials ''a@b.c'' ''k'')) = 200 \<and>
   rs_status (loginHandler ''s'' ''k'' 0 (credentials ''a@b.c'' ''no'')) = 401 \<and>
   authMiddleware ''s'' 86399000000000 (''Bearer '' @ Issue ''s'' ''a@b.c'' tokenTTL 0) (\<lambda>c s. (NotFound, c_Sub c)) [] =
     (NotFound, ''a@b.c'') \<and>
   rs_status (fst (authMiddleware ''s'' 86400000000000 (''Bearer '' @ Issue ''s'' ''a@b.c'' tokenTTL 0)
     (\<lambda>c s. (NotFound, s)) ())) = 401"
  using login_session [of "''a@b.c''" "''k''" 0 "''s''" "''k''" 86399000000000 "\<lambda>c s. (NotFound, c_Sub c)" "[]"]
    login_session [of "''a@b.c''" "''no''" 0 "''s''" "''k''" 86400000000000 "\<lambda>c s. (NotFound, s)" "()"]
  by (simp add: Let_def tokenTTL_def Unix_def int64_def valid_utf8_ascii writeJSON_def)

section \<open>The deployment history\<close>

lemma hex_digit_inj: "a < 16 \<Longrightarrow> b < 16 \<Longrightarrow> hex_digit a = hex_digit b \<Longrightarrow> a = b"
  by (metis hex_val_hex_digit option.inject)

lemma hex_byte_inj: "a < 256 \<Longrightarrow> b < 256 \<Longrightarrow> hex_byte a = hex_byte b \<Longrightarrow> a = b"
proof -
  assume l: "a < 256" "b < 256" and e: "hex_byte a = hex_byte b"
  have "a div 16 = b div 16" by (rule hex_digit_inj) (use l e in \<open>auto simp: hex_byte_def\<close>)
  moreover have "a mod 16 = b mod 16" by (rule hex_digit_inj) (use e in \<open>auto simp: hex_byte_def\<close>)
  ultimately show "a = b" by (metis div_mult_mod_eq)
qed

lemma hex_bytes_inj:
  "list_all (\<lambda>b. b < 256) xs \<Longrightarrow> list_all (\<lambda>b. b < 256) ys \<Longrightarrow>
     concat (map hex_byte xs) = concat (map hex_byte ys) \<Longrightarrow> xs = ys"
proof (induction xs arbitrary: ys)
  case Nil
  then show ?case by (cases ys) (auto simp: hex_byte_def)
next
  case (Cons x xs)
  then obtain y ys' where ys: "ys = y # ys'" by (cases ys) (auto simp: hex_byte_def)
  have l: "length (hex_byte x) = length (hex_byte y)" by (simp add: hex_byte_def)
  have "hex_byte x @ concat (map hex_byte xs) = hex_byte y @ concat (map hex_byte ys')"
    using Cons.prems(3) ys by simp
  then have e: "hex_byte x = hex_byte y" "concat (map hex_byte xs) = concat (map hex_byte ys')"
    using append_eq_append_conv [of "hex_byte x" "hex_byte y"] l by blast+
  have "x = y" by (rule hex_byte_inj) (use Cons.prems ys e in simp_all)
  moreover have "xs = ys'" by (rule Cons.IH) (use Cons.prems ys e in simp_all)
  ultimately show ?case by (simp add: ys)
qed

lemma newID_inj:
  "list_all (\<lambda>b. b < 256) xs \<Longrightarrow> list_all (\<lambda>b. b < 256) ys \<Longrightarrow> newID pre xs = newID pre ys \<Longrightarrow> xs = ys"
  by (simp add: newID_def hex_bytes_inj)

lemma read_deploy_refused: "read_deploy r = Inl resp \<Longrightarrow> rs_status resp = 400"
  by (auto simp: read_deploy_def split: sum.splits if_splits)

text \<open>The deployment the handler records, for the answer the scheduler gave (if one was asked).\<close>

definition recorded ::
  "string \<Rightarrow> time \<Rightarrow> nat list \<Rightarrow> deploy_request \<Rightarrow> (sched_error, dep_result) result option \<Rightarrow> deployment" where
  "recorded svcID now rnd q ans =
     \<lparr>d_ID = newID ''dep'' rnd, d_ServiceID = svcID,
      d_EnvID = (if rq_Env q = [] then ''production'' else rq_Env q), d_Image = rq_Image q,
      d_Status = (case ans of Some (Inr _) \<Rightarrow> DeployLive | _ \<Rightarrow> DeployPending),
      d_CreatedAt = now, d_FinishedAt = None\<rparr>"

definition answer_url :: "(sched_error, dep_result) result option \<Rightarrow> string" where
  "answer_url ans = (case ans of Some (Inr res) \<Rightarrow> dp_URL res | _ \<Rightarrow> [])"

lemma deployHandler_cases:
  "deployHandler sched svcID now rnd r st =
     (if svcID = [] then (writeJSONError 400 ''missing service id'', st)
      else case read_deploy r of
        Inl resp \<Rightarrow> (resp, st)
      | Inr (q, src) \<Rightarrow>
          (case call_scheduler sched svcID (rq_Image q) src (snd st) of
             (ans, s') \<Rightarrow>
               (writeJSON 202 (deploy_response (recorded svcID now rnd q ans) (answer_url ans)),
                Create (fst st) (recorded svcID now rnd q ans), s')))"
proof (cases "svcID = []")
  case False
  show ?thesis
  proof (cases "read_deploy r")
    case (Inr qs)
    obtain q src where q: "qs = (q, src)" by (cases qs)
    obtain ans s1 where c: "call_scheduler sched svcID (rq_Image q) src (snd st) = (ans, s1)"
      by (cases "call_scheduler sched svcID (rq_Image q) src (snd st)")
    show ?thesis
    proof (cases ans)
      case None
      with False Inr q c show ?thesis by (simp add: deployHandler_def recorded_def answer_url_def Let_def)
    next
      case (Some a)
      with False Inr q c show ?thesis
        by (cases a) (simp_all add: deployHandler_def recorded_def answer_url_def Let_def)
    qed
  qed (use False in \<open>simp add: deployHandler_def\<close>)
qed (simp add: deployHandler_def)

text \<open>A request's answer is 202 exactly when it recorded a deployment, and carries it.\<close>

definition answered_with :: "(time \<times> nat list \<times> api_request) \<times> http_response \<Rightarrow> deployment \<Rightarrow> bool" where
  "answered_with x d \<longleftrightarrow>
     d_ID d = newID ''dep'' (fst (snd (fst x))) \<and> d_CreatedAt d = fst (fst x) \<and>
     (\<exists>url. snd x = writeJSON 202 (deploy_response d url))"

lemma deployHandler_step:
  assumes "deployHandler sched svcID now rnd r (sto, s) = (resp, sto', s')"
  shows "rs_status resp = 400 \<and> sto' = sto \<or>
    (\<exists>d. sto' = Create sto d \<and> rs_status resp = 202 \<and> answered_with ((now, rnd, r), resp) d)"
proof (cases "svcID = []")
  case True
  with assms show ?thesis by (auto simp: deployHandler_cases)
next
  case False
  show ?thesis
  proof (cases "read_deploy r")
    case (Inl e)
    with assms False read_deploy_refused show ?thesis by (auto simp: deployHandler_cases)
  next
    case (Inr qs)
    obtain q src where q: "qs = (q, src)" by (cases qs)
    obtain ans s1 where c: "call_scheduler sched svcID (rq_Image q) src s = (ans, s1)"
      by (cases "call_scheduler sched svcID (rq_Image q) src s")
    from assms False Inr q c have
      "sto' = Create sto (recorded svcID now rnd q ans)"
      "resp = writeJSON 202 (deploy_response (recorded svcID now rnd q ans) (answer_url ans))"
      by (auto simp: deployHandler_cases)
    then show ?thesis by (auto simp: answered_with_def recorded_def writeJSON_def)
  qed
qed

definition recorded_step :: "(time \<times> nat list \<times> api_request) \<times> http_response \<Rightarrow> store \<Rightarrow> store \<Rightarrow> bool" where
  "recorded_step x sto sto' \<longleftrightarrow>
     (if rs_status (snd x) = 202 then \<exists>d. sto' = Create sto d \<and> answered_with x d else sto' = sto)"

lemma serve_endpoint_step:
  assumes "serve_endpoint sorter sched ep svcID now rnd r (sto, s) = (resp, sto', s')"
  shows "recorded_step ((now, rnd, r), resp) sto sto'"
proof (cases ep)
  case DeployEP
  with assms show ?thesis
    using deployHandler_step [of sched svcID now rnd r sto s resp sto' s']
    by (auto simp: serve_endpoint_def recorded_step_def)
qed (use assms in \<open>auto simp: serve_endpoint_def recorded_step_def NotFound_def regionsHandler_def writeJSON_def
      listDeploymentsHandler_def stubHandler_def\<close>)

lemma loginHandler_status: "rs_status (loginHandler secret apiKey now body) \<noteq> 202"
  by (simp add: loginHandler_def writeJSON_def split: option.split)

lemma v1Router_step:
  assumes u: "\<And>t q. rs_status (unmatched t q) \<noteq> 202"
    and v: "v1Router chi unmatched cfg sorter sched now rnd r (sto, s) = (resp, sto', s')"
  shows "recorded_step ((now, rnd, r), resp) sto sto'"
proof (cases "chi v1_routes (ar_method r) (ar_path r)")
  case None
  with v u show ?thesis by (auto simp: v1Router_def recorded_step_def)
next
  case (Some m)
  obtain ep ps where m: "m = (ep, ps)" by (cases m)
  show ?thesis
  proof (cases "ep = LoginEP")
    case True
    with Some m v show ?thesis by (auto simp: v1Router_public recorded_step_def loginHandler_status)
  next
    case False
    let ?h = "\<lambda>c. serve_endpoint sorter sched ep (ps ''serviceID'') now rnd r"
    have p: "authMiddleware (cf_secret cfg) now (ar_auth r) ?h (sto, s) = (resp, sto', s')"
      using v1Router_protected [where chi = chi and r = r and ep = ep and ps = ps and st = "(sto, s)"] Some m False v
      by simp
    show ?thesis
    proof (cases "authorised (cf_secret cfg) now r")
      case True
      obtain c where "authMiddleware (cf_secret cfg) now (ar_auth r) ?h (sto, s) = ?h c (sto, s)"
        by (rule exE [OF authMiddleware_authorised [OF True]])
      with p show ?thesis by (auto intro: serve_endpoint_step)
    next
      case False
      obtain msg where "authMiddleware (cf_secret cfg) now (ar_auth r) ?h (sto, s) = (writeJSONError 401 msg, sto, s)"
        by (rule exE [OF authMiddleware_unauthorised [OF False]])
      with p show ?thesis by (auto simp: recorded_step_def)
    qed
  qed
qed

text \<open>A sequence of requests, each at its time and with its random bytes.\<close>

fun api_run ::
  "((time \<times> nat list \<times> api_request) \<Rightarrow> store \<times> 's \<Rightarrow> http_response \<times> store \<times> 's) \<Rightarrow>
   (time \<times> nat list \<times> api_request) list \<Rightarrow> store \<times> 's \<Rightarrow> http_response list \<times> store \<times> 's" where
  "api_run srv [] st = ([], st)"
| "api_run srv (x # xs) st =
     (let (resp, st1) = srv x st; (resps, st2) = api_run srv xs st1 in (resp # resps, st2))"

lemma api_run_history:
  assumes step: "\<And>x sto s resp sto' s'. srv x (sto, s) = (resp, sto', s') \<Longrightarrow> recorded_step (x, resp) sto sto'"
  shows "api_run srv xs (created ds0, s) = (resps, sto', s') \<Longrightarrow>
    \<exists>ds. sto' = created (ds0 @ ds) \<and>
         list_all2 answered_with (filter (\<lambda>x. rs_status (snd x) = 202) (zip xs resps)) ds"
proof (induction xs arbitrary: ds0 s resps)
  case (Cons x xs)
  obtain resp sto1 s1 where x: "srv x (created ds0, s) = (resp, sto1, s1)" by (metis surj_pair)
  obtain rs sto2 s2 where xs: "api_run srv xs (sto1, s1) = (rs, sto2, s2)" by (metis surj_pair)
  from Cons.prems x xs have e: "resps = resp # rs" "sto' = sto2" "s' = s2" by auto
  from step [OF x] show ?case
  proof (cases "rs_status resp = 202")
    case True
    with step [OF x] obtain d where d: "sto1 = Create (created ds0) d" "answered_with (x, resp) d"
      by (auto simp: recorded_step_def)
    with xs have "api_run srv xs (created (ds0 @ [d]), s1) = (rs, sto2, s2)" by (simp add: created_snoc)
    with e Cons.IH [of "ds0 @ [d]"] obtain ds where
      "sto' = created (ds0 @ [d] @ ds)"
      "list_all2 answered_with (filter (\<lambda>x. rs_status (snd x) = 202) (zip xs rs)) ds" by fastforce
    with e(1) True d(2) show ?thesis by (intro exI [of _ "d # ds"]) simp
  next
    case False
    with step [OF x] have "sto1 = created ds0" by (simp add: recorded_step_def)
    with xs e Cons.IH [of ds0 s1 rs] False show ?thesis by auto
  qed
qed simp

definition v1_server ::
  "mux \<Rightarrow> (time \<Rightarrow> api_request \<Rightarrow> http_response) \<Rightarrow> api_config \<Rightarrow>
   ((deployment \<Rightarrow> deployment \<Rightarrow> bool) \<Rightarrow> deployment list \<Rightarrow> deployment list) \<Rightarrow> 's sched \<Rightarrow>
   time \<times> nat list \<times> api_request \<Rightarrow> store \<times> 's \<Rightarrow> http_response \<times> store \<times> 's" where
  "v1_server chi unmatched cfg sorter sched x st =
     v1Router chi unmatched cfg sorter sched (fst x) (fst (snd x)) (snd (snd x)) st"

lemma v1_server_step:
  assumes "\<And>t q. rs_status (unmatched t q) \<noteq> 202"
    and "v1_server chi unmatched cfg sorter sched x (sto, s) = (resp, sto', s')"
  shows "recorded_step (x, resp) sto sto'"
proof -
  obtain now rnd r where x: "x = (now, rnd, r)" by (metis surj_pair)
  show ?thesis
    unfolding x
    by (rule v1Router_step [where unmatched = unmatched]) (use assms x in \<open>auto simp: v1_server_def\<close>)
qed

lemma answered_ids:
  "list_all2 answered_with ys ds \<Longrightarrow> map d_ID ds = map (newID ''dep'') (map (fst \<circ> snd \<circ> fst) ys)"
  by (induction rule: list_all2_induct) (auto simp: answered_with_def)

lemma distinct_zip_filter:
  "distinct (map f xs) \<Longrightarrow> distinct (map (f \<circ> fst) (filter P (zip xs ys)))"
proof (induction xs arbitrary: ys)
  case (Cons x xs)
  then show ?case by (cases ys) (auto dest!: set_zip_leftD)
qed simp

lemma answered_distinct:
  assumes "list_all2 answered_with (filter P (zip xs resps)) ds"
    and "distinct (map (fst \<circ> snd) xs)" and b: "list_all (\<lambda>x. list_all (\<lambda>b. b < 256) (fst (snd x))) xs"
  shows "distinct (map d_ID ds)"
proof -
  let ?rs = "map ((fst \<circ> snd) \<circ> fst) (filter P (zip xs resps))"
  have "distinct ?rs" by (rule distinct_zip_filter [OF assms(2)])
  moreover have "inj_on (newID ''dep'') (set ?rs)"
  proof (rule inj_onI)
    fix u v assume "u \<in> set ?rs" "v \<in> set ?rs" and e: "newID ''dep'' u = newID ''dep'' v"
    then have "list_all (\<lambda>b. b < 256) u" "list_all (\<lambda>b. b < 256) v"
      using b by (auto simp: list_all_iff dest!: set_zip_leftD)
    then show "u = v" using newID_inj e by blast
  qed
  ultimately have "distinct (map (newID ''dep'') ?rs)" by (simp only: distinct_map simp_thms)
  then show ?thesis by (simp only: answered_ids [OF assms(1)] comp_assoc)
qed

text \<open>
  C4. The deployment history is the answers given: whatever requests arrive in whatever order, as
  long as the random ids do not collide, the deployments on record are exactly those whose
  request was answered 202, in that order, each with the id and the time it was announced with,
  and the list of a service has exactly its deployments, newest first. No other request adds,
  changes or loses one.
\<close>

theorem audit_trail:
  assumes "slice_sorting sorter" and "\<And>t q. rs_status (unmatched t q) \<noteq> 202"
    and "distinct (map (fst \<circ> snd) xs)" and "list_all (\<lambda>x. list_all (\<lambda>b. b < 256) (fst (snd x))) xs"
    and "api_run (v1_server chi unmatched cfg sorter sched) xs (NewStore, s) = (resps, sto', s')"
  shows "\<exists>ds. list_all2 answered_with (filter (\<lambda>x. rs_status (snd x) = 202) (zip xs resps)) ds \<and>
    (\<forall>svc. mset (ListByService sorter sto' svc) = mset (filter (\<lambda>d. d_ServiceID d = svc) ds) \<and>
           sorted_wrt (\<lambda>d e. d_CreatedAt d \<ge> d_CreatedAt e) (ListByService sorter sto' svc))"
proof -
  have "api_run (v1_server chi unmatched cfg sorter sched) xs (created [], s) = (resps, sto', s')"
    using assms(5) by (simp add: created_def)
  with api_run_history [where srv = "v1_server chi unmatched cfg sorter sched", OF v1_server_step [OF assms(2)]]
  obtain ds where ds: "sto' = created ds"
    "list_all2 answered_with (filter (\<lambda>x. rs_status (snd x) = 202) (zip xs resps)) ds" by fastforce
  with created_listed [OF assms(1) answered_distinct [OF ds(2) assms(3,4)]] show ?thesis by blast
qed

definition deploy_path :: string where
  "deploy_path = ''/orgs/{orgSlug}/projects/{projectID}/services/{serviceID}/deploy''"

definition demo_deploy :: "string \<Rightarrow> api_request" where
  "demo_deploy auth = \<lparr>ar_method = ''POST'', ar_path = deploy_path, ar_auth = auth,
     ar_ctype = [], ar_body = [], ar_form = Inl []\<rparr>"

lemma decode_deploy_empty: "decode_deploy [] = \<lparr>rq_Builder = [], rq_Region = [], rq_Env = [], rq_Image = []\<rparr>"
  by (simp add: decode_deploy_def json_decode_def json_fuel_def skip_ws_def str_field_def)

lemma exact_mux_deploy:
  "\<exists>ps. exact_mux v1_routes (ar_method (demo_deploy auth)) (ar_path (demo_deploy auth)) = Some (DeployEP, ps) \<and>
     ps ''serviceID'' = ''svc''"
  by (simp add: exact_mux_def v1_routes_def demo_deploy_def deploy_path_def Let_def)

definition demo_server :: "time \<times> nat list \<times> api_request \<Rightarrow> store \<times> unit \<Rightarrow> http_response \<times> store \<times> unit" where
  "demo_server = v1_server exact_mux (\<lambda>_ _. NotFound) \<lparr>cf_secret = ''s'', cf_apiKey = ''k''\<rparr> insertion_sort None"

definition demo_run :: "(time \<times> nat list \<times> api_request) list" where
  "demo_run = [(0, [1], demo_deploy (''Bearer '' @ Issue ''s'' ''a@b.c'' tokenTTL 0)), (1, [2], demo_deploy [])]"

lemma deploy_not_login: "DeployEP \<noteq> LoginEP"
  by simp

lemma demo_server_deploy:
  "\<exists>sto. demo_server (0, [1], demo_deploy (''Bearer '' @ Issue ''s'' ''a@b.c'' tokenTTL 0)) (NewStore, ()) =
     (writeJSON 202 (deploy_response (recorded ''svc'' 0 [1] (decode_deploy []) None) []), sto, ())"
proof -
  let ?r = "demo_deploy (''Bearer '' @ Issue ''s'' ''a@b.c'' tokenTTL 0)"
  let ?h = "\<lambda>c. serve_endpoint insertion_sort (None :: unit sched) DeployEP ''svc'' 0 [1] ?r"
  have a: "authorised ''s'' 0 ?r"
    using issued_verifies [of "''a@b.c''" 0 tokenTTL "''s''" 0]
    by (auto simp: authorised_iff demo_deploy_def tokenTTL_def Unix_def int64_def valid_utf8_ascii)
  obtain c where c: "authMiddleware ''s'' 0 (ar_auth ?r) ?h (NewStore, ()) = ?h c (NewStore, ())"
    by (rule exE [OF authMiddleware_authorised [OF a]])
  obtain ps where ps: "exact_mux v1_routes (ar_method ?r) (ar_path ?r) = Some (DeployEP, ps)" "ps ''serviceID'' = ''svc''"
    using exact_mux_deploy by blast
  have "demo_server (0, [1], ?r) (NewStore, ()) = ?h c (NewStore, ())"
    unfolding demo_server_def v1_server_def fst_conv snd_conv v1Router_protected [where chi = exact_mux and r = ?r, OF ps(1) deploy_not_login]
    by (simp only: ps(2) api_config.simps c)
  then show ?thesis
    by (simp add: serve_endpoint_def deployHandler_cases read_deploy_def demo_deploy_def HasPrefix_def
        call_scheduler_def answer_url_def)
qed

theorem audit_trail_witness:
  "\<exists>resps sto d. api_run demo_server demo_run (NewStore, ()) = (resps, sto, ()) \<and>
     map rs_status resps = [202, 401] \<and> answered_with (hd demo_run, hd resps) d \<and>
     mset (ListByService insertion_sort sto (d_ServiceID d)) = {#d#}"
proof -
  obtain sto where s1: "demo_server (hd demo_run) (NewStore, ()) =
     (writeJSON 202 (deploy_response (recorded ''svc'' 0 [1] (decode_deploy []) None) []), sto, ())" (is "_ = (?r1, _)")
    using demo_server_deploy by (auto simp: demo_run_def)
  obtain r2 sto2 where s2: "demo_server (1, [2], demo_deploy []) (sto, ()) = (r2, sto2, ())"
    by (metis surj_pair unit.exhaust)
  have "\<not> authorised ''s'' 1 (demo_deploy [])" by (simp add: authorised_iff demo_deploy_def)
  with s2 exact_mux_deploy [of "[]"] have r2: "rs_status r2 = 401"
    by (auto simp: demo_server_def v1_server_def v1Router_protected authMiddleware_def CutPrefix_def
        HasPrefix_def demo_deploy_def)
  have run: "api_run demo_server demo_run (NewStore, ()) = ([?r1, r2], sto2, ())"
    using s1 s2 by (simp add: demo_run_def)
  have "\<exists>ds. list_all2 answered_with (filter (\<lambda>x. rs_status (snd x) = 202) (zip demo_run [?r1, r2])) ds \<and>
      (\<forall>svc. mset (ListByService insertion_sort sto2 svc) = mset (filter (\<lambda>d. d_ServiceID d = svc) ds) \<and>
         sorted_wrt (\<lambda>d e. d_CreatedAt d \<ge> d_CreatedAt e) (ListByService insertion_sort sto2 svc))"
    by (rule audit_trail [OF isort.slice_sorting_axioms _ _ _ run [unfolded demo_server_def]])
      (simp_all add: NotFound_def demo_run_def)
  moreover have "filter (\<lambda>x. rs_status (snd x) = 202) (zip demo_run [?r1, r2]) = [(hd demo_run, ?r1)]"
    using r2 by (simp add: demo_run_def writeJSON_def)
  ultimately obtain d where "answered_with (hd demo_run, ?r1) d"
    and l: "\<forall>svc. mset (ListByService insertion_sort sto2 svc) = mset (filter (\<lambda>e. d_ServiceID e = svc) [d])"
    by (auto simp: list_all2_Cons1)
  moreover from l have "mset (ListByService insertion_sort sto2 (d_ServiceID d)) = {#d#}" by simp
  ultimately show ?thesis
    using run r2 by (intro exI [of _ "[?r1, r2]"] exI [of _ sto2] exI [of _ d]) (simp add: writeJSON_def)
qed

section \<open>From the API to the virtual machine\<close>



text \<open>
  C32. A failed deploy looks accepted: when the scheduler fails, the API answers exactly what it
  answers when no scheduler is configured, status 202 and a deployment that is pending, and the
  store keeps it as pending; no deployment is ever recorded as failed.
\<close>

theorem scheduler_failure_hidden:
  assumes "svc \<noteq> []" "read_deploy r = Inr (q, src)"
    and "call_scheduler sched svc (rq_Image q) src s = (Some (Inl e), s')"
  shows "deployHandler sched svc now rnd r (sto, s) =
      (fst (deployHandler None svc now rnd r (sto, s)), fst (snd (deployHandler None svc now rnd r (sto, s))), s') \<and>
    rs_status (fst (deployHandler sched svc now rnd r (sto, s))) = 202"
proof -
  have "recorded svc now rnd q (Some (Inl e)) = recorded svc now rnd q None" by (simp add: recorded_def)
  with assms show ?thesis
    by (simp add: deployHandler_cases answer_url_def call_scheduler_def writeJSON_def)
qed

definition down :: "unit sched_transport" where
  "down u c s = (Inl (Transport ''refused''), s)"

theorem scheduler_failure_hidden_witness:
  "rs_status (fst (deployHandler (Some (down, ''http://s'')) ''web'' 0 [1] (demo_deploy []) (NewStore, ()))) = 202"
proof -
  let ?q = "\<lparr>rq_Builder = [], rq_Region = [], rq_Env = [], rq_Image = []\<rparr>"
  have q: "read_deploy (demo_deploy []) = Inr (?q, None)"
    by (simp add: read_deploy_def demo_deploy_def HasPrefix_def decode_deploy_empty)
  have c: "call_scheduler (Some (down, ''http://s'')) ''web'' (rq_Image ?q) None () =
      (Some (Inl (SchedPost ''http://s'' False ''refused'')), ())"
    by (simp add: call_scheduler_def ClientDeploy_def down_def read_answer_def)
  from scheduler_failure_hidden [OF _ q c] show ?thesis by blast
qed

end
