(* ===== verification/Cli.thy ===== *)
theory Cli
  imports Manifest Upload Api
begin

text \<open>
  The command line client, \<^verbatim>\<open>cli/cmd\<close>: the API client (\<^verbatim>\<open>client.go\<close>), and the commands \<^verbatim>\<open>login\<close>,
  \<^verbatim>\<open>regions\<close> and \<^verbatim>\<open>deploy\<close>. The configuration (the package viper) is the function that reads a key of
  it; the transport is arbitrary. Printed output is returned with a command's outcome. The theorems
  connect the commands to the API and, through it, to the scheduler.
\<close>

section \<open>Requests\<close>

datatype cli_body =
    EmptyBody
  | JsonBody string
  | FormBody "(string \<times> string) list" string string "(string, string) result"
      \<comment> \<open>fields, the file's field and name, and its bytes or the error that breaks the stream off\<close>

record cli_request =
  cq_method :: string
  cq_url :: string
  cq_accept :: string
  cq_auth :: string            \<comment> \<open>empty: no such header\<close>
  cq_ctype :: string
  cq_body :: cli_body

type_synonym 's cli_transport = "cli_request \<Rightarrow> 's \<Rightarrow> (http_error, http_response) result \<times> 's"

datatype cli_error =
    CliRequest string
  | CliDo string string string            \<comment> \<open>method, URL, cause\<close>
  | CliStatus string string nat string    \<comment> \<open>method, URL, status, body\<close>
  | CliDecode
  | CliManifest manifest_error
  | CliService manifest_error
  | CliUsage
  | CliSave string
  | CliPanic

fun cli_error_text :: "(string \<Rightarrow> string) \<Rightarrow> cli_error \<Rightarrow> string" where
  "cli_error_text quote (CliRequest e) = ''build request: '' @ e"
| "cli_error_text quote (CliDo m u e) = m @ '' '' @ u @ '': '' @ e"
| "cli_error_text quote (CliStatus m u st b) = m @ '' '' @ u @ '': '' @ status_line st @ '': '' @ b"
| "cli_error_text quote CliDecode = ''decode response''"
| "cli_error_text quote (CliManifest e) = ''read manifest: '' @ manifest_error_text quote e"
| "cli_error_text quote (CliService e) = manifest_error_text quote e"
| "cli_error_text quote CliUsage = ''--email and --api-key are required''"
| "cli_error_text quote (CliSave e) = ''saving token: '' @ e"
| "cli_error_text quote CliPanic = ''runtime error: index out of range''"

type_synonym config = "string \<Rightarrow> string"

definition authToken :: "config \<Rightarrow> string" where
  "authToken cfg = cfg ''token''"

definition apiBase :: "config \<Rightarrow> string" where
  "apiBase cfg = (if cfg ''api_url'' \<noteq> [] then cfg ''api_url'' else ''https://api.antariksh.in'')"

definition newRequest :: "config \<Rightarrow> string \<Rightarrow> string \<Rightarrow> cli_body \<Rightarrow> cli_request" where
  "newRequest cfg method path body =
     \<lparr>cq_method = method, cq_url = apiBase cfg @ path, cq_accept = ''application/json'',
      cq_auth = (let t = authToken cfg in if t \<noteq> [] then ''Bearer '' @ t else []), cq_ctype = [],
      cq_body = body\<rparr>"

definition doWith ::
  "'s cli_transport \<Rightarrow> cli_request \<Rightarrow> (string \<Rightarrow> 'a option) \<Rightarrow> 's \<Rightarrow> (cli_error, 'a) result \<times> 's" where
  "doWith tr req decode s =
     (let (r, s') = tr req s in
      (case r of
         Inl (BadURL e) \<Rightarrow> Inl (CliRequest e)
       | Inl (Transport e) \<Rightarrow> Inl (CliDo (cq_method req) (cq_url req) e)
       | Inr resp \<Rightarrow>
           if rs_status resp < 200 \<or> rs_status resp \<ge> 300
           then Inl (CliStatus (cq_method req) (cq_url req) (rs_status resp) (take 4096 (rs_body resp)))
           else (case decode (rs_body resp) of None \<Rightarrow> Inl CliDecode | Some x \<Rightarrow> Inr x), s'))"

definition apiGet ::
  "'s cli_transport \<Rightarrow> config \<Rightarrow> string \<Rightarrow> (string \<Rightarrow> 'a option) \<Rightarrow> 's \<Rightarrow> (cli_error, 'a) result \<times> 's" where
  "apiGet tr cfg path decode s = doWith tr (newRequest cfg ''GET'' path EmptyBody) decode s"

definition apiPost ::
  "'s cli_transport \<Rightarrow> config \<Rightarrow> string \<Rightarrow> json \<Rightarrow> (string \<Rightarrow> 'a option) \<Rightarrow> 's \<Rightarrow>
   (cli_error, 'a) result \<times> 's" where
  "apiPost tr cfg path body decode s =
     doWith tr ((newRequest cfg ''POST'' path (JsonBody (json_enc body)))\<lparr>cq_ctype := ''application/json''\<rparr>) decode s"

text \<open>\<open>boundary\<close> is the random boundary of the multipart writer.\<close>

definition apiPostMultipart ::
  "'s cli_transport \<Rightarrow> config \<Rightarrow> string \<Rightarrow> string \<Rightarrow> (string \<times> string) list \<Rightarrow> string \<Rightarrow> string \<Rightarrow>
   (string, string) result \<Rightarrow> (string \<Rightarrow> 'a option) \<Rightarrow> 's \<Rightarrow> (cli_error, 'a) result \<times> 's" where
  "apiPostMultipart tr cfg boundary path form_fields fileField fileName file decode s =
     doWith tr ((newRequest cfg ''POST'' path (FormBody form_fields fileField fileName file))
       \<lparr>cq_ctype := ''multipart/form-data; boundary='' @ boundary\<rparr>) decode s"

section \<open>Login\<close>

definition decode_session :: "string \<Rightarrow> (string \<times> string) option" where
  "decode_session body =
     (case json_decode body of
        Some (JObj ms) \<Rightarrow>
          (let names = [''token'', ''email'', ''expires_at'']; (tok, e1) = str_field names ''token'' ms;
               (email, e2) = str_field names ''email'' ms; (_, e3) = int_field names ''expires_at'' ms
           in if e1 \<or> e2 \<or> e3 then None else Some (tok, email))
      | Some JNull \<Rightarrow> Some ([], [])
      | _ \<Rightarrow> None)"

text \<open>A map is marshalled with its keys in order.\<close>

definition doLogin ::
  "'s cli_transport \<Rightarrow> config \<Rightarrow> string \<Rightarrow> string \<Rightarrow> 's \<Rightarrow> (cli_error, string \<times> string) result \<times> 's" where
  "doLogin tr cfg email apiKey s =
     apiPost tr cfg ''/v1/auth/login'' (JObj [(''api_key'', JStr apiKey), (''email'', JStr email)]) decode_session s"

definition configPath :: "string \<Rightarrow> string \<Rightarrow> string" where
  "configPath cfgFile home = (if cfgFile \<noteq> [] then cfgFile else JoinPath [home, ''.antctl.yaml''])"

text \<open>
  \<open>write_config\<close> writes the settings to a path and may fail; the result is the error and the
  configuration the next command reads.
\<close>

definition saveToken ::
  "(string \<Rightarrow> config \<Rightarrow> string option) \<Rightarrow> string \<Rightarrow> string \<Rightarrow> string \<Rightarrow> config \<Rightarrow> string option \<times> config" where
  "saveToken write_config path token email cfg =
     (let cfg' = cfg(''token'' := token, ''email'' := email) in
      case write_config path cfg' of Some e \<Rightarrow> (Some e, cfg) | None \<Rightarrow> (None, cfg'))"

definition dash :: string where
  "dash = map char_of [226::nat, 128, 148]"

definition ellipsis :: string where
  "ellipsis = map char_of [226::nat, 128, 166]"

definition loginCmd ::
  "'s cli_transport \<Rightarrow> (string \<Rightarrow> config \<Rightarrow> string option) \<Rightarrow> string \<Rightarrow> string \<Rightarrow> string \<Rightarrow> config \<Rightarrow> 's \<Rightarrow>
   (cli_error, string) result \<times> config \<times> 's" where
  "loginCmd tr write_config path email apiKey cfg s =
     (if email = [] \<or> apiKey = [] then (Inl CliUsage, cfg, s)
      else (case doLogin tr cfg email apiKey s of
              (Inl e, s') \<Rightarrow> (Inl e, cfg, s')
            | (Inr (token, got), s') \<Rightarrow>
                (case saveToken write_config path token got cfg of
                   (Some e, cfg') \<Rightarrow> (Inl (CliSave e), cfg', s')
                 | (None, cfg') \<Rightarrow>
                     (Inr (''logged in as '' @ got @ '' '' @ dash @ '' token saved to '' @ path @ newline), cfg', s'))))"

section \<open>Regions\<close>

record cli_region =
  cg_Slug :: string
  cg_DisplayName :: string
  cg_Status :: string
  cg_CountryCode :: string
  cg_ResidencyRule :: string
  cg_PaymentGateway :: string
  cg_Currency :: string

text \<open>
  A member that is decoded into a nested struct: the members of all its objects, and whether there
  was an error. A repeated array member is read from its last occurrence.
\<close>

fun add_obj :: "json \<Rightarrow> (string \<times> json) list \<times> bool \<Rightarrow> (string \<times> json) list \<times> bool" where
  "add_obj (JObj ms) (acc, e) = (acc @ ms, e)"
| "add_obj JNull (acc, e) = (acc, e)"
| "add_obj _ (acc, e) = (acc, True)"

definition obj_field :: "string list \<Rightarrow> string \<Rightarrow> (string \<times> json) list \<Rightarrow> (string \<times> json) list \<times> bool" where
  "obj_field names f ms = foldl (\<lambda>a (k, v). if key_matches names f k then add_obj v a else a) ([], False) ms"

fun set_arr :: "json \<Rightarrow> json list \<times> bool \<Rightarrow> json list \<times> bool" where
  "set_arr (JArr vs) (_, e) = (vs, e)"
| "set_arr JNull (_, e) = ([], e)"
| "set_arr _ (vs, e) = (vs, True)"

definition arr_field :: "string list \<Rightarrow> string \<Rightarrow> (string \<times> json) list \<Rightarrow> json list \<times> bool" where
  "arr_field names f ms = foldl (\<lambda>a (k, v). if key_matches names f k then set_arr v a else a) ([], False) ms"

definition region_of_members :: "(string \<times> json) list \<Rightarrow> cli_region option" where
  "region_of_members ms =
     (let names = [''slug'', ''display_name'', ''status'', ''jurisdiction''];
          jnames = [''country_code'', ''residency_rule'', ''payment_gateway'', ''currency''];
          (js, e) = obj_field names ''jurisdiction'' ms;
          top = map (\<lambda>f. str_field names f ms) [''slug'', ''display_name'', ''status''];
          sub = map (\<lambda>f. str_field jnames f js) jnames
      in if e \<or> list_ex snd (top @ sub) then None
         else Some \<lparr>cg_Slug = fst (top ! 0), cg_DisplayName = fst (top ! 1), cg_Status = fst (top ! 2),
           cg_CountryCode = fst (sub ! 0), cg_ResidencyRule = fst (sub ! 1), cg_PaymentGateway = fst (sub ! 2),
           cg_Currency = fst (sub ! 3)\<rparr>)"

fun decode_region :: "json \<Rightarrow> cli_region option" where
  "decode_region (JObj ms) = region_of_members ms"
| "decode_region JNull = region_of_members []"
| "decode_region _ = None"

fun decode_all :: "json list \<Rightarrow> cli_region list option" where
  "decode_all [] = Some []"
| "decode_all (v # vs) =
     (case (decode_region v, decode_all vs) of (Some r, Some rs) \<Rightarrow> Some (r # rs) | _ \<Rightarrow> None)"

definition decode_regions :: "string \<Rightarrow> cli_region list option" where
  "decode_regions body =
     (case json_decode body of
        Some (JObj ms) \<Rightarrow>
          (let (vs, e) = arr_field [''regions''] ''regions'' ms in if e then None else decode_all vs)
      | Some JNull \<Rightarrow> Some []
      | _ \<Rightarrow> None)"

text \<open>The rows of the table, as they are handed to the tab writer.\<close>

definition region_row :: "cli_region \<Rightarrow> string list" where
  "region_row r = [cg_Slug r, cg_DisplayName r, cg_CountryCode r, cg_ResidencyRule r, cg_PaymentGateway r,
     cg_Currency r, cg_Status r]"

definition table_header :: "string list" where
  "table_header = [''SLUG'', ''REGION'', ''COUNTRY'', ''RESIDENCY'', ''GATEWAY'', ''CURRENCY'', ''STATUS'']"

definition regionsCmd ::
  "'s cli_transport \<Rightarrow> config \<Rightarrow> 's \<Rightarrow> (cli_error, string list list) result \<times> 's" where
  "regionsCmd tr cfg s =
     (case apiGet tr cfg ''/v1/regions'' decode_regions s of
        (Inl e, s') \<Rightarrow> (Inl e, s')
      | (Inr rs, s') \<Rightarrow>
          (Inr (table_header # map region_row rs), s'))"

section \<open>Deploy\<close>

fun firstNonEmpty :: "string list \<Rightarrow> string" where
  "firstNonEmpty [] = []"
| "firstNonEmpty (v # vs) = (if v \<noteq> [] then v else firstNonEmpty vs)"

record cli_deployment =
  cd_ID :: string
  cd_ServiceID :: string
  cd_EnvID :: string
  cd_Image :: string
  cd_Status :: string
  cd_CreatedAt :: string
  cd_URL :: string

definition decode_deployment :: "string \<Rightarrow> cli_deployment option" where
  "decode_deployment body =
     (case json_decode body of
        Some (JObj ms) \<Rightarrow>
          (let names = [''id'', ''service_id'', ''env_id'', ''image'', ''status'', ''created_at'', ''url''];
               fs = map (\<lambda>f. str_field names f ms) names
           in if list_ex snd fs then None
              else Some \<lparr>cd_ID = fst (fs ! 0), cd_ServiceID = fst (fs ! 1), cd_EnvID = fst (fs ! 2),
                cd_Image = fst (fs ! 3), cd_Status = fst (fs ! 4), cd_CreatedAt = fst (fs ! 5), cd_URL = fst (fs ! 6)\<rparr>)
      | Some JNull \<Rightarrow> Some \<lparr>cd_ID = [], cd_ServiceID = [], cd_EnvID = [], cd_Image = [], cd_Status = [],
                             cd_CreatedAt = [], cd_URL = []\<rparr>
      | _ \<Rightarrow> None)"

record deploy_flags =
  fl_region :: string
  fl_service :: string
  fl_org :: string
  fl_project :: string
  fl_env :: string

definition deploy_url_path :: "string \<Rightarrow> string \<Rightarrow> string \<Rightarrow> string" where
  "deploy_url_path org proj svc = ''/v1/orgs/'' @ org @ ''/projects/'' @ proj @ ''/services/'' @ svc @ ''/deploy''"

definition deploy_report :: "cli_deployment \<Rightarrow> string \<Rightarrow> string \<Rightarrow> string \<Rightarrow> string \<Rightarrow> string \<Rightarrow> string list" where
  "deploy_report dep org proj svc e region =
     (''deployment '' @ cd_ID dep @ '' '' @ dash @ '' '' @ org @ ''/'' @ proj @ ''/'' @ svc @ '' (env='' @ e @
        '', region='' @ region @ '') status='' @ cd_Status dep @ newline)
     # (if cd_URL dep \<noteq> [] then [''  live at '' @ cd_URL dep @ newline] else [])"

text \<open>
  \<open>read_file\<close> and \<open>toml\<close> are those of \<open>Load\<close>, \<open>tree\<close> is the file tree at a path, \<open>targz\<close> writes the
  archive. The result is the printed lines, with the error that ended the command.
\<close>

definition deployCmd ::
  "'s cli_transport \<Rightarrow> (string \<Rightarrow> (string, string) result) \<Rightarrow> (string \<Rightarrow> (string, manifest) result) \<Rightarrow>
   (string \<Rightarrow> fnode) \<Rightarrow> (tar_entry list \<Rightarrow> string) \<Rightarrow> string \<Rightarrow> config \<Rightarrow> deploy_flags \<Rightarrow> string list \<Rightarrow> 's \<Rightarrow>
   (string list \<times> cli_error option) \<times> 's" where
  "deployCmd tr read_file toml tree targz boundary cfg fl args s =
     (let root = (case args of [] \<Rightarrow> ''.'' | a # _ \<Rightarrow> a) in
      case Load read_file toml (JoinPath [root, ''platform.toml'']) of
        Inl e \<Rightarrow> (([], Some (CliManifest e)), s)
      | Inr m \<Rightarrow>
          (case ServiceByName m (fl_service fl) of
             None \<Rightarrow> (([], Some CliPanic), s)
           | Some (Inl e) \<Rightarrow> (([], Some (CliService e)), s)
           | Some (Inr i) \<Rightarrow>
               (let svc = sv_Name (mf_Services m ! i);
                    org = firstNonEmpty [fl_org fl, ap_Org (mf_App m)];
                    proj = firstNonEmpty [fl_project fl, ap_Project (mf_App m)];
                    region = firstNonEmpty [fl_region fl, ap_Region (mf_App m)];
                    form_fields = [(''builder'', bd_Builder (mf_Build m)), (''region'', region), (''env'', fl_env fl)];
                    first_line = ''uploading source from '' @ root @ '' '' @ ellipsis @ newline;
                    (r, s') = apiPostMultipart tr cfg boundary (deploy_url_path org proj svc) form_fields ''source''
                      ''source.tar.gz'' (tarGzDir targz (tree root)) decode_deployment s
                in case r of
                     Inl e \<Rightarrow> (([first_line], Some e), s')
                   | Inr dep \<Rightarrow> ((first_line # deploy_report dep org proj svc (fl_env fl) region, None), s'))))"

section \<open>Delivery to the API\<close>

text \<open>
  The API's view of a request: the path below \<^verbatim>\<open>/v1\<close>, and the parsed form of a multipart body. A
  request whose body breaks off fails in the transport.
\<close>

definition api_request_of :: "string \<Rightarrow> cli_request \<Rightarrow> api_request" where
  "api_request_of base q =
     \<lparr>ar_method = cq_method q, ar_path = drop (length base + 3) (cq_url q), ar_auth = cq_auth q,
      ar_ctype = cq_ctype q, ar_body = (case cq_body q of JsonBody b \<Rightarrow> b | _ \<Rightarrow> []),
      ar_form = (case cq_body q of
         FormBody fs fileField fileName src \<Rightarrow>
           Inr \<lparr>up_value = (\<lambda>k. case map_of fs k of Some v \<Rightarrow> v | None \<Rightarrow> []),
                up_source = (if fileField = ''source'' then src else Inl ''http: no such file'')\<rparr>
       | _ \<Rightarrow> Inl ''request Content-Type isn't multipart/form-data'')\<rparr>"

definition broken_body :: "cli_body \<Rightarrow> string option" where
  "broken_body b = (case b of FormBody _ _ _ (Inl e) \<Rightarrow> Some e | _ \<Rightarrow> None)"

definition to_api ::
  "(time \<times> nat list \<times> api_request \<Rightarrow> store \<times> 's \<Rightarrow> http_response \<times> store \<times> 's) \<Rightarrow> string \<Rightarrow> time \<Rightarrow> nat list \<Rightarrow>
   (store \<times> 's) cli_transport" where
  "to_api srv base now rnd q st =
     (case broken_body (cq_body q) of
        Some e \<Rightarrow> (Inl (Transport e), st)
      | None \<Rightarrow>
          if HasPrefix (cq_url q) (base @ ''/v1'')
          then (let (resp, st') = srv (now, rnd, api_request_of base q) st in (Inr resp, st'))
          else (Inr NotFound, st))"

lemma doWith_to_api:
  assumes "broken_body (cq_body q) = None" "cq_url q = base @ ''/v1'' @ path"
    and "srv (now, rnd, api_request_of base q) st = (resp, st')"
  shows "doWith (to_api srv base now rnd) q decode st =
    (if rs_status resp < 200 \<or> rs_status resp \<ge> 300
     then Inl (CliStatus (cq_method q) (cq_url q) (rs_status resp) (take 4096 (rs_body resp)))
     else (case decode (rs_body resp) of None \<Rightarrow> Inl CliDecode | Some x \<Rightarrow> Inr x), st')"
proof -
  have "HasPrefix (base @ ''/v1'' @ path) (base @ ''/v1'')"
    using HasPrefix_append [of "base @ ''/v1''" path] by simp
  with assms show ?thesis by (simp add: doWith_def to_api_def)
qed

lemma newline_stops [simp]: "stops newline"
  by (simp add: newline_def stops_def is_num_char_def is_digit_def)

section \<open>A session\<close>

lemma decode_login_sorted:
  assumes "valid_utf8 email" "valid_utf8 key"
  shows "decode_login (json_enc (JObj [(''api_key'', JStr key), (''email'', JStr email)])) = Some (email, key)"
proof -
  have "json_decode (json_enc (JObj [(''api_key'', JStr key), (''email'', JStr email)]) @ []) =
      Some (JObj [(''api_key'', JStr key), (''email'', JStr email)])"
    by (rule json_decode_enc) (use assms in \<open>simp_all add: valid_utf8_ascii\<close>)
  then show ?thesis by (simp add: decode_login_def str_field_def key_matches_def)
qed

lemma decode_session_json:
  assumes "valid_utf8 tok" "valid_utf8 email" "int64 t"
  shows "decode_session (json_enc (login_json tok email t) @ newline) = Some (tok, email)"
proof -
  have "json_decode (json_enc (login_json tok email t) @ newline) = Some (login_json tok email t)"
    by (rule json_decode_enc) (use assms in \<open>simp_all add: login_json_def JInt_wf valid_utf8_ascii\<close>,
      simp_all add: JInt_def)
  then show ?thesis
    using assms(3) by (simp add: decode_session_def login_json_def str_field_def int_field_def key_matches_def JInt_def
        parse_int64_itoa)
qed

definition cli_region_of :: "region_entry \<Rightarrow> cli_region" where
  "cli_region_of e =
     (let r = en_Region e; j = rg_Jurisdiction r in
      \<lparr>cg_Slug = rg_Slug r, cg_DisplayName = rg_DisplayName r, cg_Status = region_status_text (en_Status e),
       cg_CountryCode = jp_CountryCode j, cg_ResidencyRule = residency_text (jp_ResidencyRule j),
       cg_PaymentGateway = jp_PaymentGateway j, cg_Currency = jp_Currency j\<rparr>)"

lemma jurisdiction_fields:
  "\<exists>js. jurisdiction_json j = JObj js \<and>
     map (\<lambda>f. str_field [''country_code'', ''residency_rule'', ''payment_gateway'', ''currency''] f js)
       [''country_code'', ''residency_rule'', ''payment_gateway'', ''currency''] =
     [(jp_CountryCode j, False), (residency_text (jp_ResidencyRule j), False), (jp_PaymentGateway j, False),
      (jp_Currency j, False)]"
proof -
  obtain js where js: "jurisdiction_json j = JObj js" "list_all snake (map fst js)" "distinct (map fst js)"
    "map (map_of js) [''country_code'', ''residency_rule'', ''payment_gateway'', ''currency''] =
       map (Some \<circ> JStr) [jp_CountryCode j, residency_text (jp_ResidencyRule j), jp_PaymentGateway j, jp_Currency j]"
    by (simp add: jurisdiction_json_def snake_def)
  have "map_of js ''country_code'' = Some (JStr (jp_CountryCode j))"
    "map_of js ''residency_rule'' = Some (JStr (residency_text (jp_ResidencyRule j)))"
    "map_of js ''payment_gateway'' = Some (JStr (jp_PaymentGateway j))"
    "map_of js ''currency'' = Some (JStr (jp_Currency j))"
    using js(4) by (simp_all only: list.map list.inject comp_def)
  with js(1) show ?thesis
    by (intro exI [of _ js]) (simp add: str_field_snake [OF _ js(2,3)] snake_def)
qed

lemma entry_fields:
  assumes "jurisdiction_json (rg_Jurisdiction (en_Region e)) = JObj js"
  obtains ms where "entry_json e = JObj ms"
    "obj_field [''slug'', ''display_name'', ''status'', ''jurisdiction''] ''jurisdiction'' ms = (js, False)"
    "map (\<lambda>f. str_field [''slug'', ''display_name'', ''status'', ''jurisdiction''] f ms)
       [''slug'', ''display_name'', ''status''] =
     [(rg_Slug (en_Region e), False), (rg_DisplayName (en_Region e), False), (region_status_text (en_Status e), False)]"
proof -
  obtain ms where ms: "entry_json e = JObj ms" "list_all snake (map fst ms)" "distinct (map fst ms)"
    "map_of ms ''jurisdiction'' = Some (JObj js)"
    "map (map_of ms) [''slug'', ''display_name'', ''status''] =
       map (Some \<circ> JStr) [rg_Slug (en_Region e), rg_DisplayName (en_Region e), region_status_text (en_Status e)]"
    using assms by (simp add: entry_json_def Let_def snake_def)
  show thesis
    by (rule that [OF ms(1)])
      (use ms(4,5) in \<open>simp_all add: str_field_snake [OF _ ms(2,3)] obj_field_def field_fold_snake [OF _ ms(2,3)] snake_def\<close>)
qed

lemma decode_region_entry: "decode_region (entry_json e) = Some (cli_region_of e)"
proof -
  let ?names = "[''slug'', ''display_name'', ''status'', ''jurisdiction'']"
  let ?jnames = "[''country_code'', ''residency_rule'', ''payment_gateway'', ''currency'']"
  obtain js where js: "jurisdiction_json (rg_Jurisdiction (en_Region e)) = JObj js"
    and sub: "map (\<lambda>f. str_field ?jnames f js) ?jnames =
      [(jp_CountryCode (rg_Jurisdiction (en_Region e)), False),
       (residency_text (jp_ResidencyRule (rg_Jurisdiction (en_Region e))), False),
       (jp_PaymentGateway (rg_Jurisdiction (en_Region e)), False), (jp_Currency (rg_Jurisdiction (en_Region e)), False)]"
    using jurisdiction_fields [of "rg_Jurisdiction (en_Region e)"] by (elim exE conjE) (rule that)
  obtain ms where ms: "entry_json e = JObj ms" "obj_field ?names ''jurisdiction'' ms = (js, False)"
    and top: "map (\<lambda>f. str_field ?names f ms) [''slug'', ''display_name'', ''status''] =
      [(rg_Slug (en_Region e), False), (rg_DisplayName (en_Region e), False),
       (region_status_text (en_Status e), False)]"
    by (rule entry_fields [OF js])
  show ?thesis
    unfolding ms(1) decode_region.simps region_of_members_def Let_def ms(2) prod.case top sub
    by (simp add: cli_region_of_def Let_def)
qed

lemma decode_all_entries: "decode_all (map entry_json es) = Some (map cli_region_of es)"
  by (induction es) (simp_all add: decode_region_entry)

lemma decode_regions_catalog: "decode_regions (json_enc regions_json @ newline) = Some (map cli_region_of Catalog)"
proof -
  have "json_decode (json_enc regions_json @ newline) = Some regions_json"
    by (rule json_decode_enc [OF regions_json_wf regions_json_depth newline_stops])
  then show ?thesis
    by (simp add: decode_regions_def regions_json_def arr_field_def key_matches_def decode_all_entries)
qed

lemma api_path [simp]: "drop (length base + 3) (base @ CHR ''/'' # CHR ''v'' # CHR ''1'' # path) = path"
  by simp

lemma doLogin_delivered:
  assumes u: "valid_utf8 email" "valid_utf8 key" "email \<noteq> []" "key \<noteq> []"
    and t: "int64 (Unix (now + tokenTTL))"
    and chi: "chi v1_routes ''POST'' ''/auth/login'' = Some (LoginEP, ps)"
  shows "\<exists>body. doLogin (to_api (v1_server chi unmatched ac sorter sched) (apiBase cfg) now rnd) cfg email key st =
    (if key = cf_apiKey ac then Inr (Issue (cf_secret ac) email tokenTTL now, email)
     else Inl (CliStatus ''POST'' (apiBase cfg @ ''/v1/auth/login'') 401 body), st)"
proof -
  let ?q = "(newRequest cfg ''POST'' ''/v1/auth/login''
    (JsonBody (json_enc (JObj [(''api_key'', JStr key), (''email'', JStr email)]))))\<lparr>cq_ctype := ''application/json''\<rparr>"
  let ?srv = "v1_server chi unmatched ac sorter sched"
  let ?resp = "loginHandler (cf_secret ac) (cf_apiKey ac) now (ar_body (api_request_of (apiBase cfg) ?q))"
  have q: "broken_body (cq_body ?q) = None" "cq_url ?q = apiBase cfg @ ''/v1'' @ ''/auth/login''"
    by (simp_all add: newRequest_def broken_body_def)
  have srv: "?srv (now, rnd, api_request_of (apiBase cfg) ?q) st = (?resp, st)"
    using chi by (simp add: v1_server_def v1Router_def api_request_of_def newRequest_def)
  have b: "ar_body (api_request_of (apiBase cfg) ?q) = json_enc (JObj [(''api_key'', JStr key), (''email'', JStr email)])"
    by (simp add: api_request_of_def newRequest_def)
  have resp: "?resp = (if key = cf_apiKey ac
      then writeJSON 200 (login_json (Issue (cf_secret ac) email tokenTTL now) email (Unix (now + tokenTTL)))
      else writeJSONError 401 ''invalid credentials'')"
    unfolding b loginHandler_def decode_login_sorted [OF u(1,2)] using u by simp
  show ?thesis
  proof (cases "key = cf_apiKey ac")
    case True
    then show ?thesis
      unfolding doLogin_def apiPost_def doWith_to_api [where srv = ?srv, OF q srv] resp
      using decode_session_json [OF Issue_utf8 u(1) t] by (simp add: writeJSON_def)
  next
    case False
    then show ?thesis
      unfolding doLogin_def apiPost_def doWith_to_api [where srv = ?srv, OF q srv] resp
      by (simp add: newRequest_def)
  qed
qed

lemma regionsCmd_delivered:
  assumes chi: "chi v1_routes ''GET'' ''/regions'' = Some (RegionsEP, ps)"
    and tok: "cfg ''token'' = tok" "tok \<noteq> []"
  shows "\<exists>body. regionsCmd (to_api (v1_server chi unmatched ac sorter sched) (apiBase cfg) now rnd) cfg st =
    (case Verify (cf_secret ac) tok now of
       Inr _ \<Rightarrow> Inr (table_header # map (region_row \<circ> cli_region_of) Catalog)
     | Inl _ \<Rightarrow> Inl (CliStatus ''GET'' (apiBase cfg @ ''/v1/regions'') 401 body), st)"
proof -
  let ?q = "newRequest cfg ''GET'' ''/v1/regions'' EmptyBody"
  let ?srv = "v1_server chi unmatched ac sorter sched"
  have q: "broken_body (cq_body ?q) = None" "cq_url ?q = apiBase cfg @ ''/v1'' @ ''/regions''"
    by (simp_all add: newRequest_def broken_body_def)
  have r: "ar_method (api_request_of (apiBase cfg) ?q) = ''GET''" "ar_path (api_request_of (apiBase cfg) ?q) = ''/regions''"
    "ar_auth (api_request_of (apiBase cfg) ?q) = ''Bearer '' @ tok"
    using tok by (simp_all add: api_request_of_def newRequest_def authToken_def Let_def)
  have "CutPrefix (''Bearer '' @ tok) ''Bearer '' = (tok, True)" by (rule CutPrefix_append)
  then have srv: "?srv (now, rnd, api_request_of (apiBase cfg) ?q) st =
      (case Verify (cf_secret ac) tok now of
         Inr _ \<Rightarrow> regionsHandler | Inl _ \<Rightarrow> writeJSONError 401 ''invalid or expired token'', st)"
    unfolding v1_server_def v1Router_def fst_conv snd_conv r chi option.case prod.case endpoint.case authMiddleware_def
    by (simp add: tok(2) serve_endpoint_def split: sum.split)
  show ?thesis
  proof (cases "Verify (cf_secret ac) tok now")
    case (Inl e)
    then show ?thesis
      unfolding regionsCmd_def apiGet_def doWith_to_api [where srv = ?srv, OF q srv] by (simp add: newRequest_def)
  next
    case (Inr c)
    then show ?thesis
      unfolding regionsCmd_def apiGet_def doWith_to_api [where srv = ?srv, OF q srv]
      using decode_regions_catalog by (simp add: regionsHandler_def writeJSON_def)
  qed
qed

text \<open>
  C8. A CLI session against the API: \<^verbatim>\<open>antctl login\<close> with the right key stores a token with which
  \<^verbatim>\<open>antctl regions\<close> shows exactly the catalog, one row for each region in its order, for 24 hours
  from the login, and reports 401 afterwards; with a wrong key the login reports 401 and stores
  nothing. The multiplexer is assumed to find the two routes.
\<close>

theorem cli_session:
  assumes "valid_utf8 email" "valid_utf8 key" "email \<noteq> []" "key \<noteq> []"
    and "int64 (Unix t0)" "int64 (Unix t0 + 24 * 3600)"
    and "chi v1_routes ''POST'' ''/auth/login'' = Some (LoginEP, ps)"
    and "chi v1_routes ''GET'' ''/regions'' = Some (RegionsEP, ps')"
    and "\<And>c. write_config path c = None"
  shows "\<exists>out body. let srv = to_api (v1_server chi unmatched ac sorter sched) (apiBase cfg) in
    if key = cf_apiKey ac then
      \<exists>cfg'. loginCmd (srv t0 r0) write_config path email key cfg st = (Inr out, cfg', st) \<and>
        regionsCmd (srv t1 r1) cfg' st =
          (if Unix t1 < Unix t0 + 24 * 3600
           then Inr (table_header # map (region_row \<circ> cli_region_of) Catalog)
           else Inl (CliStatus ''GET'' (apiBase cfg @ ''/v1/regions'') 401 body), st)
    else loginCmd (srv t0 r0) write_config path email key cfg st =
      (Inl (CliStatus ''POST'' (apiBase cfg @ ''/v1/auth/login'') 401 body), cfg, st)"
proof -
  note ttl = assms(6) [folded Unix_tokenTTL]
  let ?srv = "to_api (v1_server chi unmatched ac sorter sched) (apiBase cfg)"
  let ?tok = "Issue (cf_secret ac) email tokenTTL t0"
  obtain body where login: "doLogin (?srv t0 r0) cfg email key st =
    (if key = cf_apiKey ac then Inr (?tok, email)
     else Inl (CliStatus ''POST'' (apiBase cfg @ ''/v1/auth/login'') 401 body), st)"
    by (rule exE [OF doLogin_delivered [where chi = chi, OF assms(1-4) ttl assms(7)]])
  show ?thesis
  proof (cases "key = cf_apiKey ac")
    case True
    let ?cfg = "cfg(''token'' := ?tok, ''email'' := email)"
    let ?out = "''logged in as '' @ email @ '' '' @ dash @ '' token saved to '' @ path @ newline"
    have l: "loginCmd (?srv t0 r0) write_config path email key cfg st = (Inr ?out, ?cfg, st)"
      using True login assms(3,4,9) by (simp add: loginCmd_def saveToken_def Let_def)
    have b: "apiBase ?cfg = apiBase cfg" and tk: "?cfg ''token'' = ?tok" by (simp_all add: apiBase_def)
    have v: "Verify (cf_secret ac) ?tok t1 = (if Unix t1 < Unix (t0 + tokenTTL)
        then Inr \<lparr>c_Sub = email, c_Iat = Unix t0, c_Exp = Unix (t0 + tokenTTL)\<rparr> else Inl ErrExpired)"
      by (rule issued_verifies [OF assms(1,5) ttl])
    obtain rbody where "regionsCmd (to_api (v1_server chi unmatched ac sorter sched) (apiBase ?cfg) t1 r1) ?cfg st =
      (case Verify (cf_secret ac) ?tok t1 of
         Inr _ \<Rightarrow> Inr (table_header # map (region_row \<circ> cli_region_of) Catalog)
       | Inl _ \<Rightarrow> Inl (CliStatus ''GET'' (apiBase ?cfg @ ''/v1/regions'') 401 rbody), st)"
      by (rule exE [OF regionsCmd_delivered [where chi = chi and cfg = ?cfg, OF assms(8) tk Issue_nonempty]])
    then have "regionsCmd (?srv t1 r1) ?cfg st =
        (if Unix t1 < Unix (t0 + tokenTTL)
         then Inr (table_header # map (region_row \<circ> cli_region_of) Catalog)
         else Inl (CliStatus ''GET'' (apiBase cfg @ ''/v1/regions'') 401 rbody), st)"
      unfolding v b by (cases "Unix t1 < Unix (t0 + tokenTTL)") (simp_all only: if_True if_False sum.case)
    with l have "\<exists>cfg'. loginCmd (?srv t0 r0) write_config path email key cfg st = (Inr ?out, cfg', st) \<and>
        regionsCmd (?srv t1 r1) cfg' st =
          (if Unix t1 < Unix (t0 + tokenTTL) then Inr (table_header # map (region_row \<circ> cli_region_of) Catalog)
           else Inl (CliStatus ''GET'' (apiBase cfg @ ''/v1/regions'') 401 rbody), st)"
      by (intro exI [of _ ?cfg] conjI)
    then show ?thesis
      unfolding Let_def if_P [OF True] Unix_tokenTTL by (intro exI [of _ ?out] exI [of _ rbody])
  next
    case False
    with login assms(3,4) have "loginCmd (?srv t0 r0) write_config path email key cfg st =
        (Inl (CliStatus ''POST'' (apiBase cfg @ ''/v1/auth/login'') 401 body), cfg, st)"
      by (simp add: loginCmd_def)
    then show ?thesis
      unfolding Let_def if_not_P [OF False] by (intro exI [of _ "[]"] exI [of _ body])
  qed
qed

theorem cli_session_witness:
  "\<exists>out cfg'. loginCmd (to_api demo_server ''http://a'' 0 []) (\<lambda>_ _. None) ''f'' ''a@b.c'' ''k''
      ((\<lambda>_. [])(''api_url'' := ''http://a'')) (NewStore, ()) = (Inr out, cfg', NewStore, ()) \<and>
    (\<exists>rows. regionsCmd (to_api demo_server ''http://a'' 1 []) cfg' (NewStore, ()) = (Inr rows, NewStore, ()))"
proof -
  let ?cfg = "(\<lambda>_. [])(''api_url'' := ''http://a'')"
  have m: "exact_mux v1_routes ''POST'' ''/auth/login'' = Some (LoginEP, \<lambda>_. ''svc'')"
    "exact_mux v1_routes ''GET'' ''/regions'' = Some (RegionsEP, \<lambda>_. ''svc'')"
    by (simp_all add: exact_mux_def v1_routes_def Let_def)
  have b: "apiBase ?cfg = ''http://a''" by (simp add: apiBase_def)
  have "\<exists>out body. let srv = to_api demo_server (apiBase ?cfg) in
      if ''k'' = cf_apiKey \<lparr>cf_secret = ''s'', cf_apiKey = ''k''\<rparr> then
        \<exists>cfg'. loginCmd (srv 0 []) (\<lambda>_ _. None) ''f'' ''a@b.c'' ''k'' ?cfg (NewStore, ()) = (Inr out, cfg', NewStore, ()) \<and>
          regionsCmd (srv 1 []) cfg' (NewStore, ()) =
            (if Unix 1 < Unix 0 + 24 * 3600
             then Inr (table_header # map (region_row \<circ> cli_region_of) Catalog)
             else Inl (CliStatus ''GET'' (apiBase ?cfg @ ''/v1/regions'') 401 body), NewStore, ())
      else loginCmd (srv 0 []) (\<lambda>_ _. None) ''f'' ''a@b.c'' ''k'' ?cfg (NewStore, ()) =
        (Inl (CliStatus ''POST'' (apiBase ?cfg @ ''/v1/auth/login'') 401 body), ?cfg, NewStore, ())"
    unfolding demo_server_def
    by (rule cli_session [where chi = exact_mux, OF _ _ _ _ _ _ m]) (simp_all add: valid_utf8_ascii tokenTTL_def Unix_def int64_def)
  moreover have "Unix 1 < Unix 0 + 24 * 3600" by (simp add: tokenTTL_def Unix_def)
  ultimately show ?thesis unfolding b Let_def by (simp only: if_True api_config.simps simp_thms) blast
qed

section \<open>A deploy from the project directory to the builder\<close>

definition cli_deployment_of :: "deployment \<Rightarrow> string \<Rightarrow> cli_deployment" where
  "cli_deployment_of d url =
     \<lparr>cd_ID = d_ID d, cd_ServiceID = d_ServiceID d, cd_EnvID = d_EnvID d, cd_Image = d_Image d,
      cd_Status = deploy_status_text (d_Status d), cd_CreatedAt = rfc3339 (d_CreatedAt d), cd_URL = url\<rparr>"

lemma deployment_fields:
  assumes "deploy_response d url = JObj ms" "d_FinishedAt d = None"
  shows "map (\<lambda>f. str_field [''id'', ''service_id'', ''env_id'', ''image'', ''status'', ''created_at'', ''url''] f ms)
      [''id'', ''service_id'', ''env_id'', ''image'', ''status'', ''created_at'', ''url''] =
    map (\<lambda>v. (v, False)) [d_ID d, d_ServiceID d, d_EnvID d, d_Image d, deploy_status_text (d_Status d),
      rfc3339 (d_CreatedAt d), url]"
proof -
  have ms: "ms = deployment_members d @ (if url = [] then [] else [(''url'', JStr url)])"
    using assms(1) by (simp add: deploy_response_def)
  have k: "list_all snake (map fst ms)" "distinct (map fst ms)"
    unfolding ms deployment_members_def assms(2) by (simp_all add: snake_def)
  have v: "map_of ms ''id'' = Some (JStr (d_ID d))" "map_of ms ''service_id'' = Some (JStr (d_ServiceID d))"
    "map_of ms ''env_id'' = Some (JStr (d_EnvID d))" "map_of ms ''image'' = Some (JStr (d_Image d))"
    "map_of ms ''status'' = Some (JStr (deploy_status_text (d_Status d)))"
    "map_of ms ''created_at'' = Some (JStr (rfc3339 (d_CreatedAt d)))"
    "map_of ms ''url'' = (if url = [] then None else Some (JStr url))"
    unfolding ms deployment_members_def assms(2) by simp_all
  show ?thesis by (simp add: str_field_snake [OF _ k] v snake_def)
qed

lemma decode_deployment_response:
  assumes "list_all valid_utf8 [d_ID d, d_ServiceID d, d_EnvID d, d_Image d, url]" "d_FinishedAt d = None"
  shows "decode_deployment (json_enc (deploy_response d url) @ newline) = Some (cli_deployment_of d url)"
proof -
  obtain ms where ms: "deploy_response d url = JObj ms" by (simp add: deploy_response_def)
  have wf: "json_wf (deploy_response d url)"
    using deployment_wf [of d] assms(1) by (auto simp: deploy_response_def valid_utf8_ascii)
  have "json_depth (deploy_response d url) \<le> 10000"
    by (auto simp: deploy_response_def deployment_members_def assms(2))
  then have "json_decode (json_enc (deploy_response d url) @ newline) = Some (deploy_response d url)"
    by (rule json_decode_enc [OF wf _ newline_stops])
  then have "json_decode (json_enc (deploy_response d url) @ newline) = Some (JObj ms)"
    by (rule trans [OF _ arg_cong [OF ms]])
  then show ?thesis
    unfolding decode_deployment_def
    by (simp only: option.case json.case Let_def deployment_fields [OF ms assms(2)])
      (simp add: cli_deployment_of_def)
qed

lemma newID_utf8: "list_all (\<lambda>b. b < 256) rnd \<Longrightarrow> valid_utf8 (newID ''dep'' rnd)"
proof -
  assume r: "list_all (\<lambda>b. b < 256) rnd"
  have h: "list_all (\<lambda>n. byte (hex_digit n) < 128) [0..<16]" by (simp add: hex_digit_def upt_rec)
  then have "byte (hex_digit n) < 128" if "n < 16" for n using that by (simp add: list_all_iff)
  then have "list_all (\<lambda>c. byte c < 128) (concat (map hex_byte rnd))"
    using r by (induction rnd) (auto simp: hex_byte_def)
  then show ?thesis by (simp add: newID_def valid_utf8_ascii)
qed

lemma recorded_utf8:
  assumes "list_all (\<lambda>b. b < 256) rnd" "valid_utf8 svc" "valid_utf8 (rq_Env q)" "valid_utf8 (rq_Image q)"
  shows "list_all valid_utf8 [d_ID (recorded svc now rnd q ans), d_ServiceID (recorded svc now rnd q ans),
    d_EnvID (recorded svc now rnd q ans), d_Image (recorded svc now rnd q ans)]"
  using assms newID_utf8 by (simp add: recorded_def valid_utf8_ascii)

text \<open>A source deploy at the API's endpoint, delivered to the scheduler's handler.\<close>

lemma source_deploy_served:
  assumes m: "chi v1_routes (ar_method r) (ar_path r) = Some (DeployEP, ps)" "ps ''serviceID'' = svc" "svc \<noteq> []"
    and auth: "authorised (cf_secret ac) now r"
    and rd: "read_deploy r = Inr (q, Some b)"
    and tmp: "r_err (reply_of env (MkdirTemp [] ''antariksh-src-'') w0) = None"
      "r_out (reply_of env (MkdirTemp [] ''antariksh-src-'') w0) = dir"
    and x: "extractTarGz env gz b dir (exec env (MkdirTemp [] ''antariksh-src-'') w0) = (None, w1)"
    and d: "d \<lparr>dr_Service = svc, dr_Image = rq_Image q, dr_SourceDir = dir\<rparr> (w1, s) = (res, w2, s')"
    and u: "\<And>y. res = Inr y \<Longrightarrow> result_utf8 y"
  shows "\<exists>e. let ans = Some (case res of Inr y \<Rightarrow> Inr y | Inl _ \<Rightarrow> Inl e); dp = recorded svc now rnd q ans in
    v1_server chi unmatched ac sorter (Some (to_handler env quote gz d, url)) (now, rnd, r) (sto, w0, s) =
      (writeJSON 202 (deploy_response dp (answer_url ans)), Create sto dp, exec env (RemoveAll dir) w2, s')"
proof -
  let ?tr = "to_handler env quote gz d"
  let ?h = "\<lambda>c. serve_endpoint sorter (Some (?tr, url)) DeployEP svc now rnd r"
  have cd: "ClientDeployWithSource ?tr url svc (rq_Image q) b (w0, s) =
      (case res of Inr y \<Rightarrow> Inr y
       | Inl e \<Rightarrow> Inl (SchedStatus 502 (take 2048 (rs_body (errJSON 502 (deploy_error_text e))))),
       exec env (RemoveAll dir) w2, s')"
    unfolding tmp(2) [symmetric]
    by (rule ClientDeployWithSource_delivered [where d = d and gz = gz and res = res, OF m(3) refl tmp(1)
          x [folded tmp(2)] d [folded tmp(2)]]) (rule u)
  obtain e where c: "ClientDeployWithSource ?tr url svc (rq_Image q) b (w0, s) =
      (case res of Inr y \<Rightarrow> Inr y | Inl _ \<Rightarrow> Inl e, exec env (RemoveAll dir) w2, s')"
    using cd by (cases res) simp_all
  obtain k where cl: "authMiddleware (cf_secret ac) now (ar_auth r) ?h (sto, w0, s) = ?h k (sto, w0, s)"
    by (rule exE [OF authMiddleware_authorised [OF auth]])
  have "v1_server chi unmatched ac sorter (Some (?tr, url)) (now, rnd, r) (sto, w0, s) = ?h k (sto, w0, s)"
    unfolding v1_server_def fst_conv snd_conv
      v1Router_protected [where chi = chi and r = r, OF m(1) deploy_not_login] m(2) by (rule cl)
  then show ?thesis
    unfolding Let_def
    by (intro exI [of _ e])
      (simp add: serve_endpoint_def deployHandler_cases m(3) rd call_scheduler_def c)
qed

definition upload_request ::
  "config \<Rightarrow> string \<Rightarrow> string \<Rightarrow> manifest \<Rightarrow> deploy_flags \<Rightarrow> (string, string) result \<Rightarrow> cli_request" where
  "upload_request cfg boundary path m fl src =
     (newRequest cfg ''POST'' path (FormBody
        [(''builder'', bd_Builder (mf_Build m)), (''region'', firstNonEmpty [fl_region fl, ap_Region (mf_App m)]),
         (''env'', fl_env fl)] ''source'' ''source.tar.gz'' src))
       \<lparr>cq_ctype := ''multipart/form-data; boundary='' @ boundary\<rparr>"

lemma deployCmd_posts:
  assumes "Load read_file toml (JoinPath [root, ''platform.toml'']) = Inr m"
    and "ServiceByName m (fl_service fl) = Some (Inr i)" and svc: "svc = sv_Name (mf_Services m ! i)"
    and org: "org = firstNonEmpty [fl_org fl, ap_Org (mf_App m)]"
    and proj: "proj = firstNonEmpty [fl_project fl, ap_Project (mf_App m)]"
    and "doWith tr (upload_request cfg boundary (deploy_url_path org proj svc) m fl (tarGzDir targz (tree root)))
      decode_deployment s = (r, s')"
  shows "deployCmd tr read_file toml tree targz boundary cfg fl [root] s =
    (let first_line = ''uploading source from '' @ root @ '' '' @ ellipsis @ newline in
     case r of
       Inl e \<Rightarrow> ([first_line], Some e)
     | Inr dp \<Rightarrow> (first_line # deploy_report dp org proj svc (fl_env fl)
         (firstNonEmpty [fl_region fl, ap_Region (mf_App m)]), None), s')"
  using assms unfolding deployCmd_def apiPostMultipart_def upload_request_def Let_def
  by (simp split: sum.split)

lemma upload_request_read:
  assumes "HasPrefix path ''/v1''" and tok: "cfg ''token'' = tok" "tok \<noteq> []"
  shows "read_deploy (api_request_of (apiBase cfg) (upload_request cfg boundary path m fl (Inr b))) =
      Inr (\<lparr>rq_Builder = bd_Builder (mf_Build m), rq_Region = firstNonEmpty [fl_region fl, ap_Region (mf_App m)],
            rq_Env = fl_env fl, rq_Image = []\<rparr>, Some b)"
    "ar_method (api_request_of (apiBase cfg) (upload_request cfg boundary path m fl (Inr b))) = ''POST''"
    "ar_path (api_request_of (apiBase cfg) (upload_request cfg boundary path m fl (Inr b))) = drop 3 path"
    "ar_auth (api_request_of (apiBase cfg) (upload_request cfg boundary path m fl (Inr b))) = ''Bearer '' @ tok"
  using assms
  by (simp_all add: read_deploy_def api_request_of_def upload_request_def newRequest_def HasPrefix_def authToken_def Let_def)

text \<open>
  \<^verbatim>\<open>antctl deploy\<close>, through the API and the scheduler's handler: with a token the API accepts, for
  a manifest that loads and a service it has, the scheduler's deployer is called for exactly that
  service with a directory in which, at that moment, every path has exactly the regular file the
  project has there (skipped directories apart); the directory is removed afterwards, one deployment
  is recorded, live exactly when the deployer succeeded, and the command prints that deployment with
  its link. The operating system is assumed to report no error and to give a fresh temporary directory.
\<close>

theorem cli_deploy_builds_source:
  fixes s :: 's and d :: "'s deployer"
  assumes load: "Load read_file toml (JoinPath [root, ''platform.toml'']) = Inr m"
    and i: "ServiceByName m (fl_service fl) = Some (Inr i)" and svc: "svc = sv_Name (mf_Services m ! i)"
    and org: "org = firstNonEmpty [fl_org fl, ap_Org (mf_App m)]"
    and proj: "proj = firstNonEmpty [fl_project fl, ap_Project (mf_App m)]"
    and route: "chi v1_routes ''POST'' (drop 3 (deploy_url_path org proj svc)) = Some (DeployEP, ps)"
      "ps ''serviceID'' = svc"
    and tok: "cfg ''token'' = tok" "Verify (cf_secret ac) tok now = Inr c"
    and codec: "archive_codec targz gz"
    and t: "tree_ok (tree root)" "is_folder (tree root)" "tarGzDir targz (tree root) = Inr b"
    and os: "never_fails env" "r_out (reply_of env (MkdirTemp [] ''antariksh-src-'') w0) = abs_path ds"
      "list_all proper ds" "ds \<noteq> []" "\<And>cs. files_of (trace w0) (abs_path (ds @ cs)) = None"
    and u: "valid_utf8 svc" "valid_utf8 (fl_env fl)" "list_all (\<lambda>b. b < 256) rnd"
      "\<forall>w y w'. d \<lparr>dr_Service = svc, dr_Image = [], dr_SourceDir = abs_path ds\<rparr> w = (Inr y, w') \<longrightarrow> result_utf8 y"
  shows "\<exists>w1 w2 res s' dp link.
    (\<forall>cs. list_all proper cs \<longrightarrow> files_of (trace w1) (abs_path (ds @ cs)) =
       map_option (\<lambda>(mode, bytes). (mode mod 512, bytes)) (tree_lookup (tree root) cs)) \<and>
    d \<lparr>dr_Service = svc, dr_Image = [], dr_SourceDir = abs_path ds\<rparr> (w1, s) = (res, w2, s') \<and>
    d_ServiceID dp = svc \<and> d_Status dp = (if succeeded res then DeployLive else DeployPending) \<and>
    link = (case res of Inr y \<Rightarrow> dp_URL y | Inl _ \<Rightarrow> []) \<and>
    deployCmd (to_api (v1_server chi unmatched ac sorter (Some (to_handler env quote gz d, url))) (apiBase cfg) now rnd)
      read_file toml tree targz boundary cfg fl [root] (sto, w0, s) =
      (((''uploading source from '' @ root @ '' '' @ ellipsis @ newline) #
         deploy_report (cli_deployment_of dp link) org proj svc (fl_env fl)
           (firstNonEmpty [fl_region fl, ap_Region (mf_App m)]), None),
       Create sto dp, exec env (RemoveAll (abs_path ds)) w2, s')"
proof -
  let ?path = "deploy_url_path org proj svc" and ?mk = "MkdirTemp [] ''antariksh-src-''"
  let ?q = "upload_request cfg boundary ?path m fl (Inr b)"
  let ?r = "api_request_of (apiBase cfg) ?q"
  let ?srv = "v1_server chi unmatched ac sorter (Some (to_handler env quote gz d, url))"
  let ?rq = "\<lparr>rq_Builder = bd_Builder (mf_Build m), rq_Region = firstNonEmpty [fl_region fl, ap_Region (mf_App m)],
            rq_Env = fl_env fl, rq_Image = []\<rparr>"
  have tne: "tok \<noteq> []" using tok(2) by auto
  have pv: "HasPrefix ?path ''/v1''" by (simp add: deploy_url_path_def HasPrefix_def)
  note rq = upload_request_read [where cfg = cfg, OF pv tok(1) tne, of boundary m fl b]
  have auth: "authorised (cf_secret ac) now ?r" using tok(2) rq(4) authorised_iff by blast
  have ne: "svc \<noteq> []"
    using Load_complete [of read_file toml "JoinPath [root, ''platform.toml'']" m] load i svc
      ServiceByName_complete [of m "fl_service fl"] by (auto simp: complete_def list_all_length)
  have fresh: "files_of (trace (exec env ?mk w0)) (abs_path (ds @ cs)) = None" for cs
    using os(5) by (simp add: files_of_append)
  obtain w1 where x: "extractTarGz env gz b (abs_path ds) (exec env ?mk w0) = (None, w1)"
    using extract_entries_succeeds [OF os(3,4,1) tree_files_extractable [OF t(1,2)]]
      codec tarGzDir_files [OF t(3)] by (force simp: extractTarGz_def archive_codec_def)
  have files: "files_of (trace w1) (abs_path (ds @ cs)) =
      map_option (\<lambda>(mode, bytes). (mode mod 512, bytes)) (tree_lookup (tree root) cs)" if "list_all proper cs" for cs
    by (rule upload_extracted [OF codec t os(3,4) fresh x that])
  obtain res w2 s' where d: "d \<lparr>dr_Service = svc, dr_Image = rq_Image ?rq, dr_SourceDir = abs_path ds\<rparr> (w1, s) = (res, w2, s')"
    by (metis surj_pair)
  have ru: "result_utf8 y" if "res = Inr y" for y
    using u(4) [rule_format, of "(w1, s)" y "(w2, s')"] d that by simp
  have m': "chi v1_routes (ar_method ?r) (ar_path ?r) = Some (DeployEP, ps)" using route(1) rq(2,3) by simp
  obtain e where srv: "let ans = Some (case res of Inr y \<Rightarrow> Inr y | Inl _ \<Rightarrow> Inl e); dp = recorded svc now rnd ?rq ans in
      ?srv (now, rnd, ?r) (sto, w0, s) =
      (writeJSON 202 (deploy_response dp (answer_url ans)), Create sto dp, exec env (RemoveAll (abs_path ds)) w2, s')"
    by (rule exE [OF source_deploy_served [where chi = chi and d = d and gz = gz and res = res,
            OF m' route(2) ne auth rq(1) never_fails_reply [OF os(1)] os(2) x d]])
      (rule ru)
  define ans where "ans = Some (case res of Inr y \<Rightarrow> Inr y | Inl _ \<Rightarrow> Inl e)"
  define dp where "dp = recorded svc now rnd ?rq ans"
  define link where "link = answer_url ans"
  have srv': "?srv (now, rnd, ?r) (sto, w0, s) =
      (writeJSON 202 (deploy_response dp link), Create sto dp, exec env (RemoveAll (abs_path ds)) w2, s')"
    using srv unfolding Let_def ans_def [symmetric] dp_def [symmetric] link_def [symmetric] .
  have link: "link = (case res of Inr y \<Rightarrow> dp_URL y | Inl _ \<Rightarrow> [])"
    by (simp add: link_def ans_def answer_url_def split: sum.split)
  have "valid_utf8 link" using link ru by (auto simp: result_utf8_def valid_utf8_ascii split: sum.splits)
  moreover have "list_all valid_utf8 [d_ID dp, d_ServiceID dp, d_EnvID dp, d_Image dp]"
    unfolding dp_def by (rule recorded_utf8 [OF u(3,1)]) (simp_all add: u(2))
  ultimately have "list_all valid_utf8 [d_ID dp, d_ServiceID dp, d_EnvID dp, d_Image dp, link]" by simp
  then have dec: "decode_deployment (json_enc (deploy_response dp link) @ newline) = Some (cli_deployment_of dp link)"
    by (rule decode_deployment_response) (simp add: dp_def recorded_def)
  have q: "broken_body (cq_body ?q) = None" "cq_url ?q = apiBase cfg @ ''/v1'' @ drop 3 ?path"
    by (simp_all add: upload_request_def newRequest_def broken_body_def deploy_url_path_def)
  have "doWith (to_api ?srv (apiBase cfg) now rnd) (upload_request cfg boundary ?path m fl (tarGzDir targz (tree root)))
      decode_deployment (sto, w0, s) = (Inr (cli_deployment_of dp link), Create sto dp, exec env (RemoveAll (abs_path ds)) w2, s')"
    unfolding t(3) doWith_to_api [where srv = ?srv, OF q srv'] using dec by (simp add: writeJSON_def)
  note cmd = deployCmd_posts [where tree = tree and root = root and read_file = read_file, OF load i svc org proj this, unfolded Let_def sum.case]
  have "d_ServiceID dp = svc" "d_Status dp = (if succeeded res then DeployLive else DeployPending)"
    by (simp_all add: dp_def recorded_def ans_def succeeded_def split: sum.split)
  with files d link cmd show ?thesis by (intro exI conjI) auto
qed

definition tmp_env :: env where
  "tmp_env h c = (case c of MkdirTemp _ _ \<Rightarrow> ok_reply\<lparr>r_out := ''/tmp/src''\<rparr> | _ \<Rightarrow> ok_reply)"

definition web_mux :: mux where
  "web_mux routes m p = (if m = ''POST'' \<and> p = ''/orgs/acme/projects/p/services/web/deploy''
     then Some (DeployEP, \<lambda>_. ''web'') else None)"

definition demo_flags :: deploy_flags where
  "demo_flags = \<lparr>fl_region = [], fl_service = [], fl_org = [], fl_project = [], fl_env = ''production''\<rparr>"

definition demo_cfg_token :: config where
  "demo_cfg_token = (\<lambda>_. [])(''token'' := Issue ''s'' ''a@b.c'' tokenTTL 0, ''api_url'' := ''http://a'')"

text \<open>A concrete deploy: the facts about its input.\<close>

definition demo_api :: api_config where
  "demo_api = \<lparr>cf_secret = ''s'', cf_apiKey = ''k''\<rparr>"

lemma demo_command:
  defines "m \<equiv> demo_manifest [''web'']"
  shows "Load (\<lambda>_. Inr []) (\<lambda>_. Inr m) (JoinPath [''.'', ''platform.toml'']) = Inr m"
    and "ServiceByName m (fl_service demo_flags) = Some (Inr 0)" and "''web'' = sv_Name (mf_Services m ! 0)"
    and "''acme'' = firstNonEmpty [fl_org demo_flags, ap_Org (mf_App m)]"
    and "''p'' = firstNonEmpty [fl_project demo_flags, ap_Project (mf_App m)]"
    and "web_mux v1_routes ''POST'' (drop 3 (deploy_url_path ''acme'' ''p'' ''web'')) = Some (DeployEP, \<lambda>_. ''web'')"
    and "demo_cfg_token ''token'' = Issue ''s'' ''a@b.c'' tokenTTL 0"
    and "Verify (cf_secret demo_api) (Issue ''s'' ''a@b.c'' tokenTTL 0) 0 =
      Inr \<lparr>c_Sub = ''a@b.c'', c_Iat = 0, c_Exp = 86400\<rparr>"
  using issued_verifies [of "''a@b.c''" 0 tokenTTL "''s''" 0]
  by (simp_all add: m_def Load_complete complete_def demo_manifest_def ServiceByName_def demo_flags_def web_mux_def
      deploy_url_path_def demo_cfg_token_def demo_api_def tokenTTL_def Unix_def int64_def valid_utf8_ascii)

lemma demo_upload:
  shows "tree_ok demo_tree" and "is_folder demo_tree" and "never_fails tmp_env"
    and "r_out (reply_of tmp_env (MkdirTemp [] ''antariksh-src-'') boot_os) = abs_path [''tmp'', ''src'']"
    and "list_all proper [''tmp'', ''src'']" and "[''tmp'', ''src''] \<noteq> []"
    and "\<And>cs. files_of (trace boot_os) (abs_path ([''tmp'', ''src''] @ cs)) = None"
    and "valid_utf8 ''web''" and "valid_utf8 (fl_env demo_flags)" and "list_all (\<lambda>b. b < 256) [1::nat]"
  by (simp_all add: demo_tree_def proper_def never_fails_def reply_of_def perform_def tmp_env_def ok_reply_def
      abs_path_def files_of_def boot_os_def demo_flags_def valid_utf8_ascii Let_def split: os_call.split)

theorem cli_deploy_builds_source_witness:
  "\<exists>out dp w'. deployCmd (to_api (v1_server web_mux (\<lambda>_ _. NotFound) demo_api insertion_sort
        (Some (to_handler tmp_env id unary_gunzip up, ''http://s''))) (apiBase demo_cfg_token) 0 [1])
      (\<lambda>_. Inr []) (\<lambda>_. Inr (demo_manifest [''web''])) (\<lambda>_. demo_tree) unary_targz ''b'' demo_cfg_token demo_flags [''.'']
      (NewStore, boot_os, ()) = ((out, None), Create NewStore dp, w', ()) \<and>
    d_ServiceID dp = ''web'' \<and> d_Status dp = DeployLive"
proof -
  let ?req = "\<lparr>dr_Service = ''web'', dr_Image = [], dr_SourceDir = abs_path [''tmp'', ''src'']\<rparr>"
  obtain b where b: "tarGzDir unary_targz demo_tree = Inr b"
    by (simp add: tarGzDir_def demo_tree_def skipDir_def)
  have r: "\<forall>w y w'. up ?req w = (Inr y, w') \<longrightarrow> result_utf8 y"
    by (auto simp: up_def result_utf8_def valid_utf8_ascii)
  note D = cli_deploy_builds_source [where chi = web_mux and ps = "\<lambda>_. ''web''" and d = up and s = "()" and
      tree = "\<lambda>_. demo_tree" and root = "''.''" and unmatched = "\<lambda>_ _. NotFound" and sorter = insertion_sort and
      quote = id and url = "''http://s''" and boundary = "''b''" and sto = NewStore and cfg = demo_cfg_token and
      ds = "[''tmp'', ''src'']" and env = tmp_env,
      OF demo_command(1-6) refl demo_command(7,8) unary_codec demo_upload(1,2) b demo_upload(3-10) r]
  from D obtain w1 w2 res s' dp link out where
    o: "up ?req (w1, ()) = (res, w2, s')" "d_ServiceID dp = ''web''"
      "d_Status dp = (if succeeded res then DeployLive else DeployPending)" and
    c: "deployCmd (to_api (v1_server web_mux (\<lambda>_ _. NotFound) demo_api insertion_sort
        (Some (to_handler tmp_env id unary_gunzip up, ''http://s''))) (apiBase demo_cfg_token) 0 [1])
      (\<lambda>_. Inr []) (\<lambda>_. Inr (demo_manifest [''web''])) (\<lambda>_. demo_tree) unary_targz ''b'' demo_cfg_token demo_flags [''.'']
      (NewStore, boot_os, ()) = ((out, None), Create NewStore dp, exec tmp_env (RemoveAll (abs_path [''tmp'', ''src''])) w2, s')"
    by (elim exE conjE) (rule that, assumption+)
  have "succeeded res" using o(1) by (auto simp: up_def succeeded_def)
  with c o(2,3) show ?thesis by (intro exI conjI) auto
qed

end
