(* ===== verification/Cli_Stubs.thy ===== *)
theory Cli_Stubs
  imports Cli
begin

text \<open>
  The commands of \<^verbatim>\<open>antctl\<close> that are not implemented yet: \<^verbatim>\<open>cli/cmd\<close> \<^verbatim>\<open>init.go\<close>, \<^verbatim>\<open>logs.go\<close>, \<^verbatim>\<open>scale.go\<close>,
  \<^verbatim>\<open>ssh.go\<close>, \<^verbatim>\<open>db.go\<close>, \<^verbatim>\<open>secrets.go\<close>, and \<^verbatim>\<open>open.go\<close>, which opens a placeholder address. A command
  checks its number of arguments, prints what it would do and returns an error. The lemmas: each of
  them fails for every arguments, so no script can take one for done.
\<close>

section \<open>Commands\<close>

datatype arity = ExactArgs nat | RangeArgs nat nat | MinimumNArgs nat | MaximumNArgs nat | AnyArgs

fun args_ok :: "arity \<Rightarrow> string list \<Rightarrow> bool" where
  "args_ok (ExactArgs n) args \<longleftrightarrow> length args = n"
| "args_ok (RangeArgs m n) args \<longleftrightarrow> m \<le> length args \<and> length args \<le> n"
| "args_ok (MinimumNArgs n) args \<longleftrightarrow> n \<le> length args"
| "args_ok (MaximumNArgs n) args \<longleftrightarrow> length args \<le> n"
| "args_ok AnyArgs args \<longleftrightarrow> True"

datatype stub_error =
    WrongArgs arity                 \<comment> \<open>reported by the command line package\<close>
  | MissingFlag string
  | NotImplemented string
  | UnsupportedOS string
  | StartFailed string

fun stub_error_text :: "stub_error \<Rightarrow> string" where
  "stub_error_text (NotImplemented name) =
     name @ '': not yet implemented '' @ dash @ '' contributions welcome''"
| "stub_error_text (UnsupportedOS url) = ''unsupported OS; open '' @ url @ '' manually''"
| "stub_error_text (StartFailed e) = e"
| "stub_error_text (WrongArgs a) = []"
| "stub_error_text (MissingFlag f) = []"

definition errNotImplemented :: "string \<Rightarrow> stub_error option" where
  "errNotImplemented name = Some (NotImplemented name)"

text \<open>A command: its arity, and what it prints and returns for its arguments.\<close>

definition run_stub ::
  "arity \<Rightarrow> (string list \<Rightarrow> string \<times> stub_error option) \<Rightarrow> string list \<Rightarrow> string \<times> stub_error option" where
  "run_stub a f args = (if args_ok a args then f args else ([], Some (WrongArgs a)))"

text \<open>\<open>quote\<close> is the verb \<^verbatim>\<open>%q\<close>, \<open>e\<close> is the flag \<^verbatim>\<open>--env\<close>.\<close>

definition initCmd :: "(string \<Rightarrow> string) \<Rightarrow> string \<Rightarrow> string list \<Rightarrow> string \<times> stub_error option" where
  "initCmd quote wd = run_stub (MaximumNArgs 1) (\<lambda>args.
     (let name = (if length args > 0 then args ! 0 else wd) in
      (''initialising project '' @ quote name @ newline, errNotImplemented ''init'')))"

definition show_bool :: "bool \<Rightarrow> string" where
  "show_bool b = (if b then ''true'' else ''false'')"

definition logsCmd :: "string \<Rightarrow> bool \<Rightarrow> int \<Rightarrow> string list \<Rightarrow> string \<times> stub_error option" where
  "logsCmd e follow tail = run_stub (ExactArgs 1) (\<lambda>args.
     (''logs '' @ args ! 0 @ '' env='' @ e @ '' follow='' @ show_bool follow @ '' tail='' @ itoa tail @ newline,
      errNotImplemented ''logs''))"

definition scaleCmd :: "bool \<Rightarrow> int \<Rightarrow> string \<Rightarrow> string list \<Rightarrow> string \<times> stub_error option" where
  "scaleCmd zero cnt region = run_stub (ExactArgs 1) (\<lambda>args.
     (if zero then ''suspending '' @ args ! 0 @ '' (scale-to-zero snapshot)'' @ newline
      else ''scaling '' @ args ! 0 @ '' '' @ arrow @ '' count='' @ itoa cnt @ '' region='' @ region @ newline,
      errNotImplemented ''scale''))"

definition sshCmd :: "string \<Rightarrow> string list \<Rightarrow> string \<times> stub_error option" where
  "sshCmd e = run_stub (ExactArgs 1) (\<lambda>args.
     (''ssh into '' @ args ! 0 @ '' env='' @ e @ newline, errNotImplemented ''ssh''))"

definition dbBranchCmd :: "(string \<Rightarrow> string) \<Rightarrow> string list \<Rightarrow> string \<times> stub_error option" where
  "dbBranchCmd quote = run_stub (RangeArgs 1 2) (\<lambda>args.
     (let branch = (if length args > 1 then args ! 1 else []) in
      (''branching db='' @ args ! 0 @ '' new-branch='' @ quote branch @ newline, errNotImplemented ''db branch'')))"

definition dbConnectCmd :: "string \<Rightarrow> string list \<Rightarrow> string \<times> stub_error option" where
  "dbConnectCmd e = run_stub (ExactArgs 1) (\<lambda>args.
     (''connecting to db='' @ args ! 0 @ '' env='' @ e @ newline, errNotImplemented ''db connect''))"

text \<open>The flag \<^verbatim>\<open>--to\<close> is required: \<open>None\<close> is its absence.\<close>

definition dbRestoreCmd :: "string option \<Rightarrow> string list \<Rightarrow> string \<times> stub_error option" where
  "dbRestoreCmd to = run_stub (ExactArgs 1) (\<lambda>args.
     (case to of
        None \<Rightarrow> ([], Some (MissingFlag ''to''))
      | Some t \<Rightarrow> (''restoring db='' @ args ! 0 @ '' to='' @ t @ newline, errNotImplemented ''db restore'')))"

definition dbListCmd :: "string \<Rightarrow> string \<Rightarrow> string list \<Rightarrow> string \<times> stub_error option" where
  "dbListCmd project e = run_stub AnyArgs (\<lambda>args.
     (''listing databases project='' @ project @ '' env='' @ e @ newline, errNotImplemented ''db list''))"

definition secretsSetCmd :: "string \<Rightarrow> string list \<Rightarrow> string \<times> stub_error option" where
  "secretsSetCmd e = run_stub (MinimumNArgs 1) (\<lambda>args.
     (''setting '' @ dec (length args) @ '' secret(s) env='' @ e @ newline, errNotImplemented ''secrets set''))"

definition secretsGetCmd :: "(string \<Rightarrow> string) \<Rightarrow> string \<Rightarrow> string list \<Rightarrow> string \<times> stub_error option" where
  "secretsGetCmd quote e = run_stub (ExactArgs 1) (\<lambda>args.
     (''getting secret '' @ quote (args ! 0) @ '' env='' @ e @ newline, errNotImplemented ''secrets get''))"

definition secretsRmCmd :: "string \<Rightarrow> string list \<Rightarrow> string \<times> stub_error option" where
  "secretsRmCmd e = run_stub (MinimumNArgs 1) (\<lambda>args.
     (''removing '' @ dec (length args) @ '' secret(s) env='' @ e @ newline, errNotImplemented ''secrets rm''))"

definition secretsListCmd :: "string \<Rightarrow> string list \<Rightarrow> string \<times> stub_error option" where
  "secretsListCmd e = run_stub AnyArgs (\<lambda>args.
     (''listing secrets env='' @ e @ newline, errNotImplemented ''secrets list''))"

section \<open>Opening a service\<close>

text \<open>\<open>goos\<close> is the operating system's name, \<open>start\<close> starts a command and gives its error.\<close>

definition openBrowser :: "string \<Rightarrow> (string list \<Rightarrow> string option) \<Rightarrow> string \<Rightarrow> stub_error option" where
  "openBrowser goos start url =
     (if goos = ''darwin'' then map_option StartFailed (start [''open'', url])
      else if goos = ''linux'' then map_option StartFailed (start [''xdg-open'', url])
      else Some (UnsupportedOS url))"

definition openCmd :: "string \<Rightarrow> (string list \<Rightarrow> string option) \<Rightarrow> string list \<Rightarrow> string \<times> stub_error option" where
  "openCmd goos start = run_stub (MaximumNArgs 1) (\<lambda>args.
     (let svc = (if length args > 0 then args ! 0 else []);
          url = ''https://'' @ svc @ ''.antariksh.app''
      in (''opening '' @ url @ newline, openBrowser goos start url)))"

section \<open>Lemmas\<close>

lemma stubs_fail:
  "snd (initCmd quote wd args) \<noteq> None" "snd (logsCmd e follow tail args) \<noteq> None"
  "snd (scaleCmd zero cnt region args) \<noteq> None" "snd (sshCmd e args) \<noteq> None"
  "snd (dbBranchCmd quote args) \<noteq> None" "snd (dbConnectCmd e args) \<noteq> None"
  "snd (dbRestoreCmd to args) \<noteq> None" "snd (dbListCmd project e args) \<noteq> None"
  "snd (secretsSetCmd e args) \<noteq> None" "snd (secretsGetCmd quote e args) \<noteq> None"
  "snd (secretsRmCmd e args) \<noteq> None" "snd (secretsListCmd e args) \<noteq> None"
  by (simp_all add: initCmd_def logsCmd_def scaleCmd_def sshCmd_def dbBranchCmd_def dbConnectCmd_def dbRestoreCmd_def
      dbListCmd_def secretsSetCmd_def secretsGetCmd_def secretsRmCmd_def secretsListCmd_def run_stub_def
      errNotImplemented_def Let_def split: option.split)

text \<open>Without a service, \<^verbatim>\<open>open\<close> opens a host with an empty label.\<close>

lemma open_without_service:
  "openCmd ''linux'' start [] =
     (''opening https://.antariksh.app'' @ newline, map_option StartFailed (start [''xdg-open'', ''https://.antariksh.app'']))"
  by (simp add: openCmd_def run_stub_def openBrowser_def)

end
