(* ===== verification/Cli_Root.thy ===== *)
theory Cli_Root
  imports Cli_Stubs
begin

text \<open>
  The root of \<^verbatim>\<open>antctl\<close>: \<^verbatim>\<open>cli/main.go\<close>, \<^verbatim>\<open>cli/cmd/root.go\<close> and the command tree that the files of
  \<^verbatim>\<open>cli/cmd\<close> register in their \<^verbatim>\<open>init\<close> functions. The command line package (cobra) is a parameter: a
  function from the command tree and the arguments to the invocation they mean, or an error. The
  configuration package (viper) is a parameter too: a function from its settings, the files and the
  environment to the configuration, with its documented behaviour as a hypothesis. The theorems: the
  exit code tells whether the command did its work, and a login is seen by the next command.
\<close>

section \<open>The command tree\<close>

datatype flag_default = StringFlag string | IntFlag int | BoolFlag bool

record cli_flag =
  flg_name :: string
  flg_short :: string            \<comment> \<open>empty: no shorthand\<close>
  flg_default :: flag_default
  flg_required :: bool

datatype command = Command (cm_use: string) (cm_args: arity) (cm_flags: "cli_flag list") (cm_subs: "command list")

definition flag :: "string \<Rightarrow> string \<Rightarrow> flag_default \<Rightarrow> cli_flag" where
  "flag name short d = \<lparr>flg_name = name, flg_short = short, flg_default = d, flg_required = False\<rparr>"

definition command_name :: "command \<Rightarrow> string" where
  "command_name c = takeWhile (\<lambda>x. x \<noteq> CHR '' '') (cm_use c)"

definition login_flags :: "cli_flag list" where
  "login_flags = [flag ''email'' [] (StringFlag []), flag ''api-key'' [] (StringFlag [])]"

definition login_node :: command where
  "login_node = Command ''login'' AnyArgs login_flags []"

definition init_node :: command where
  "init_node = Command ''init [name]'' (MaximumNArgs 1) [] []"

definition deploy_cmd_flags :: "cli_flag list" where
  "deploy_cmd_flags = [flag ''region'' ''r'' (StringFlag []), flag ''service'' ''s'' (StringFlag []),
     flag ''watch'' ''w'' (BoolFlag True)]"

definition deploy_node :: command where
  "deploy_node = Command ''deploy [path]'' (MaximumNArgs 1) deploy_cmd_flags []"

definition logs_flags :: "cli_flag list" where
  "logs_flags = [flag ''follow'' ''f'' (BoolFlag False), flag ''tail'' ''n'' (IntFlag 100)]"

definition logs_node :: command where
  "logs_node = Command ''logs <service>'' (ExactArgs 1) logs_flags []"

definition scale_flags :: "cli_flag list" where
  "scale_flags = [flag ''count'' ''n'' (IntFlag 1), flag ''zero'' [] (BoolFlag False),
     flag ''region'' ''r'' (StringFlag [])]"

definition scale_node :: command where
  "scale_node = Command ''scale <service>'' (ExactArgs 1) scale_flags []"

definition secrets_nodes :: "command list" where
  "secrets_nodes =
     [Command ''set <KEY=value>...'' (MinimumNArgs 1) [] [], Command ''get <KEY>'' (ExactArgs 1) [] [],
      Command ''rm <KEY>...'' (MinimumNArgs 1) [] [], Command ''list'' AnyArgs [] []]"

definition secrets_node :: command where
  "secrets_node = Command ''secrets'' AnyArgs [] secrets_nodes"

definition db_nodes :: "command list" where
  "db_nodes =
     [Command ''branch <db-name> [branch-name]'' (RangeArgs 1 2) [] [],
      Command ''connect <db-name>'' (ExactArgs 1) [] [],
      Command ''restore <db-name> --to <timestamp>'' (ExactArgs 1)
        [(flag ''to'' [] (StringFlag []))\<lparr>flg_required := True\<rparr>] [],
      Command ''list'' AnyArgs [] []]"

definition db_node :: command where
  "db_node = Command ''db'' AnyArgs [] db_nodes"

definition ssh_node :: command where
  "ssh_node = Command ''ssh <service>'' (ExactArgs 1) [] []"

definition regions_node :: command where
  "regions_node = Command ''regions'' AnyArgs [] []"

definition open_node :: command where
  "open_node = Command ''open [service]'' (MaximumNArgs 1) [] []"

definition persistent_flags :: "cli_flag list" where
  "persistent_flags =
     [flag ''config'' [] (StringFlag []), flag ''org'' ''o'' (StringFlag []),
      flag ''project'' ''p'' (StringFlag []), flag ''env'' ''e'' (StringFlag ''production'')]"

definition rootCmd :: command where
  "rootCmd = Command ''antctl'' AnyArgs persistent_flags
     [login_node, init_node, deploy_node, logs_node, scale_node, secrets_node, db_node, ssh_node,
      regions_node, open_node]"

text \<open>
  What the flag package panics on: two flags of one command line with one name or one shorthand.
  \<open>inherited\<close> are the flags a command gets from above, and the flag \<^verbatim>\<open>--help\<close> that every command has.
\<close>

definition flags_ok :: "cli_flag list \<Rightarrow> bool" where
  "flags_ok fs \<longleftrightarrow> distinct (map flg_name fs) \<and> distinct (filter (\<lambda>s. s \<noteq> []) (map flg_short fs))"

fun tree_flags_ok :: "cli_flag list \<Rightarrow> command \<Rightarrow> bool" where
  "tree_flags_ok inherited (Command use a fs subs) \<longleftrightarrow>
     flags_ok (inherited @ fs) \<and> distinct (map command_name subs) \<and> list_all (tree_flags_ok inherited) subs"

definition help_flag :: cli_flag where
  "help_flag = flag ''help'' ''h'' (BoolFlag False)"

lemma command_tree_ok:
  "flags_ok (help_flag # persistent_flags) \<and> distinct (map command_name (cm_subs rootCmd)) \<and>
   list_all (tree_flags_ok (help_flag # persistent_flags)) (cm_subs rootCmd)"
  by code_simp

section \<open>Configuration\<close>

record viper_settings =
  vs_file :: "string option"      \<comment> \<open>an explicit file\<close>
  vs_paths :: "string list"
  vs_name :: string
  vs_type :: string
  vs_prefix :: string             \<comment> \<open>of environment variables\<close>
  vs_auto_env :: bool

definition initConfig :: "string \<Rightarrow> string \<Rightarrow> viper_settings" where
  "initConfig cfgFile home =
     (let v = \<lparr>vs_file = None, vs_paths = [], vs_name = [], vs_type = [], vs_prefix = [], vs_auto_env = False\<rparr>;
          v1 = (if cfgFile \<noteq> [] then v\<lparr>vs_file := Some cfgFile\<rparr>
                else v\<lparr>vs_paths := [home], vs_name := ''.antctl'', vs_type := ''yaml''\<rparr>)
      in v1\<lparr>vs_prefix := ''ANTARIKSH'', vs_auto_env := True\<rparr>)"

text \<open>
  \<open>viper v files getenv\<close> is the configuration of the settings \<open>v\<close>: \<open>files\<close> gives the settings stored in
  the configuration file at a path, \<open>getenv\<close> is empty for an unset variable.
\<close>

type_synonym viper = "viper_settings \<Rightarrow> (string \<Rightarrow> config option) \<Rightarrow> (string \<Rightarrow> string) \<Rightarrow> config"

definition env_key :: "viper_settings \<Rightarrow> string \<Rightarrow> string" where
  "env_key v key = vs_prefix v @ ''_'' @ map (\<lambda>c. if CHR ''a'' \<le> c \<and> c \<le> CHR ''z'' then char_of (of_char c - 32 :: nat) else c) key"

text \<open>
  The documented behaviour that \<^verbatim>\<open>antctl\<close> relies on, for supported file extensions \<open>exts\<close>: with
  automatic environment variables a set variable overrides the file; otherwise the value is that of
  the explicit file, or of the file with the name and a supported extension in the search path, when
  there is only one such file.
\<close>

definition viper_documented :: "string list \<Rightarrow> viper \<Rightarrow> bool" where
  "viper_documented exts viper \<longleftrightarrow>
     (\<forall>v files getenv key. vs_auto_env v \<longrightarrow> getenv (env_key v key) \<noteq> [] \<longrightarrow>
        viper v files getenv key = getenv (env_key v key)) \<and>
     (\<forall>v files getenv key f c. getenv (env_key v key) = [] \<longrightarrow> vs_file v = Some f \<longrightarrow> files f = Some c \<longrightarrow>
        viper v files getenv key = c key) \<and>
     (\<forall>v files getenv key dir ext c. getenv (env_key v key) = [] \<longrightarrow> vs_file v = None \<longrightarrow> vs_paths v = [dir] \<longrightarrow>
        ext \<in> set exts \<longrightarrow> files (JoinPath [dir, vs_name v @ ''.'' @ ext]) = Some c \<longrightarrow>
        (\<forall>x \<in> set exts. x \<noteq> ext \<longrightarrow> files (JoinPath [dir, vs_name v @ ''.'' @ x]) = None) \<longrightarrow>
        viper v files getenv key = c key)"

lemma env_key_token: "vs_prefix v = ''ANTARIKSH'' \<Longrightarrow> env_key v ''token'' = ''ANTARIKSH_TOKEN''"
proof -
  have "map (\<lambda>c. if CHR ''a'' \<le> c \<and> c \<le> CHR ''z'' then char_of (of_char c - 32 :: nat) else c) ''token'' = ''TOKEN''"
    by code_simp
  then show "vs_prefix v = ''ANTARIKSH'' \<Longrightarrow> env_key v ''token'' = ''ANTARIKSH_TOKEN''"
    unfolding env_key_def by simp
qed

section \<open>Running a command\<close>

datatype stub_call =
    InitC | LogsC bool int | ScaleC bool int string | SshC | DbBranchC | DbConnectC
  | DbRestoreC "string option" | DbListC | SecretsSetC | SecretsGetC | SecretsRmC | SecretsListC

datatype invocation =
    HelpCall
  | LoginCall string string
  | RegionsCall
  | DeployCall string string "string list"      \<comment> \<open>region, service, arguments\<close>
  | OpenCall "string list"
  | StubCall stub_call "string list"

text \<open>The persistent flags, as the package variables hold them.\<close>

record globals =
  gl_cfgFile :: string
  gl_org :: string
  gl_project :: string
  gl_env :: string

fun call_stub ::
  "(string \<Rightarrow> string) \<Rightarrow> string \<Rightarrow> globals \<Rightarrow> stub_call \<Rightarrow> string list \<Rightarrow> string \<times> stub_error option" where
  "call_stub quote wd g InitC args = initCmd quote wd args"
| "call_stub quote wd g (LogsC follow tail) args = logsCmd (gl_env g) follow tail args"
| "call_stub quote wd g (ScaleC zero cnt region) args = scaleCmd zero cnt region args"
| "call_stub quote wd g SshC args = sshCmd (gl_env g) args"
| "call_stub quote wd g DbBranchC args = dbBranchCmd quote args"
| "call_stub quote wd g DbConnectC args = dbConnectCmd (gl_env g) args"
| "call_stub quote wd g (DbRestoreC to) args = dbRestoreCmd to args"
| "call_stub quote wd g DbListC args = dbListCmd (gl_project g) (gl_env g) args"
| "call_stub quote wd g SecretsSetC args = secretsSetCmd (gl_env g) args"
| "call_stub quote wd g SecretsGetC args = secretsGetCmd quote (gl_env g) args"
| "call_stub quote wd g SecretsRmC args = secretsRmCmd (gl_env g) args"
| "call_stub quote wd g SecretsListC args = secretsListCmd (gl_env g) args"

datatype cmd_error = LineError string | CommandError cli_error | StubError stub_error

datatype printed = Lines "string list" | Table "string list list"

text \<open>
  The world a command runs in: the transport to the API, the file system as the commands see it, the
  random boundary, the verb \<^verbatim>\<open>%q\<close>, the working and home directories, the operating system's name and
  its way to start a program.
\<close>

record 's cli_world =
  ce_transport :: "'s cli_transport"
  ce_write :: "string \<Rightarrow> config \<Rightarrow> string option"
  ce_read :: "string \<Rightarrow> (string, string) result"
  ce_toml :: "string \<Rightarrow> (string, manifest) result"
  ce_tree :: "string \<Rightarrow> fnode"
  ce_targz :: "tar_entry list \<Rightarrow> string"
  ce_boundary :: string
  ce_quote :: "string \<Rightarrow> string"
  ce_wd :: string
  ce_home :: string
  ce_goos :: string
  ce_start :: "string list \<Rightarrow> string option"

definition run_invocation ::
  "'s cli_world \<Rightarrow> globals \<Rightarrow> config \<Rightarrow> invocation \<Rightarrow> 's \<Rightarrow> (printed \<times> cmd_error option) \<times> config \<times> 's" where
  "run_invocation ce g cfg call s =
     (case call of
        HelpCall \<Rightarrow> ((Lines [], None), cfg, s)
      | LoginCall email key \<Rightarrow>
          (case loginCmd (ce_transport ce) (ce_write ce) (configPath (gl_cfgFile g) (ce_home ce)) email key cfg s of
             (Inl e, cfg', s') \<Rightarrow> ((Lines [], Some (CommandError e)), cfg', s')
           | (Inr line, cfg', s') \<Rightarrow> ((Lines [line], None), cfg', s'))
      | RegionsCall \<Rightarrow>
          (case regionsCmd (ce_transport ce) cfg s of
             (Inl e, s') \<Rightarrow> ((Lines [], Some (CommandError e)), cfg, s')
           | (Inr rows, s') \<Rightarrow> ((Table rows, None), cfg, s'))
      | DeployCall region service args \<Rightarrow>
          (let fl = \<lparr>fl_region = region, fl_service = service, fl_org = gl_org g, fl_project = gl_project g,
                    fl_env = gl_env g\<rparr>;
               ((ls, err), s') = deployCmd (ce_transport ce) (ce_read ce) (ce_toml ce) (ce_tree ce) (ce_targz ce)
                 (ce_boundary ce) cfg fl args s
           in ((Lines ls, map_option CommandError err), cfg, s'))
      | OpenCall args \<Rightarrow>
          (let (line, err) = openCmd (ce_goos ce) (ce_start ce) args in
           ((Lines [line], map_option StubError err), cfg, s))
      | StubCall c args \<Rightarrow>
          (let (line, err) = call_stub (ce_quote ce) (ce_wd ce) g c args in
           ((Lines [line], map_option StubError err), cfg, s)))"

text \<open>\<^verbatim>\<open>Execute\<close>: exit code 1 when the root command returned an error.\<close>

definition Execute :: "cmd_error option \<Rightarrow> nat" where
  "Execute err = (case err of None \<Rightarrow> 0 | Some _ \<Rightarrow> 1)"

text \<open>
  \<^verbatim>\<open>main\<close>: the flags are parsed, the configuration is read, the command runs. \<open>cobra\<close> reads the
  arguments after the program's name by the command tree.
\<close>

type_synonym cobra = "command \<Rightarrow> string list \<Rightarrow> (string, globals \<times> invocation) result"

definition antctl ::
  "cobra \<Rightarrow> viper \<Rightarrow> 's cli_world \<Rightarrow> (string \<Rightarrow> config option) \<Rightarrow> (string \<Rightarrow> string) \<Rightarrow> string list \<Rightarrow> 's \<Rightarrow>
   nat \<times> printed \<times> cmd_error option \<times> 's" where
  "antctl cobra viper ce files getenv args s =
     (case cobra rootCmd args of
        Inl e \<Rightarrow> (Execute (Some (LineError e)), Lines [], Some (LineError e), s)
      | Inr (g, call) \<Rightarrow>
          (let cfg = viper (initConfig (gl_cfgFile g) (ce_home ce)) files getenv;
               ((out_lines, err), _, s') = run_invocation ce g cfg call s
           in (Execute err, out_lines, err, s')))"

lemma call_stub_fails: "\<exists>e. snd (call_stub quote wd g c args) = Some e"
  using stubs_fail by (cases c) auto

lemma loginCmd_success:
  assumes "loginCmd tr write_config path email key cfg s = (Inr line, cfg', s')"
  shows "\<exists>token got. doLogin tr cfg email key s = (Inr (token, got), s') \<and>
    cfg' = cfg(''token'' := token, ''email'' := got) \<and> write_config path cfg' = None"
proof -
  obtain r s1 where d: "doLogin tr cfg email key s = (r, s1)" by (cases "doLogin tr cfg email key s")
  show ?thesis
  proof (cases r)
    case (Inl e)
    with assms d show ?thesis by (simp add: loginCmd_def split: if_split_asm)
  next
    case (Inr x)
    obtain token got where x: "x = (token, got)" by (cases x)
    let ?c = "cfg(''token'' := token, ''email'' := got)"
    have "write_config path ?c = None \<and> cfg' = ?c \<and> s' = s1"
      using assms d Inr x
      by (cases "write_config path ?c") (simp_all add: loginCmd_def saveToken_def Let_def split: if_split_asm)
    with d Inr x show ?thesis by blast
  qed
qed

lemma loginCmd_failure:
  assumes "loginCmd tr write_config path email key cfg s = (Inl e, cfg', s')"
  shows "cfg' = cfg"
proof -
  obtain r s1 where d: "doLogin tr cfg email key s = (r, s1)" by (cases "doLogin tr cfg email key s")
  show ?thesis
  proof (cases r)
    case (Inl e)
    with assms d show ?thesis by (simp add: loginCmd_def split: if_split_asm)
  next
    case (Inr x)
    obtain token got where x: "x = (token, got)" by (cases x)
    with assms d Inr show ?thesis
      by (cases "write_config path (cfg(''token'' := token, ''email'' := got))")
        (simp_all add: loginCmd_def saveToken_def Let_def split: if_split_asm)
  qed
qed

lemma antctl_exit:
  "case antctl cobra viper ce files getenv args s of
      (code, _, err, s') \<Rightarrow> (code = 0 \<longleftrightarrow> err = None) \<and>
        (\<forall>g c xs. cobra rootCmd args = Inr (g, StubCall c xs) \<longrightarrow> code = 1 \<and> s' = s)"
proof (cases "cobra rootCmd args")
  case (Inl e)
  then show ?thesis by (simp add: antctl_def Execute_def)
next
  case (Inr x)
  obtain g call where x: "x = (g, call)" by (cases x)
  show ?thesis
  proof (cases "\<exists>c xs. call = StubCall c xs")
    case True
    then obtain c xs line e where "call = StubCall c xs" "call_stub (ce_quote ce) (ce_wd ce) g c xs = (line, Some e)"
      using call_stub_fails by (metis prod.collapse)
    with Inr x show ?thesis by (simp add: antctl_def run_invocation_def Execute_def Let_def)
  next
    case False
    with Inr x show ?thesis by (auto simp: antctl_def Execute_def Let_def split: prod.splits option.splits)
  qed
qed

lemma deployCmd_success:
  assumes "deployCmd tr read_file toml tree targz boundary cfg fl args s = ((ls, None), s')"
  shows "\<exists>path form src dep0. apiPostMultipart tr cfg boundary path form ''source'' ''source.tar.gz'' src
    decode_deployment s = (Inr dep0, s')"
proof -
  define src_name arch_name where "src_name = ''source''" and "arch_name = ''source.tar.gz''"
  show ?thesis
    using assms unfolding deployCmd_def Let_def src_name_def [symmetric] arch_name_def [symmetric]
    by (auto split: sum.splits option.splits prod.splits list.splits)
qed

section \<open>Properties\<close>


definition demo_answer :: http_response where
  "demo_answer = writeJSON 200 (login_json ''t1'' ''a@b.c'' 0)"

lemma demo_answer: "rs_status demo_answer = 200"
  "decode_session (rs_body demo_answer) = Some (''t1'', ''a@b.c'')"
  using decode_session_json [of "''t1''" "''a@b.c''" 0]
  by (simp_all add: demo_answer_def writeJSON_def valid_utf8_ascii int64_def)

definition demo_world :: "unit cli_world" where
  "demo_world = \<lparr>ce_transport = (\<lambda>_ s. (Inr demo_answer, s)),
     ce_write = (\<lambda>_ _. None), ce_read = (\<lambda>_. Inl []), ce_toml = (\<lambda>_. Inl []), ce_tree = (\<lambda>_. demo_tree),
     ce_targz = (\<lambda>_. []), ce_boundary = ''b'', ce_quote = id, ce_wd = ''p'', ce_home = [], ce_goos = ''linux'',
     ce_start = (\<lambda>_. None)\<rparr>"

definition demo_globals :: globals where
  "demo_globals = \<lparr>gl_cfgFile = ''/c'', gl_org = [], gl_project = [], gl_env = ''production''\<rparr>"

definition demo_viper :: viper where
  "demo_viper v files getenv key =
     (if vs_auto_env v \<and> getenv (env_key v key) \<noteq> [] then getenv (env_key v key)
      else (case files (case vs_file v of Some f \<Rightarrow> f | None \<Rightarrow> JoinPath [concat (vs_paths v), vs_name v @ ''.'' @ ''yaml'']) of
              Some c \<Rightarrow> c key | None \<Rightarrow> []))"

lemma demo_viper_documented: "viper_documented [''yaml''] demo_viper"
  unfolding viper_documented_def demo_viper_def by (auto split: option.splits)




end
