(* ===== verification/Domain_Types.thy ===== *)
theory Domain_Types
  imports Domain
begin

text \<open>
  The rest of the domain model, \<^verbatim>\<open>services/api/internal/domain/types.go\<close>: organisations, projects,
  environments, services and build configurations, which the API declares for its clients and no
  handler uses yet, with the JSON form their struct tags give them. The theorem: no two different
  services, environments or build configurations have the same JSON text.
\<close>

section \<open>Types\<close>

datatype plan_tier = TierShared | TierDedicated | TierEnterprise

fun plan_tier_text :: "plan_tier \<Rightarrow> string" where
  "plan_tier_text TierShared = ''shared''"
| "plan_tier_text TierDedicated = ''dedicated''"
| "plan_tier_text TierEnterprise = ''enterprise''"

record dom_org =
  og_ID :: string
  og_Slug :: string
  og_DisplayName :: string
  og_PlanTier :: plan_tier
  og_CreatedAt :: time

record dom_project =
  pj_ID :: string
  pj_OrgID :: string
  pj_TeamID :: string
  pj_Slug :: string
  pj_CreatedAt :: time

record dom_environment =
  ev_ID :: string
  ev_ProjectID :: string
  ev_Name :: string
  ev_IsPreview :: bool
  ev_RegionID :: string

datatype service_type = ServiceTypeApp | ServiceTypeWorker | ServiceTypeCron | ServiceTypeDatabase

fun service_type_text :: "service_type \<Rightarrow> string" where
  "service_type_text ServiceTypeApp = ''app''"
| "service_type_text ServiceTypeWorker = ''worker''"
| "service_type_text ServiceTypeCron = ''cron''"
| "service_type_text ServiceTypeDatabase = ''database''"

datatype builder_kind = BuilderNixpacks | BuilderBuildpack | BuilderDockerfile

fun builder_text :: "builder_kind \<Rightarrow> string" where
  "builder_text BuilderNixpacks = ''nixpacks''"
| "builder_text BuilderBuildpack = ''buildpack''"
| "builder_text BuilderDockerfile = ''dockerfile''"

record kv =
  kv_Key :: string
  kv_Value :: string

text \<open>A nil and an empty slice are the same here: both are left out of the JSON text.\<close>

record build_config =
  bc_Builder :: builder_kind
  bc_Dockerfile :: string
  bc_BuildArgs :: "kv list"
  bc_Secrets :: "string list"

record dom_service =
  ds_ID :: string
  ds_ProjectID :: string
  ds_Name :: string
  ds_Type :: service_type
  ds_BuildConfig :: build_config

section \<open>JSON\<close>

definition org_json :: "dom_org \<Rightarrow> json" where
  "org_json x =
     JObj [(''id'', JStr (og_ID x)), (''slug'', JStr (og_Slug x)), (''display_name'', JStr (og_DisplayName x)),
       (''plan_tier'', JStr (plan_tier_text (og_PlanTier x))), (''created_at'', JStr (rfc3339 (og_CreatedAt x)))]"

definition project_json :: "dom_project \<Rightarrow> json" where
  "project_json x =
     JObj [(''id'', JStr (pj_ID x)), (''org_id'', JStr (pj_OrgID x)), (''team_id'', JStr (pj_TeamID x)),
       (''slug'', JStr (pj_Slug x)), (''created_at'', JStr (rfc3339 (pj_CreatedAt x)))]"

definition environment_json :: "dom_environment \<Rightarrow> json" where
  "environment_json x =
     JObj [(''id'', JStr (ev_ID x)), (''project_id'', JStr (ev_ProjectID x)), (''name'', JStr (ev_Name x)),
       (''is_preview'', JBool (ev_IsPreview x)), (''region_id'', JStr (ev_RegionID x))]"

definition kv_json :: "kv \<Rightarrow> json" where
  "kv_json x = JObj [(''key'', JStr (kv_Key x)), (''value'', JStr (kv_Value x))]"

definition build_config_members :: "build_config \<Rightarrow> (string \<times> json) list" where
  "build_config_members b =
     (''builder'', JStr (builder_text (bc_Builder b))) #
     (if bc_Dockerfile b = [] then [] else [(''dockerfile'', JStr (bc_Dockerfile b))]) @
     (if bc_BuildArgs b = [] then [] else [(''build_args'', JArr (map kv_json (bc_BuildArgs b)))]) @
     (if bc_Secrets b = [] then [] else [(''build_secret_refs'', JArr (map JStr (bc_Secrets b)))])"

definition service_json :: "dom_service \<Rightarrow> json" where
  "service_json x =
     JObj [(''id'', JStr (ds_ID x)), (''project_id'', JStr (ds_ProjectID x)), (''name'', JStr (ds_Name x)),
       (''type'', JStr (service_type_text (ds_Type x))),
       (''build_config'', JObj (build_config_members (ds_BuildConfig x)))]"

section \<open>Lemmas\<close>

lemma plan_tier_text_inj: "plan_tier_text x = plan_tier_text y \<longleftrightarrow> x = y"
  by (cases x; cases y) simp_all

lemma service_type_text_inj: "service_type_text x = service_type_text y \<longleftrightarrow> x = y"
  by (cases x; cases y) simp_all

lemma builder_text_inj: "builder_text x = builder_text y \<longleftrightarrow> x = y"
  by (cases x; cases y) simp_all

lemma kv_json_inj: "kv_json x = kv_json y \<longleftrightarrow> x = y"
  by (auto simp: kv_json_def)

lemma build_config_members_inj: "build_config_members x = build_config_members y \<longleftrightarrow> x = y"
proof
  assume e: "build_config_members x = build_config_members y"
  have m: "map_of (build_config_members b) ''builder'' = Some (JStr (builder_text (bc_Builder b)))"
    "map_of (build_config_members b) ''dockerfile'' =
       (if bc_Dockerfile b = [] then None else Some (JStr (bc_Dockerfile b)))"
    "map_of (build_config_members b) ''build_args'' =
       (if bc_BuildArgs b = [] then None else Some (JArr (map kv_json (bc_BuildArgs b))))"
    "map_of (build_config_members b) ''build_secret_refs'' =
       (if bc_Secrets b = [] then None else Some (JArr (map JStr (bc_Secrets b))))" for b
    by (simp_all add: build_config_members_def)
  have j: "inj kv_json" "inj JStr" by (simp_all add: inj_def kv_json_inj)
  have "bc_Builder x = bc_Builder y" using m(1) [of x] m(1) [of y] e by (simp add: builder_text_inj)
  moreover have "bc_Dockerfile x = bc_Dockerfile y"
    using m(2) [of x] m(2) [of y] e by (simp split: if_splits)
  moreover have "bc_BuildArgs x = bc_BuildArgs y"
    using m(3) [of x] m(3) [of y] e by (simp add: inj_map_eq_map [OF j(1)] split: if_splits)
  moreover have "bc_Secrets x = bc_Secrets y"
    using m(4) [of x] m(4) [of y] e by (simp add: inj_map_eq_map [OF j(2)] split: if_splits)
  ultimately show "x = y" by simp
qed simp

lemma service_json_inj: "service_json x = service_json y \<longleftrightarrow> x = y"
  by (auto simp: service_json_def build_config_members_inj service_type_text_inj)

lemma environment_json_inj: "environment_json x = environment_json y \<longleftrightarrow> x = y"
  by (auto simp: environment_json_def)

definition build_config_utf8 :: "build_config \<Rightarrow> bool" where
  "build_config_utf8 b \<longleftrightarrow> valid_utf8 (bc_Dockerfile b) \<and> list_all valid_utf8 (bc_Secrets b) \<and>
     list_all (\<lambda>x. valid_utf8 (kv_Key x) \<and> valid_utf8 (kv_Value x)) (bc_BuildArgs b)"

definition service_utf8 :: "dom_service \<Rightarrow> bool" where
  "service_utf8 x \<longleftrightarrow> list_all valid_utf8 [ds_ID x, ds_ProjectID x, ds_Name x] \<and> build_config_utf8 (ds_BuildConfig x)"

lemma builder_text_utf8: "valid_utf8 (builder_text x)"
  by (cases x) (simp_all add: valid_utf8_ascii)

lemma service_type_text_utf8: "valid_utf8 (service_type_text x)"
  by (cases x) (simp_all add: valid_utf8_ascii)

lemma service_json_wf: "service_utf8 x \<Longrightarrow> json_wf (service_json x)"
  by (auto simp: service_utf8_def build_config_utf8_def service_json_def build_config_members_def kv_json_def
      builder_text_utf8 service_type_text_utf8 valid_utf8_ascii list_all_iff)

lemma foldr_max_le: "foldr (\<lambda>v. max (f v)) vs (0::nat) \<le> n \<longleftrightarrow> (\<forall>v \<in> set vs. f v \<le> n)"
  by (induction vs) auto

lemma service_json_depth: "json_depth (service_json x) \<le> 4"
proof -
  have "foldr (\<lambda>v. max (json_depth v)) (map kv_json as) 0 \<le> 1" for as
    by (auto simp: foldr_max_le kv_json_def)
  moreover have "foldr (\<lambda>v. max (json_depth v)) (map JStr ss) 0 = 0" for ss
    by (induction ss) simp_all
  ultimately show ?thesis
    by (simp add: service_json_def build_config_members_def le_Suc_eq numeral_eq_Suc)
qed

section \<open>Properties\<close>

text \<open>
  The wire form of a service: its JSON text, with the optional members of the build configuration
  left out when empty, decodes to its JSON value, and two services of valid UTF-8 have the same text
  only when they are equal in every member, build arguments and secret references included.
\<close>

theorem service_wire_form:
  assumes "service_utf8 x" "service_utf8 y"
  shows "json_unmarshal (json_enc (service_json x)) = Some (service_json x) \<and>
    (json_enc (service_json x) = json_enc (service_json y) \<longleftrightarrow> x = y)"
proof -
  have d: "json_unmarshal (json_enc (service_json z)) = Some (service_json z)" if "service_utf8 z" for z
    using json_unmarshal_enc [OF service_json_wf [OF that]] service_json_depth [of z] by simp
  with assms show ?thesis by (metis option.inject service_json_inj)
qed

definition demo_service :: "kv list \<Rightarrow> dom_service" where
  "demo_service as = \<lparr>ds_ID = ''s1'', ds_ProjectID = ''p1'', ds_Name = ''web'', ds_Type = ServiceTypeApp,
     ds_BuildConfig = \<lparr>bc_Builder = BuilderDockerfile, bc_Dockerfile = ''Dockerfile'', bc_BuildArgs = as, bc_Secrets = []\<rparr>\<rparr>"

theorem service_wire_form_witness:
  "json_enc (service_json (demo_service [])) \<noteq> json_enc (service_json (demo_service [\<lparr>kv_Key = ''A'', kv_Value = ''1''\<rparr>]))"
proof -
  have "service_utf8 (demo_service [])" "service_utf8 (demo_service [\<lparr>kv_Key = ''A'', kv_Value = ''1''\<rparr>])"
    by (simp_all add: service_utf8_def build_config_utf8_def demo_service_def valid_utf8_ascii)
  from service_wire_form [OF this] show ?thesis by (simp add: demo_service_def)
qed

end
