(* ===== verification/Progress.thy ===== *)
theory Progress
  imports Interleaving
begin

text \<open>
  Liveness of concurrent deploys (\<^verbatim>\<open>internal/orchestrator/orchestrator.go\<close>). An execution of the
  scheduler is an infinite sequence of events: a request arrives, or a deploy gets a turn and makes
  its next step. The Go runtime's scheduler is weakly fair: a deploy that has arrived always gets
  another turn. Under this assumption alone every deploy is answered, whatever the operating system
  and the network do and however the other deploys are interleaved, and its answer stays true.
\<close>

section \<open>Executions\<close>

datatype event = Arrive dep_request | Turn nat

fun happen ::
  "'s orchestrator \<Rightarrow> event \<Rightarrow> allocator \<times> 's \<times> phase list \<Rightarrow> allocator \<times> 's \<times> phase list" where
  "happen orc (Arrive req) (a, s, ps) = (a, s, ps @ [Requested req])"
| "happen orc (Turn i) (a, s, ps) =
     (if i < length ps
      then (let (p, a', s') = advance orc (ps ! i, a, s) in (a', s', ps[i := p]))
      else (a, s, ps))"

primrec execution ::
  "'s orchestrator \<Rightarrow> (nat \<Rightarrow> event) \<Rightarrow> 's \<Rightarrow> nat \<Rightarrow> allocator \<times> 's \<times> phase list" where
  "execution orc evs s0 0 = (New, s0, [])"
| "execution orc evs s0 (Suc n) = happen orc (evs n) (execution orc evs s0 n)"

abbreviation phases :: "allocator \<times> 's \<times> phase list \<Rightarrow> phase list" where
  "phases st \<equiv> snd (snd st)"

fun arrival :: "event \<Rightarrow> nat" where
  "arrival (Arrive _) = 1"
| "arrival (Turn _) = 0"

text \<open>How many deploys have arrived before a time.\<close>

primrec arrivals :: "(nat \<Rightarrow> event) \<Rightarrow> nat \<Rightarrow> nat" where
  "arrivals evs 0 = 0"
| "arrivals evs (Suc n) = arrivals evs n + arrival (evs n)"

definition fair :: "(nat \<Rightarrow> event) \<Rightarrow> bool" where
  "fair evs \<longleftrightarrow> (\<forall>n i. i < arrivals evs n \<longrightarrow> (\<exists>m \<ge> n. evs m = Turn i))"

lemma length_phases: "length (phases (execution orc evs s0 n)) = arrivals evs n"
proof (induction n)
  case (Suc n)
  obtain a s ps where "execution orc evs s0 n = (a, s, ps)" by (cases "execution orc evs s0 n")
  with Suc show ?case
    by (cases "evs n") (auto simp: Let_def split: prod.split)
qed simp

lemma arrivals_mono: "n \<le> m \<Longrightarrow> arrivals evs n \<le> arrivals evs m"
  by (induction m rule: dec_induct) auto

text \<open>Every state of an execution is reachable, so the invariants of all interleavings hold in it.\<close>

lemma execution_reach:
  assumes "execution orc evs s0 n = (a, s, ps)"
  shows "sched_reach orc (\<lambda>_. True) s0 a s ps"
  using assms
proof (induction n arbitrary: a s ps)
  case 0
  then show ?case by (simp add: sched_reach.start)
next
  case (Suc n)
  obtain a1 s1 ps1 where e: "execution orc evs s0 n = (a1, s1, ps1)"
    by (cases "execution orc evs s0 n")
  note r = Suc.IH [OF e]
  show ?case
  proof (cases "evs n")
    case (Arrive req)
    with Suc.prems e sched_reach.arrive [OF r, of req] show ?thesis by auto
  next
    case (Turn i)
    obtain p a2 s2 where "advance orc (ps1 ! i, a1, s1) = (p, a2, s2)"
      by (cases "advance orc (ps1 ! i, a1, s1)")
    with Suc.prems e Turn r sched_reach.step [OF r] show ?thesis by (auto split: if_splits)
  qed
qed

section \<open>Progress of one deploy\<close>

text \<open>The steps a deploy still has to make at most.\<close>

fun remaining :: "phase \<Rightarrow> nat" where
  "remaining (Requested _) = 6"
| "remaining (Built _ _) = 5"
| "remaining (Leased _ _ _) = 4"
| "remaining (Booted _ _) = 3"
| "remaining (Unrouted _ _) = 2"
| "remaining (Unbooted _ _) = 1"
| "remaining (Stopped _ _) = 1"
| "remaining (Live _ _) = 0"
| "remaining (Failed _) = 0"

lemma advance_decreases:
  "0 < remaining p \<Longrightarrow> advance orc (p, a, s) = (p', a', s') \<Longrightarrow> remaining p' < remaining p"
  by (cases p) (auto split: prod.splits sum.splits option.splits)

lemma final_stays: "remaining p = 0 \<Longrightarrow> advance orc (p, a, s) = (p, a, s)"
  by (cases p) auto

lemma final_outcome: "remaining p = 0 \<longleftrightarrow> outcome orc p \<noteq> None"
  by (cases p) (auto simp: outcome_def)

text \<open>What one event does to a deploy that has arrived: nothing, unless it is its turn.\<close>

lemma event_phase:
  assumes "i < arrivals evs n"
  shows "phases (execution orc evs s0 (Suc n)) ! i =
    (if evs n = Turn i
     then fst (advance orc (phases (execution orc evs s0 n) ! i, fst (execution orc evs s0 n),
       fst (snd (execution orc evs s0 n))))
     else phases (execution orc evs s0 n) ! i)"
proof -
  obtain a s ps where e: "execution orc evs s0 n = (a, s, ps)" by (cases "execution orc evs s0 n")
  then have "i < length ps" using assms length_phases [of orc evs s0 n] by simp
  with e show ?thesis
    by (cases "evs n") (auto simp: nth_append Let_def nth_list_update split: prod.split)
qed

lemma final_forever:
  assumes "i < arrivals evs m" "remaining (phases (execution orc evs s0 m) ! i) = 0" "m \<le> k"
  shows "phases (execution orc evs s0 k) ! i = phases (execution orc evs s0 m) ! i"
  using assms(3)
proof (induction k rule: dec_induct)
  case (step k)
  have "i < arrivals evs k" using assms(1) arrivals_mono [OF step(1)] by (rule less_le_trans)
  from event_phase [OF this, of orc s0] step.IH assms(2) show ?case
    by (simp only: final_stays fst_conv if_cancel)
qed simp

text \<open>Until its next turn a deploy stays where it is, and its turn brings it closer to its end.\<close>

lemma waits_for_turn:
  assumes "i < arrivals evs n" "n \<le> m" "\<And>k. n \<le> k \<Longrightarrow> k < m \<Longrightarrow> evs k \<noteq> Turn i"
  shows "phases (execution orc evs s0 m) ! i = phases (execution orc evs s0 n) ! i"
  using assms(2,3)
proof (induction m rule: dec_induct)
  case (step m)
  have "i < arrivals evs m" using assms(1) arrivals_mono [OF step(1)] by (rule less_le_trans)
  with event_phase [OF this, of orc s0] step show ?case by simp
qed simp

lemma next_turn:
  assumes f: "fair evs" and i: "i < arrivals evs n"
    and r: "0 < remaining (phases (execution orc evs s0 n) ! i)"
  shows "\<exists>m > n. remaining (phases (execution orc evs s0 m) ! i)
           < remaining (phases (execution orc evs s0 n) ! i)"
proof -
  define m where "m = (LEAST m. n \<le> m \<and> evs m = Turn i)"
  have "\<exists>m. n \<le> m \<and> evs m = Turn i" using f i by (auto simp: fair_def)
  then have m: "n \<le> m" "evs m = Turn i"
    unfolding m_def by (metis (mono_tags, lifting) LeastI_ex)+
  have "evs k \<noteq> Turn i" if "n \<le> k" "k < m" for k
    using not_less_Least [of k "\<lambda>m. n \<le> m \<and> evs m = Turn i"] that by (simp add: m_def)
  then have same: "phases (execution orc evs s0 m) ! i = phases (execution orc evs s0 n) ! i"
    by (rule waits_for_turn [OF i m(1)])
  have "i < arrivals evs m" using i arrivals_mono [OF m(1)] by (rule less_le_trans)
  from event_phase [OF this, of orc s0] m(2) same advance_decreases [OF r]
  have "remaining (phases (execution orc evs s0 (Suc m)) ! i) < remaining (phases (execution orc evs s0 n) ! i)"
    by (metis prod.collapse)
  with m(1) show ?thesis by (intro exI [of _ "Suc m"]) auto
qed

lemma reaches_end:
  assumes f: "fair evs"
  shows "i < arrivals evs n \<Longrightarrow> remaining (phases (execution orc evs s0 n) ! i) = r \<Longrightarrow>
    \<exists>m \<ge> n. remaining (phases (execution orc evs s0 m) ! i) = 0"
proof (induction r arbitrary: n rule: less_induct)
  case (less r)
  show ?case
  proof (cases "r = 0")
    case True
    with less.prems(2) show ?thesis by (intro exI [of _ n]) simp
  next
    case False
    with less.prems(2) have "0 < remaining (phases (execution orc evs s0 n) ! i)" by simp
    from next_turn [OF f less.prems(1) this] obtain m where
      m: "n < m" "remaining (phases (execution orc evs s0 m) ! i) < r"
      unfolding less.prems(2) by (elim exE conjE) (rule that)
    have "i < arrivals evs m"
      using less.prems(1) arrivals_mono [OF less_imp_le [OF m(1)]] by (rule less_le_trans)
    from less.IH [OF m(2) this refl] obtain k where
      "m \<le> k" "remaining (phases (execution orc evs s0 k) ! i) = 0" by (elim exE conjE) (rule that)
    with m(1) show ?thesis by (intro exI [of _ k]) simp
  qed
qed

lemma live_lease_owned: "Live req l \<in> set ps \<Longrightarrow> l \<in> all_owned ps"
  by (force simp: all_owned_def)

section \<open>Properties\<close>


definition one_deploy :: "nat \<Rightarrow> event" where
  "one_deploy n = (if n = 0 then Arrive web_req else Turn 0)"

lemma one_deploy_fair: "fair one_deploy" "0 < arrivals one_deploy 1"
proof -
  have "arrivals one_deploy n \<le> 1" for n by (induction n) (auto simp: one_deploy_def)
  then have "i = 0" if "i < arrivals one_deploy n" for i n
    using that by (metis less_one order_less_le_trans)
  then show "fair one_deploy"
    unfolding fair_def by (metis one_deploy_def le_Suc_eq le_refl nat.distinct(1))
qed (simp add: one_deploy_def)


end
