(* ===== verification/Fc_Driver.thy ===== *)
theory Fc_Driver
  imports Runner Json
begin

text \<open>
  The Rust command \<^verbatim>\<open>fc-driver vm-boot\<close> (\<^verbatim>\<open>crates/fc-driver/src/main.rs\<close> and \<^verbatim>\<open>firecracker.rs\<close>), which
  the VM runner starts once per guest: read the flags, spawn Firecracker, configure it over its API
  socket, start the guest, and stay with it until it ends. A Rust \<^verbatim>\<open>String\<close> or path is a byte
  string; \<^verbatim>\<open>serde_json::to_vec\<close>, which is not under \<^verbatim>\<open>src/\<close>, is the parameter \<open>ser\<close> from a JSON value to
  bytes; the operating system is an arbitrary environment. The theorems: the command line the runner
  writes is read back as exactly the configuration it means, the guest is started only after every
  configuration request was accepted, the wait for the socket is bounded, and the driver never ends
  while its VMM still runs.
\<close>

section \<open>Configuration\<close>

record net_config =
  nc_tap_dev :: string
  nc_guest_mac :: string

record vm_config =
  vc_kernel_image_path :: string
  vc_rootfs_path :: string
  vc_vcpu_count :: "32 word"
  vc_mem_size_mib :: "32 word"
  vc_boot_args :: string
  vc_rootfs_read_only :: bool
  vc_console_log :: "string option"
  vc_net :: "net_config option"

definition VmConfig_new :: "string \<Rightarrow> string \<Rightarrow> vm_config" where
  "VmConfig_new k rootfs =
     \<lparr>vc_kernel_image_path = k, vc_rootfs_path = rootfs, vc_vcpu_count = 1, vc_mem_size_mib = 256,
      vc_boot_args = ''console=ttyS0 reboot=k panic=1 pci=off'', vc_rootfs_read_only = False,
      vc_console_log = None, vc_net = None\<rparr>"

section \<open>Flags\<close>

text \<open>\<^verbatim>\<open>str::parse\<close> of an unsigned integer: an optional plus, digits, and no overflow.\<close>

definition parse_unsigned :: "string \<Rightarrow> 'a::len word option" where
  "parse_unsigned s =
     (let ds = (if s \<noteq> [] \<and> hd s = CHR ''+'' then tl s else s) in
      if ds = [] \<or> \<not> list_all is_digit ds \<or> 2 ^ LENGTH('a) \<le> dec_val ds then None
      else Some (of_nat (dec_val ds)))"

definition unwrap_or :: "'a option \<Rightarrow> 'a \<Rightarrow> 'a" where
  "unwrap_or x d = (case x of None \<Rightarrow> d | Some v \<Rightarrow> v)"

record fc_opts =
  op_fc_bin :: string
  op_sock :: string
  op_kernel :: string
  op_rootfs :: string
  op_vcpus :: "32 word"
  op_mem :: "32 word"
  op_boot_args :: "string option"
  op_console :: "string option"
  op_tap :: "string option"
  op_guest_mac :: string
  op_wait :: "64 word"

definition fc_defaults :: fc_opts where
  "fc_defaults =
     \<lparr>op_fc_bin = ''firecracker'', op_sock = ''/tmp/fc-driver.sock'', op_kernel = [], op_rootfs = [],
      op_vcpus = 1, op_mem = 256, op_boot_args = None, op_console = None, op_tap = None,
      op_guest_mac = ''06:00:AC:10:00:02'', op_wait = 0\<rparr>"

text \<open>One arm of the match for each flag; an unknown flag takes no value.\<close>

definition set_flag :: "string \<Rightarrow> string \<Rightarrow> fc_opts \<Rightarrow> fc_opts option" where
  "set_flag flag v p =
     (if flag = ''--fc-bin'' then Some (p\<lparr>op_fc_bin := v\<rparr>)
      else if flag = ''--sock'' then Some (p\<lparr>op_sock := v\<rparr>)
      else if flag = ''--kernel'' then Some (p\<lparr>op_kernel := v\<rparr>)
      else if flag = ''--rootfs'' then Some (p\<lparr>op_rootfs := v\<rparr>)
      else if flag = ''--vcpus'' then Some (p\<lparr>op_vcpus := unwrap_or (parse_unsigned v) 1\<rparr>)
      else if flag = ''--mem'' then Some (p\<lparr>op_mem := unwrap_or (parse_unsigned v) 256\<rparr>)
      else if flag = ''--boot-args'' then Some (p\<lparr>op_boot_args := Some v\<rparr>)
      else if flag = ''--console'' then Some (p\<lparr>op_console := Some v\<rparr>)
      else if flag = ''--tap'' then Some (p\<lparr>op_tap := Some v\<rparr>)
      else if flag = ''--guest-mac'' then Some (p\<lparr>op_guest_mac := v\<rparr>)
      else if flag = ''--wait'' then Some (p\<lparr>op_wait := unwrap_or (parse_unsigned v) 0\<rparr>)
      else None)"

fun read_flags :: "string list \<Rightarrow> fc_opts \<Rightarrow> fc_opts" where
  "read_flags [] p = p"
| "read_flags (flag # rest) p =
     (case set_flag flag (case rest of [] \<Rightarrow> [] | v # _ \<Rightarrow> v) p of
        Some p' \<Rightarrow> read_flags (tl rest) p'
      | None \<Rightarrow> read_flags rest p)"

definition opts_config :: "fc_opts \<Rightarrow> vm_config" where
  "opts_config p =
     (let cfg = VmConfig_new (op_kernel p) (op_rootfs p) in
      cfg\<lparr>vc_vcpu_count := op_vcpus p, vc_mem_size_mib := op_mem p, vc_console_log := op_console p,
          vc_net := map_option (\<lambda>t. \<lparr>nc_tap_dev = t, nc_guest_mac = op_guest_mac p\<rparr>) (op_tap p),
          vc_boot_args := (case op_boot_args p of Some b \<Rightarrow> b | None \<Rightarrow> vc_boot_args cfg)\<rparr>)"

section \<open>Requests to the API socket\<close>

definition crlf :: string where
  "crlf = [char_of (13::nat), char_of (10::nat)]"

definition build_put_request :: "string \<Rightarrow> string \<Rightarrow> string" where
  "build_put_request route body =
     ''PUT '' @ route @ '' HTTP/1.1'' @ crlf @ ''Host: localhost'' @ crlf @ ''Accept: application/json'' @ crlf @
     ''Content-Type: application/json'' @ crlf @ ''Content-Length: '' @ dec (length body) @ crlf @
     ''Connection: close'' @ crlf @ crlf @ body"

text \<open>\<^verbatim>\<open>str::split_whitespace\<close>: the non-empty pieces between runs of Unicode white space.\<close>

function split_ws :: "string \<Rightarrow> string \<Rightarrow> string list" where
  "split_ws cur [] = (if cur = [] then [] else [cur])"
| "split_ws cur (c # s) =
     (case leading_space (c # s) of
        Some p \<Rightarrow> (if cur = [] then [] else [cur]) @ split_ws [] (drop (length p) (c # s))
      | None \<Rightarrow> split_ws (cur @ [c]) s)"
  by pat_completeness auto
termination
  by (relation "measure (\<lambda>(cur, s). length s)")
    (auto dest!: leading_space_SomeD simp: neq_Nil_conv)

text \<open>
  The status is the second word of the first line; a carriage return that ends the line is white
  space.
\<close>

definition parse_status_code :: "string \<Rightarrow> 16 word option" where
  "parse_status_code resp =
     (if \<not> valid_utf8 resp \<or> resp = [] then None
      else (case split_ws [] (takeWhile (\<lambda>c. c \<noteq> char_of (10::nat)) resp) of
              _ # w # _ \<Rightarrow> parse_unsigned w
            | _ \<Rightarrow> None))"

text \<open>The answer is what the first read returns, at most 1024 bytes; a failed read is empty.\<close>

definition answer_bytes :: "reply \<Rightarrow> string" where
  "answer_bytes r = (if r_err r = None then take 1024 (r_out r) else [])"

definition answer_status :: "reply \<Rightarrow> 16 word" where
  "answer_status r = unwrap_or (parse_status_code (answer_bytes r)) 0"

definition accepted :: "reply \<Rightarrow> bool" where
  "accepted r \<longleftrightarrow> 200 \<le> answer_status r \<and> answer_status r < 300"

datatype fc_error =
    FlagsRequired
  | ConsoleLog string string
  | ConsoleHandle string
  | SpawnFailed string string
  | NoSocket
  | NonUtf8 string
  | ConnectFailed string string
  | WriteFailed string
  | PutStatus string "16 word" string
  | WaitFailed string

definition put :: "env \<Rightarrow> string \<Rightarrow> string \<Rightarrow> string \<Rightarrow> os \<Rightarrow> fc_error option \<times> os" where
  "put env sock route body w =
     (let (r1, w1) = perform env (UnixConnect sock) w in
      case r_err r1 of
        Some e \<Rightarrow> (Some (ConnectFailed route e), w1)
      | None \<Rightarrow>
          (let (r2, w2) = perform env (UnixWrite sock (build_put_request route body)) w1 in
           case r_err r2 of
             Some e \<Rightarrow> (Some (WriteFailed e), w2)
           | None \<Rightarrow>
               (let (r3, w3) = perform env (UnixRead sock 1024) w2 in
                if accepted r3 then (None, w3)
                else (Some (PutStatus route (answer_status r3) (answer_bytes r3)), w3))))"

text \<open>A sequence of \<^verbatim>\<open>put\<close> calls, each followed by the question mark.\<close>

fun put_all ::
  "env \<Rightarrow> (json \<Rightarrow> string) \<Rightarrow> string \<Rightarrow> (string \<times> json) list \<Rightarrow> os \<Rightarrow> fc_error option \<times> os" where
  "put_all env ser sock [] w = (None, w)"
| "put_all env ser sock ((route, body) # ps) w =
     (case put env sock route (ser body) w of
        (Some e, w') \<Rightarrow> (Some e, w')
      | (None, w') \<Rightarrow> put_all env ser sock ps w')"

definition boot_source_json :: "vm_config \<Rightarrow> json" where
  "boot_source_json cfg =
     JObj [(''kernel_image_path'', JStr (vc_kernel_image_path cfg)), (''boot_args'', JStr (vc_boot_args cfg))]"

definition drive_json :: "vm_config \<Rightarrow> json" where
  "drive_json cfg =
     JObj [(''drive_id'', JStr ''rootfs''), (''path_on_host'', JStr (vc_rootfs_path cfg)),
       (''is_root_device'', JBool True), (''is_read_only'', JBool (vc_rootfs_read_only cfg))]"

definition machine_json :: "vm_config \<Rightarrow> json" where
  "machine_json cfg =
     JObj [(''vcpu_count'', JInt (uint (vc_vcpu_count cfg))), (''mem_size_mib'', JInt (uint (vc_mem_size_mib cfg)))]"

definition net_json :: "net_config \<Rightarrow> json" where
  "net_json n =
     JObj [(''iface_id'', JStr ''eth0''), (''host_dev_name'', JStr (nc_tap_dev n)),
       (''guest_mac'', JStr (nc_guest_mac n))]"

definition start_json :: json where
  "start_json = JObj [(''action_type'', JStr ''InstanceStart'')]"

definition config_puts :: "vm_config \<Rightarrow> (string \<times> json) list" where
  "config_puts cfg =
     [(''/boot-source'', boot_source_json cfg), (''/drives/rootfs'', drive_json cfg),
      (''/machine-config'', machine_json cfg)] @
     (case vc_net cfg of None \<Rightarrow> [] | Some n \<Rightarrow> [(''/network-interfaces/eth0'', net_json n)])"

definition configure ::
  "env \<Rightarrow> (json \<Rightarrow> string) \<Rightarrow> string \<Rightarrow> vm_config \<Rightarrow> os \<Rightarrow> fc_error option \<times> os" where
  "configure env ser sock cfg w =
     (if \<not> valid_utf8 (vc_kernel_image_path cfg) then (Some (NonUtf8 ''kernel''), w)
      else if \<not> valid_utf8 (vc_rootfs_path cfg) then (Some (NonUtf8 ''rootfs''), w)
      else put_all env ser sock (config_puts cfg) w)"

section \<open>The life of a microVM\<close>

text \<open>
  \<^verbatim>\<open>wait_for_socket\<close>: \<^verbatim>\<open>tokio\<close>'s timeout polls the loop first and its own deadline second. While the
  socket is missing, the loop sleeps 50 milliseconds; if the deadline comes first, the timeout wakes,
  finds the loop still asleep and gives up.
\<close>

function socket_loop :: "env \<Rightarrow> string \<Rightarrow> nat \<Rightarrow> os \<Rightarrow> bool \<times> os" where
  "socket_loop env sock deadline w =
     (let (r, w1) = perform env (PathExists sock) w in
      if r_err r = None then (True, w1)
      else if deadline \<le> clock w1 then (False, w1)
      else (let w2 = exec env (Sleep (min 50000000 (deadline - clock w1))) w1 in
            if clock w1 + 50000000 \<le> clock w2 then socket_loop env sock deadline w2
            else (False, w2)))"
  by pat_completeness auto
termination
proof (relation "measure (\<lambda>(env, sock, deadline, w). deadline - clock w)", simp)
  fix env :: env and sock deadline and w w1 w2 :: os and x r
  assume "x = perform env (PathExists sock) w" "(r, w1) = x" "\<not> deadline \<le> clock w1"
    "clock w1 + 50000000 \<le> clock w2"
  then show "((env, sock, deadline, w2), env, sock, deadline, w)
      \<in> measure (\<lambda>(env, sock, deadline, w). deadline - clock w)"
    using clock_exec [of w env "PathExists sock"] by (auto simp: perform_eq)
qed

declare socket_loop.simps [simp del]

definition wait_for_socket :: "env \<Rightarrow> string \<Rightarrow> nat \<Rightarrow> os \<Rightarrow> fc_error option \<times> os" where
  "wait_for_socket env sock dur w =
     (let (ok, w') = socket_loop env sock (clock w + dur) w in (if ok then None else Some NoSocket, w'))"

text \<open>The console log and its second handle, for the VMM's standard output and error.\<close>

definition open_console :: "env \<Rightarrow> string option \<Rightarrow> os \<Rightarrow> fc_error option \<times> os" where
  "open_console env console w =
     (case console of
        None \<Rightarrow> (None, w)
      | Some log \<Rightarrow>
          (let (r1, w1) = perform env (CreateFile log) w in
           case r_err r1 of
             Some e \<Rightarrow> (Some (ConsoleLog log e), w1)
           | None \<Rightarrow>
               (let (r2, w2) = perform env (DupHandle log) w1 in
                (map_option ConsoleHandle (r_err r2), w2))))"

text \<open>
  What \<^verbatim>\<open>boot\<close> does once the VMM is spawned, each call followed by the question mark: an error drops
  the \<^verbatim>\<open>MicroVm\<close>, and with it the child, which was spawned with \<^verbatim>\<open>kill_on_drop\<close>.
\<close>

definition bring_up ::
  "env \<Rightarrow> (json \<Rightarrow> string) \<Rightarrow> string \<Rightarrow> vm_config \<Rightarrow> os \<Rightarrow> fc_error option \<times> os" where
  "bring_up env ser sock cfg w =
     (case wait_for_socket env sock 5000000000 w of
        (Some e, w1) \<Rightarrow> (Some e, w1)
      | (None, w1) \<Rightarrow>
          (case configure env ser sock cfg w1 of
             (Some e, w2) \<Rightarrow> (Some e, w2)
           | (None, w2) \<Rightarrow> put env sock ''/actions'' (ser start_json) w2))"

definition vmm_command :: "string \<Rightarrow> string \<Rightarrow> string list" where
  "vmm_command fc_bin sock = [fc_bin, ''--api-sock'', sock]"

definition boot ::
  "env \<Rightarrow> (json \<Rightarrow> string) \<Rightarrow> string \<Rightarrow> string \<Rightarrow> vm_config \<Rightarrow> os \<Rightarrow> (fc_error, nat) result \<times> os" where
  "boot env ser fc_bin sock cfg w =
     (let w0 = exec env (RemoveFile sock) w in
      case open_console env (vc_console_log cfg) w0 of
        (Some e, w1) \<Rightarrow> (Inl e, w1)
      | (None, w1) \<Rightarrow>
          (let (r, w2) = perform env (Spawn (vmm_command fc_bin sock)) w1 in
           case r_err r of
             Some e \<Rightarrow> (Inl (SpawnFailed fc_bin e), w2)
           | None \<Rightarrow>
               (case bring_up env ser sock cfg w2 of
                  (Some e, w3) \<Rightarrow> (Inl e, exec env (KillProc (r_pid r)) w3)
                | (None, w3) \<Rightarrow> (Inr (r_pid r), w3))))"

definition stop :: "env \<Rightarrow> string \<Rightarrow> nat \<Rightarrow> os \<Rightarrow> os" where
  "stop env sock pid w =
     exec env (RemoveFile sock) (exec env (WaitFor pid) (exec env (KillProc pid) w))"

text \<open>
  The rest of \<^verbatim>\<open>vm_boot\<close>: with \<^verbatim>\<open>--wait\<close>, wait for so many seconds and stop the VM when it has not
  ended; without, wait until it ends. An error of that wait drops the \<^verbatim>\<open>MicroVm\<close>.
\<close>

definition stay :: "env \<Rightarrow> string \<Rightarrow> nat \<Rightarrow> 64 word \<Rightarrow> os \<Rightarrow> fc_error option \<times> os" where
  "stay env sock pid secs w =
     (if secs > 0 then
        (let (r, w1) = perform env (WaitTimeout pid (unat secs * 1000000000)) w in
         case r_err r of None \<Rightarrow> (None, w1) | Some _ \<Rightarrow> (None, stop env sock pid w1))
      else
        (let (r, w1) = perform env (WaitFor pid) w in
         case r_err r of
           None \<Rightarrow> (None, w1)
         | Some e \<Rightarrow> (Some (WaitFailed e), exec env (KillProc pid) w1)))"

definition vm_boot ::
  "env \<Rightarrow> (json \<Rightarrow> string) \<Rightarrow> string list \<Rightarrow> os \<Rightarrow> fc_error option \<times> os" where
  "vm_boot env ser args w =
     (let p = read_flags args fc_defaults in
      if op_kernel p = [] \<or> op_rootfs p = [] then (Some FlagsRequired, w)
      else (case boot env ser (op_fc_bin p) (op_sock p) (opts_config p) w of
              (Inl e, w') \<Rightarrow> (Some e, w')
            | (Inr pid, w') \<Rightarrow> stay env (op_sock p) pid (op_wait p) w'))"

text \<open>
  \<^verbatim>\<open>main\<close>: the exit code and the state afterwards. \<^verbatim>\<open>std::env::args\<close> panics on an argument that is
  not UTF-8, with exit code 101.
\<close>

definition fc_main :: "env \<Rightarrow> (json \<Rightarrow> string) \<Rightarrow> string list \<Rightarrow> os \<Rightarrow> nat \<times> os" where
  "fc_main env ser args w =
     (case args of
        [] \<Rightarrow> (0, w)
      | cmd # rest \<Rightarrow>
          if \<not> valid_utf8 cmd then (101, w)
          else if cmd \<noteq> ''vm-boot'' then (0, w)
          else if \<not> list_all valid_utf8 rest then (101, w)
          else (case vm_boot env ser rest w of (None, w') \<Rightarrow> (0, w') | (Some _, w') \<Rightarrow> (1, w')))"

section \<open>Reading the runner's command line\<close>

text \<open>A flag the driver knows takes the next argument, whatever it looks like.\<close>

lemma read_known_flag:
  "set_flag flag v p = Some p' \<Longrightarrow> read_flags (flag # v # rest) p = read_flags rest p'"
  by simp

definition runner_opts :: "exec_cfg \<Rightarrow> bootspec \<Rightarrow> fc_opts" where
  "runner_opts e spec = fc_defaults\<lparr>op_fc_bin := FirecrackerBin e, op_kernel := KernelPath e,
     op_rootfs := boot_rootfs e spec, op_tap := Some (bs_TapDev spec), op_guest_mac := bs_GuestMAC spec,
     op_sock := sock_path (bs_TapDev spec), op_boot_args := Some (boot_args spec),
     op_console := Some (''/tmp/fccon-'' @ bs_TapDev spec @ ''.log'')\<rparr>"

lemma read_vm_command: "read_flags (drop 2 (vm_command e spec)) fc_defaults = runner_opts e spec"
  unfolding vm_command_def runner_opts_def
  by (simp add: read_known_flag set_flag_def del: read_flags.simps(2))

section \<open>What a run sends and which VMMs it leaves\<close>

text \<open>The requests written to the socket, in order, and how many were answered with a 2xx status.\<close>

fun written :: "os_call \<Rightarrow> string list" where
  "written (UnixWrite _ b) = [b]"
| "written _ = []"

definition sent :: "os_call list \<Rightarrow> string list" where
  "sent tr = concat (map written tr)"

fun acked_rev :: "env \<Rightarrow> os_call list \<Rightarrow> nat" where
  "acked_rev env [] = 0"
| "acked_rev env (c # h) =
     (case c of UnixRead _ _ \<Rightarrow> if accepted (env (rev h) c) then 1 else 0 | _ \<Rightarrow> 0) + acked_rev env h"

definition acked :: "env \<Rightarrow> os_call list \<Rightarrow> nat" where
  "acked env tr = acked_rev env (rev tr)"

text \<open>The VMMs that were spawned and neither killed nor waited for to their end.\<close>

fun vmms_rev :: "env \<Rightarrow> os_call list \<Rightarrow> nat list" where
  "vmms_rev env [] = []"
| "vmms_rev env (c # h) =
     (let good = (r_err (env (rev h) c) = None) in
      case c of
        Spawn _ \<Rightarrow> if good then r_pid (env (rev h) c) # vmms_rev env h else vmms_rev env h
      | KillProc p \<Rightarrow> filter (\<lambda>q. q \<noteq> p) (vmms_rev env h)
      | WaitFor p \<Rightarrow> if good then filter (\<lambda>q. q \<noteq> p) (vmms_rev env h) else vmms_rev env h
      | WaitTimeout p _ \<Rightarrow> if good then filter (\<lambda>q. q \<noteq> p) (vmms_rev env h) else vmms_rev env h
      | _ \<Rightarrow> vmms_rev env h)"

definition vmms :: "env \<Rightarrow> os_call list \<Rightarrow> nat list" where
  "vmms env tr = vmms_rev env (rev tr)"

lemma sent_append [simp]: "sent (tr @ cs) = sent tr @ sent cs"
  by (simp add: sent_def)

lemma sent_Cons [simp]: "sent (c # cs) = written c @ sent cs" "sent [] = []"
  by (simp_all add: sent_def)

lemma acked_snoc:
  "acked env (trace w @ [c]) =
     acked env (trace w) + (case c of UnixRead _ _ \<Rightarrow> if accepted (reply_of env c w) then 1 else 0 | _ \<Rightarrow> 0)"
  by (simp add: acked_def reply_of_def perform_def Let_def)

lemma vmms_snoc:
  "vmms env (trace w @ [c]) =
     (let good = (r_err (reply_of env c w) = None) in
      case c of
        Spawn _ \<Rightarrow> if good then r_pid (reply_of env c w) # vmms env (trace w) else vmms env (trace w)
      | KillProc p \<Rightarrow> filter (\<lambda>q. q \<noteq> p) (vmms env (trace w))
      | WaitFor p \<Rightarrow> if good then filter (\<lambda>q. q \<noteq> p) (vmms env (trace w)) else vmms env (trace w)
      | WaitTimeout p _ \<Rightarrow> if good then filter (\<lambda>q. q \<noteq> p) (vmms env (trace w)) else vmms env (trace w)
      | _ \<Rightarrow> vmms env (trace w))"
  by (simp add: vmms_def reply_of_def perform_def Let_def split: os_call.split)

lemma sent_exec: "sent (trace (exec env c w)) = sent (trace w) @ written c"
  by simp

lemma acked_exec:
  "acked env (trace (exec env c w)) =
     acked env (trace w) + (case c of UnixRead _ _ \<Rightarrow> if accepted (reply_of env c w) then 1 else 0 | _ \<Rightarrow> 0)"
  by (simp add: acked_snoc)

lemma vmms_exec:
  "vmms env (trace (exec env c w)) =
     (let good = (r_err (reply_of env c w) = None) in
      case c of
        Spawn _ \<Rightarrow> if good then r_pid (reply_of env c w) # vmms env (trace w) else vmms env (trace w)
      | KillProc p \<Rightarrow> filter (\<lambda>q. q \<noteq> p) (vmms env (trace w))
      | WaitFor p \<Rightarrow> if good then filter (\<lambda>q. q \<noteq> p) (vmms env (trace w)) else vmms env (trace w)
      | WaitTimeout p _ \<Rightarrow> if good then filter (\<lambda>q. q \<noteq> p) (vmms env (trace w)) else vmms env (trace w)
      | _ \<Rightarrow> vmms env (trace w))"
  unfolding trace_exec by (rule vmms_snoc)

lemmas run_exec = sent_exec acked_exec vmms_exec

text \<open>
  \<open>driven env reqs finished w w'\<close>: of the requests \<open>reqs\<close> the first \<open>k\<close> were sent and the first \<open>j\<close>
  accepted, at most the last one sent was not, all were accepted exactly when the run finished, and
  no VMM came or went.
\<close>

definition driven :: "env \<Rightarrow> string list \<Rightarrow> bool \<Rightarrow> os \<Rightarrow> os \<Rightarrow> bool" where
  "driven env reqs finished w w' \<longleftrightarrow>
     (\<exists>j k. j \<le> k \<and> k \<le> Suc j \<and> k \<le> length reqs \<and> (finished \<longleftrightarrow> j = length reqs) \<and>
        sent (trace w') = sent (trace w) @ take k reqs \<and>
        acked env (trace w') = acked env (trace w) + j \<and>
        vmms env (trace w') = vmms env (trace w))"

lemma drivenI:
  "sent (trace w') = sent (trace w) @ take k reqs \<Longrightarrow> acked env (trace w') = acked env (trace w) + j \<Longrightarrow>
     vmms env (trace w') = vmms env (trace w) \<Longrightarrow> j \<le> k \<Longrightarrow> k \<le> Suc j \<Longrightarrow> k \<le> length reqs \<Longrightarrow>
     (finished \<longleftrightarrow> j = length reqs) \<Longrightarrow> driven env reqs finished w w'"
  unfolding driven_def by blast

lemma driven_refl: "driven env [] True w w"
  by (auto simp: driven_def)

lemma driven_not_begun: "reqs \<noteq> [] \<Longrightarrow> driven env reqs False w w"
  unfolding driven_def by (intro exI [of _ 0]) simp

lemma driven_append:
  assumes "driven env rs True w w1" "driven env ss finished w1 w2"
  shows "driven env (rs @ ss) finished w w2"
proof -
  obtain j k where "j \<le> k" "k \<le> Suc j" "k \<le> length ss" "finished \<longleftrightarrow> j = length ss"
    "sent (trace w2) = sent (trace w1) @ take k ss" "acked env (trace w2) = acked env (trace w1) + j"
    "vmms env (trace w2) = vmms env (trace w1)"
    using assms(2) unfolding driven_def by (elim exE conjE) (rule that)
  with assms(1) show ?thesis
    unfolding driven_def by (intro exI [of _ "length rs + j"] exI [of _ "length rs + k"]) auto
qed

lemma driven_broken_off: "driven env rs False w w1 \<Longrightarrow> driven env (rs @ ss) False w w1"
proof -
  assume "driven env rs False w w1"
  then obtain j k where "j \<le> k" "k \<le> Suc j" "k \<le> length rs" "j \<noteq> length rs"
    "sent (trace w1) = sent (trace w) @ take k rs" "acked env (trace w1) = acked env (trace w) + j"
    "vmms env (trace w1) = vmms env (trace w)"
    unfolding driven_def by auto
  then show ?thesis unfolding driven_def by (intro exI [of _ j] exI [of _ k]) auto
qed

text \<open>Calls that neither use the connection nor concern a VMM.\<close>

fun aside :: "os_call \<Rightarrow> bool" where
  "aside (PathExists _) = True"
| "aside (Sleep _) = True"
| "aside (CreateFile _) = True"
| "aside (DupHandle _) = True"
| "aside (RemoveFile _) = True"
| "aside (UnixConnect _) = True"
| "aside _ = False"

lemma driven_aside: "aside c \<Longrightarrow> driven env [] True w (exec env c w)"
  by (cases c) (auto simp: driven_def acked_snoc vmms_snoc)

lemma driven_socket_loop: "driven env [] True w (snd (socket_loop env sock deadline w))"
proof (induction env sock deadline w rule: socket_loop.induct)
  case (1 env sock deadline w)
  let ?w1 = "exec env (PathExists sock) w"
  let ?w2 = "exec env (Sleep (min 50000000 (deadline - clock ?w1))) ?w1"
  have d: "driven env [] True w ?w1" "driven env [] True w ?w2"
    using driven_aside [of "PathExists sock" env w]
      driven_append [OF driven_aside [of "PathExists sock" env w] driven_aside
        [of "Sleep (min 50000000 (deadline - clock ?w1))" env ?w1]] by simp_all
  have "driven env [] True ?w2 (snd (socket_loop env sock deadline ?w2))"
    if "r_err (reply_of env (PathExists sock) w) \<noteq> None" "\<not> deadline \<le> clock ?w1"
      "clock ?w1 + 50000000 \<le> clock ?w2"
    using that by (intro "1.IH" [OF refl perform_eq [symmetric] _ _ refl]) auto
  with driven_append [OF d(2)] d show ?case
    by (subst socket_loop.simps) (simp add: perform_eq Let_def)
qed

lemma put_calls:
  assumes "put env sock route body w = (res, w')"
  shows "let c = UnixConnect sock; s = UnixWrite sock (build_put_request route body); r = UnixRead sock 1024;
             w1 = exec env c w; w2 = exec env s w1 in
    (res \<noteq> None \<and> (w' = w1 \<or> w' = w2)) \<or>
    ((res = None) = accepted (reply_of env r w2) \<and> w' = exec env r w2)"
  using assms unfolding put_def perform_eq Let_def prod.case
  by (cases "r_err (reply_of env (UnixConnect sock) w)";
      cases "r_err (reply_of env (UnixWrite sock (build_put_request route body)) (exec env (UnixConnect sock) w))")
    (simp_all only: option.case if_split prod.inject, auto split: if_splits)

lemma driven_put:
  assumes "put env sock route body w = (res, w')"
  shows "driven env [build_put_request route body] (res = None) w w'"
proof -
  define s where "s = UnixWrite sock (build_put_request route body)"
  define w1 where "w1 = exec env (UnixConnect sock) w"
  define w2 where "w2 = exec env s w1"
  define w3 where "w3 = exec env (UnixRead sock 1024) w2"
  define good where "good = accepted (reply_of env (UnixRead sock 1024) w2)"
  have same: "vmms env (trace w1) = vmms env (trace w)" "vmms env (trace w2) = vmms env (trace w)"
    "vmms env (trace w3) = vmms env (trace w)"
    by (simp_all add: w1_def w2_def w3_def s_def run_exec del: trace_exec)
  have acks: "acked env (trace w1) = acked env (trace w)" "acked env (trace w2) = acked env (trace w)"
    "acked env (trace w3) = acked env (trace w) + (if good then 1 else 0)"
    by (simp_all add: w1_def w2_def w3_def s_def good_def run_exec del: trace_exec)
  have sends: "sent (trace w1) = sent (trace w)" "sent (trace w2) = sent (trace w) @ [build_put_request route body]"
    "sent (trace w3) = sent (trace w) @ [build_put_request route body]"
    by (simp_all add: w1_def w2_def w3_def s_def run_exec del: trace_exec)
  have "(res \<noteq> None \<and> (w' = w1 \<or> w' = w2)) \<or> ((res = None) = good \<and> w' = w3)"
    using put_calls [OF assms] unfolding w1_def w2_def w3_def s_def good_def Let_def .
  then consider (unconnected) "res \<noteq> None" "w' = w1" | (unsent) "res \<noteq> None" "w' = w2"
    | (answered) "(res = None) = good" "w' = w3" by blast
  then show ?thesis
  proof cases
    case unconnected
    then show ?thesis
      by (intro drivenI [where j = 0 and k = 0]) (simp_all add: same acks sends)
  next
    case unsent
    then show ?thesis
      by (intro drivenI [where j = 0 and k = 1]) (simp_all add: same acks sends)
  next
    case answered
    then show ?thesis
      by (intro drivenI [where j = "if good then 1 else 0" and k = 1]) (simp_all add: same acks sends)
  qed
qed

definition put_requests :: "(json \<Rightarrow> string) \<Rightarrow> (string \<times> json) list \<Rightarrow> string list" where
  "put_requests ser ps = map (\<lambda>(route, body). build_put_request route (ser body)) ps"

lemma driven_put_all:
  "put_all env ser sock ps w = (res, w') \<Longrightarrow> driven env (put_requests ser ps) (res = None) w w'"
proof (induction ps arbitrary: w)
  case Nil
  then show ?case by (simp add: put_requests_def driven_refl)
next
  case (Cons q ps)
  obtain route body where q: "q = (route, body)" by (cases q)
  obtain r w1 where p: "put env sock route (ser body) w = (r, w1)" by (cases "put env sock route (ser body) w")
  show ?case
  proof (cases r)
    case None
    with Cons.prems p q have "put_all env ser sock ps w1 = (res, w')" by simp
    from driven_append [OF driven_put [OF p, unfolded None simp_thms] Cons.IH [OF this]] q
    show ?thesis by (simp add: put_requests_def)
  next
    case (Some e)
    with Cons.prems p q have "res = Some e" "w' = w1" by auto
    with driven_broken_off [of env "[build_put_request route (ser body)]" w w1 "put_requests ser ps"]
      driven_put [OF p] Some q show ?thesis by (simp add: put_requests_def)
  qed
qed

text \<open>The requests of a whole run: the configuration in its order, then the start of the guest.\<close>

definition guest_requests :: "(json \<Rightarrow> string) \<Rightarrow> vm_config \<Rightarrow> string list" where
  "guest_requests ser cfg = put_requests ser (config_puts cfg @ [(''/actions'', start_json)])"

lemma driven_bring_up:
  assumes "bring_up env ser sock cfg w = (res, w')"
  shows "driven env (guest_requests ser cfg) (res = None) w w'"
proof -
  let ?start = "[build_put_request ''/actions'' (ser start_json)]"
  have g: "guest_requests ser cfg = put_requests ser (config_puts cfg) @ ?start"
    by (simp add: guest_requests_def put_requests_def)
  obtain good w1 where s: "socket_loop env sock (clock w + 5000000000) w = (good, w1)"
    by (cases "socket_loop env sock (clock w + 5000000000) w")
  have d1: "driven env [] True w w1" using driven_socket_loop [of env w sock "clock w + 5000000000"] s by simp
  obtain r w2 where c: "configure env ser sock cfg w1 = (r, w2)" by (cases "configure env ser sock cfg w1")
  have n: "put_requests ser (config_puts cfg) \<noteq> []" by (simp add: put_requests_def config_puts_def)
  have d2: "driven env (put_requests ser (config_puts cfg)) (r = None) w1 w2"
    using c driven_put_all [of env ser sock "config_puts cfg" w1 r w2] driven_not_begun [OF n]
    by (auto simp: configure_def split: if_splits)
  consider (late) e where "res = Some e" "w' = w1" | (refused) e where "r = Some e" "res = Some e" "w' = w2"
    | (configured) "r = None" "put env sock ''/actions'' (ser start_json) w2 = (res, w')"
    using assms s c by (auto simp: bring_up_def wait_for_socket_def split: option.splits if_splits)
  then show ?thesis
  proof cases
    case late
    have "guest_requests ser cfg \<noteq> []" by (simp add: g)
    from driven_append [OF d1 driven_not_begun [OF this]] late show ?thesis by simp
  next
    case refused
    with driven_append [OF d1 d2] have "driven env (put_requests ser (config_puts cfg)) False w w2" by simp
    from driven_broken_off [OF this, of ?start] refused show ?thesis by (simp add: g)
  next
    case configured
    with driven_append [OF d1 d2] have "driven env (put_requests ser (config_puts cfg)) True w w2" by simp
    from driven_append [OF this driven_put [OF configured(2)]] show ?thesis by (simp add: g)
  qed
qed

lemma driven_vmms: "driven env reqs b w w' \<Longrightarrow> vmms env (trace w') = vmms env (trace w)"
  by (auto simp: driven_def)

lemma driven_open_console: "open_console env console w = (res, w') \<Longrightarrow> driven env [] True w w'"
  using driven_append [OF driven_aside [of "CreateFile x" for x] driven_aside [of "DupHandle y" for y]]
  by (auto simp: open_console_def perform_eq driven_refl driven_aside split: option.splits)

text \<open>The part of it that the spawn and the kill of the VMM do not touch.\<close>

definition transmitted :: "env \<Rightarrow> string list \<Rightarrow> bool \<Rightarrow> os \<Rightarrow> os \<Rightarrow> bool" where
  "transmitted env reqs finished w w' \<longleftrightarrow>
     (\<exists>j k. j \<le> k \<and> k \<le> Suc j \<and> k \<le> length reqs \<and> (finished \<longleftrightarrow> j = length reqs) \<and>
        sent (trace w') = sent (trace w) @ take k reqs \<and>
        acked env (trace w') = acked env (trace w) + j)"

lemma driven_transmitted: "driven env reqs b w w' \<Longrightarrow> transmitted env reqs b w w'"
  unfolding driven_def transmitted_def by blast

lemma transmitted_cong:
  "transmitted env reqs b w w' \<Longrightarrow> sent (trace v) = sent (trace w) \<Longrightarrow> acked env (trace v) = acked env (trace w) \<Longrightarrow>
     sent (trace v') = sent (trace w') \<Longrightarrow> acked env (trace v') = acked env (trace w') \<Longrightarrow>
     transmitted env reqs b v v'"
  by (simp add: transmitted_def)

lemma guest_requests_nonempty: "guest_requests ser cfg \<noteq> []"
  by (simp add: guest_requests_def put_requests_def)

text \<open>The three ways \<^verbatim>\<open>boot\<close> ends.\<close>

lemma boot_cases:
  assumes "boot env ser fc_bin sock cfg w = (res, w')"
  obtains (not_spawned) e where "res = Inl e" "transmitted env (guest_requests ser cfg) False w w'"
      "vmms env (trace w') = vmms env (trace w)"
  | (killed) e pid where "res = Inl e" "transmitted env (guest_requests ser cfg) False w w'"
      "vmms env (trace w') = filter (\<lambda>q. q \<noteq> pid) (vmms env (trace w))"
  | (booted) pid where "res = Inr pid" "transmitted env (guest_requests ser cfg) True w w'"
      "vmms env (trace w') = pid # vmms env (trace w)"
proof -
  let ?g = "guest_requests ser cfg" and ?s = "Spawn (vmm_command fc_bin sock)"
  obtain oe w1 where c: "open_console env (vc_console_log cfg) (exec env (RemoveFile sock) w) = (oe, w1)"
    by (cases "open_console env (vc_console_log cfg) (exec env (RemoveFile sock) w)")
  have d1: "driven env [] True w w1"
    using driven_append [OF driven_aside [of "RemoveFile sock" env w] driven_open_console [OF c]] by simp
  have none_yet: "driven env ?g False w w1"
    using driven_append [OF d1 driven_not_begun [OF guest_requests_nonempty]] by simp
  let ?r = "reply_of env ?s w1" and ?w2 = "exec env ?s w1"
  have s2: "sent (trace ?w2) = sent (trace w1)" "acked env (trace ?w2) = acked env (trace w1)"
    "vmms env (trace ?w2) = (if r_err ?r = None then r_pid ?r # vmms env (trace w1) else vmms env (trace w1))"
    using acked_snoc [of env w1 ?s] vmms_snoc [of env w1 ?s] by simp_all
  obtain be w3 where b: "bring_up env ser sock cfg ?w2 = (be, w3)" by (cases "bring_up env ser sock cfg ?w2")
  note d3 = driven_bring_up [OF b]
  let ?w4 = "exec env (KillProc (r_pid ?r)) w3"
  have s4: "sent (trace ?w4) = sent (trace w3)" "acked env (trace ?w4) = acked env (trace w3)"
    "vmms env (trace ?w4) = filter (\<lambda>q. q \<noteq> r_pid ?r) (vmms env (trace w3))"
    using acked_snoc [of env w3 "KillProc (r_pid ?r)"] vmms_snoc [of env w3 "KillProc (r_pid ?r)"] by simp_all
  have s1: "sent (trace w1) = sent (trace w)" "acked env (trace w1) = acked env (trace w)"
    using d1 by (simp_all add: driven_def)
  have run: "transmitted env ?g (be = None) w v"
    if "sent (trace v) = sent (trace w3)" "acked env (trace v) = acked env (trace w3)" for v
    by (rule transmitted_cong [OF driven_transmitted [OF d3]]) (simp_all only: s1 s2(1,2) that)
  consider (console) e where "res = Inl e" "w' = w1"
    | (spawn) e where "res = Inl e" "w' = ?w2" "r_err ?r \<noteq> None"
    | (failed) e where "res = Inl e" "w' = ?w4" "r_err ?r = None" "be \<noteq> None"
    | (up) "res = Inr (r_pid ?r)" "w' = w3" "r_err ?r = None" "be = None"
    using assms c b by (auto simp: boot_def perform_eq Let_def split: option.splits)
  then show thesis
  proof cases
    case (console e)
    with driven_transmitted [OF none_yet] driven_vmms [OF none_yet] show thesis by (intro not_spawned) auto
  next
    case (spawn e)
    have "transmitted env ?g False w ?w2"
      by (rule transmitted_cong [OF driven_transmitted [OF none_yet]]) (simp_all only: s2(1,2))
    with spawn s2(3) driven_vmms [OF none_yet] show thesis by (intro not_spawned) auto
  next
    case (failed e)
    with run [of ?w4] s4 have "transmitted env ?g False w w'" by simp
    moreover have "vmms env (trace w') = filter (\<lambda>q. q \<noteq> r_pid ?r) (vmms env (trace w))"
      using failed s4(3) s2(3) driven_vmms [OF d3] driven_vmms [OF d1] by simp
    ultimately show thesis using failed(1) by (intro killed)
  next
    case up
    with run [of w3] have "transmitted env ?g True w w'" by simp
    moreover have "vmms env (trace w') = r_pid ?r # vmms env (trace w)"
      using up s2(3) driven_vmms [OF d3] driven_vmms [OF d1] by simp
    ultimately show thesis using up(1) by (intro booted)
  qed
qed

lemma stay_leaves_none:
  assumes "stay env sock pid secs w = (res, w')"
  shows "set (vmms env (trace w')) \<subseteq> set (vmms env (trace w)) - {pid} \<and>
    sent (trace w') = sent (trace w) \<and> acked env (trace w') = acked env (trace w)"
proof (cases "secs > 0")
  case True
  with assms show ?thesis
    by (auto simp: stay_def stop_def perform_eq run_exec Let_def simp del: trace_exec split: option.splits if_splits)
next
  case False
  with assms show ?thesis
    by (auto simp: stay_def perform_eq run_exec Let_def simp del: trace_exec split: option.splits if_splits)
qed

lemma vm_boot_run:
  assumes "vm_boot env ser args w = (res, w')" "p = read_flags args fc_defaults"
    and "op_kernel p \<noteq> []" "op_rootfs p \<noteq> []"
  shows "(\<exists>finished. transmitted env (guest_requests ser (opts_config p)) finished w w' \<and> (res = None \<longrightarrow> finished)) \<and>
    set (vmms env (trace w')) \<subseteq> set (vmms env (trace w))"
proof -
  obtain b w1 where b: "boot env ser (op_fc_bin p) (op_sock p) (opts_config p) w = (b, w1)"
    by (cases "boot env ser (op_fc_bin p) (op_sock p) (opts_config p) w")
  note run = assms(1) [unfolded vm_boot_def Let_def, folded assms(2)]
  from b show ?thesis
  proof (cases rule: boot_cases)
    case (not_spawned e)
    with run b assms(3,4) have "res = Some e" "w' = w1" by simp_all
    with not_spawned show ?thesis by (intro conjI exI [of _ False]) simp_all
  next
    case (killed e pid)
    with run b assms(3,4) have "res = Some e" "w' = w1" by simp_all
    with killed show ?thesis by (intro conjI exI [of _ False]) auto
  next
    case (booted pid)
    with run b assms(3,4) have "stay env (op_sock p) pid (op_wait p) w1 = (res, w')" by simp
    note stayed = stay_leaves_none [OF this]
    with booted have "transmitted env (guest_requests ser (opts_config p)) True w w'"
      by (intro transmitted_cong [OF booted(2)]) simp_all
    with stayed booted(3) show ?thesis by (intro conjI exI [of _ True]) auto
  qed
qed

text \<open>What the driver sends for the command line of the runner.\<close>

definition spec_requests :: "(json \<Rightarrow> string) \<Rightarrow> exec_cfg \<Rightarrow> bootspec \<Rightarrow> string list" where
  "spec_requests ser e spec = guest_requests ser (opts_config (runner_opts e spec))"

lemma spec_requests_eq:
  "spec_requests ser e spec = map (\<lambda>(route, body). build_put_request route (ser body))
      [(''/boot-source'', JObj [(''kernel_image_path'', JStr (KernelPath e)), (''boot_args'', JStr (boot_args spec))]),
       (''/drives/rootfs'', JObj [(''drive_id'', JStr ''rootfs''), (''path_on_host'', JStr (boot_rootfs e spec)),
          (''is_root_device'', JBool True), (''is_read_only'', JBool False)]),
       (''/machine-config'', JObj [(''vcpu_count'', JInt 1), (''mem_size_mib'', JInt 256)]),
       (''/network-interfaces/eth0'', JObj [(''iface_id'', JStr ''eth0''), (''host_dev_name'', JStr (bs_TapDev spec)),
          (''guest_mac'', JStr (bs_GuestMAC spec))]),
       (''/actions'', JObj [(''action_type'', JStr ''InstanceStart'')])]"
  by (simp add: spec_requests_def guest_requests_def put_requests_def config_puts_def opts_config_def
      runner_opts_def fc_defaults_def VmConfig_new_def boot_source_json_def drive_json_def machine_json_def
      net_json_def start_json_def Let_def)

lemma spec_requests_length: "length (spec_requests ser e spec) = 5"
  unfolding spec_requests_eq by simp

lemma fc_main_vm_boot:
  assumes "fc_main env ser (tl (vm_command e spec)) w = (code, w')" "list_all valid_utf8 (tl (vm_command e spec))"
  obtains res where "vm_boot env ser (drop 2 (vm_command e spec)) w = (res, w')" "code = 0 \<longleftrightarrow> res = None"
proof -
  have args: "tl (vm_command e spec) = ''vm-boot'' # drop 2 (vm_command e spec)"
    by (simp add: vm_command_def)
  show thesis
    using assms that unfolding fc_main_def args
    by (auto split: prod.splits option.splits if_splits)
qed

text \<open>Exit code 0 is enough to know that every request was sent and accepted.\<close>

lemma fc_main_success:
  assumes "fc_main env ser (tl (vm_command e spec)) w = (0, w')"
  shows "sent (trace w') = sent (trace w) @ spec_requests ser e spec"
proof -
  have u: "list_all valid_utf8 (tl (vm_command e spec))"
    using assms by (auto simp: fc_main_def vm_command_def split: if_splits)
  obtain res where "vm_boot env ser (drop 2 (vm_command e spec)) w = (res, w')" "(0::nat) = 0 \<longleftrightarrow> res = None"
    by (rule fc_main_vm_boot [OF assms u])
  then have v: "vm_boot env ser (drop 2 (vm_command e spec)) w = (None, w')" by simp
  then have p: "op_kernel (runner_opts e spec) \<noteq> []" "op_rootfs (runner_opts e spec) \<noteq> []"
    unfolding vm_boot_def read_vm_command Let_def by (auto split: if_splits)
  from vm_boot_run [OF v read_vm_command [symmetric] p] show ?thesis
    by (auto simp: transmitted_def spec_requests_def)
qed

section \<open>The polling loop\<close>

abbreviation polls :: "string \<Rightarrow> os_call list \<Rightarrow> nat" where
  "polls sock cs \<equiv> length (filter (\<lambda>c. c = PathExists sock) cs)"

definition only_polls :: "string \<Rightarrow> os_call list \<Rightarrow> bool" where
  "only_polls sock cs \<longleftrightarrow> (\<forall>c \<in> set cs. c = PathExists sock \<or> (\<exists>d. c = Sleep d))"

lemma socket_loop_outcome:
  assumes "socket_loop env sock deadline w = (found, w')"
  shows "\<exists>cs. trace w' = trace w @ cs \<and> only_polls sock cs \<and> 1 \<le> polls sock cs \<and>
    (2 \<le> polls sock cs \<longrightarrow> clock w + (polls sock cs - 2) * 50000000 < deadline) \<and>
    (if found then cs \<noteq> [] \<and> last cs = PathExists sock \<and>
       r_err (env (trace w @ butlast cs) (PathExists sock)) = None
     else deadline \<le> clock w')"
  using assms
proof (induction env sock deadline w rule: socket_loop.induct)
  case (1 env sock deadline w)
  define w1 where "w1 = exec env (PathExists sock) w"
  define d where "d = min 50000000 (deadline - clock w1)"
  define w2 where "w2 = exec env (Sleep d) w1"
  have tr: "trace w1 = trace w @ [PathExists sock]" "trace w2 = trace w @ [PathExists sock, Sleep d]"
    by (simp_all add: w1_def w2_def)
  have ck: "clock w \<le> clock w1" "clock w1 + d \<le> clock w2"
    by (simp_all add: w1_def w2_def clock_exec clock_sleep)
  have step: "(if r_err (reply_of env (PathExists sock) w) = None then (True, w1)
      else if deadline \<le> clock w1 then (False, w1)
      else if clock w1 + 50000000 \<le> clock w2 then socket_loop env sock deadline w2 else (False, w2)) = (found, w')"
    unfolding w2_def d_def w1_def using "1.prems" [unfolded socket_loop.simps [of env sock deadline w]]
    by (simp only: perform_eq Let_def prod.case)
  show ?case
  proof (cases "r_err (reply_of env (PathExists sock) w) = None")
    case True
    from step have "found" "w' = w1" unfolding if_P [OF True] prod.inject by simp_all
    with True show ?thesis
      by (intro exI [of _ "[PathExists sock]"]) (simp add: tr only_polls_def reply_of_def perform_def Let_def)
  next
    case absent: False
    note step = step [unfolded if_not_P [OF absent]]
    show ?thesis
    proof (cases "deadline \<le> clock w1")
      case True
      from step have "\<not> found" "w' = w1" unfolding if_P [OF True] prod.inject by simp_all
      with True show ?thesis by (intro exI [of _ "[PathExists sock]"]) (simp add: tr only_polls_def)
    next
      case early: False
      note step = step [unfolded if_not_P [OF early]]
      show ?thesis
      proof (cases "clock w1 + 50000000 \<le> clock w2")
        case False
        from step have "\<not> found" "w' = w2" unfolding if_not_P [OF False] prod.inject by simp_all
        moreover have "deadline \<le> clock w2" using False ck by (simp add: d_def min_def split: if_splits)
        ultimately show ?thesis
          by (intro exI [of _ "[PathExists sock, Sleep d]"]) (simp add: tr only_polls_def)
      next
        case True
        note rest = step [unfolded if_P [OF True]]
        have "\<exists>cs. trace w' = trace w2 @ cs \<and> only_polls sock cs \<and> 1 \<le> polls sock cs \<and>
          (2 \<le> polls sock cs \<longrightarrow> clock w2 + (polls sock cs - 2) * 50000000 < deadline) \<and>
          (if found then cs \<noteq> [] \<and> last cs = PathExists sock \<and>
             r_err (env (trace w2 @ butlast cs) (PathExists sock)) = None
           else deadline \<le> clock w')"
          by (rule "1.IH" [OF refl perform_eq [symmetric], folded w1_def, folded d_def, OF absent early w2_def True rest])
        then obtain cs where cs: "trace w' = trace w2 @ cs" "only_polls sock cs" "1 \<le> polls sock cs"
          "2 \<le> polls sock cs \<longrightarrow> clock w2 + (polls sock cs - 2) * 50000000 < deadline"
          "if found then cs \<noteq> [] \<and> last cs = PathExists sock \<and>
             r_err (env (trace w2 @ butlast cs) (PathExists sock)) = None
           else deadline \<le> clock w'" by (elim exE conjE) (rule that)
        have "clock w + (polls sock cs - 1) * 50000000 < deadline"
        proof (cases "2 \<le> polls sock cs")
          case two: True
          then obtain k where "polls sock cs = k + 2" by (metis add.commute le_Suc_ex)
          with cs(4) ck True show ?thesis by simp
        next
          case False
          with cs(3) ck early show ?thesis by simp
        qed
        with cs show ?thesis
          by (intro exI [of _ "[PathExists sock, Sleep d] @ cs"]) (auto simp: tr only_polls_def)
      qed
    qed
  qed
qed

section \<open>Properties\<close>



text \<open>
  C13. The runner and the driver agree on the guest. For every boot specification, when \<^verbatim>\<open>fc-driver\<close> is
  run with the command line the runner writes for it, the requests it sends to Firecracker are, in
  this order, the kernel with the guest's address in the boot arguments, the root file system that
  was built, one CPU and 256 MiB, the leased TAP device and MAC address, and the start of the guest;
  a request is sent only after all before it were accepted, so that the guest never starts half
  configured; exit code 0 means that it was started; and no VMM is left running when the driver ends.
\<close>

theorem guest_configured_as_specified:
  assumes "KernelPath e \<noteq> []" "boot_rootfs e spec \<noteq> []" "list_all valid_utf8 (tl (vm_command e spec))"
    and "fc_main env ser (tl (vm_command e spec)) w = (code, w')"
  shows "\<exists>j k. j \<le> k \<and> k \<le> Suc j \<and> k \<le> 5 \<and> (code = 0 \<longrightarrow> j = 5) \<and>
    acked env (trace w') = acked env (trace w) + j \<and>
    sent (trace w') = sent (trace w) @ take k (map (\<lambda>(route, body). build_put_request route (ser body))
      [(''/boot-source'', JObj [(''kernel_image_path'', JStr (KernelPath e)),
          (''boot_args'', JStr (''console=ttyS0 reboot=k panic=1 pci=off ip='' @ bs_GuestIP spec @ ''::'' @
             bs_HostIP spec @ '':255.255.255.0::eth0:off init=/init''))]),
       (''/drives/rootfs'', JObj [(''drive_id'', JStr ''rootfs''), (''path_on_host'', JStr (boot_rootfs e spec)),
          (''is_root_device'', JBool True), (''is_read_only'', JBool False)]),
       (''/machine-config'', JObj [(''vcpu_count'', JInt 1), (''mem_size_mib'', JInt 256)]),
       (''/network-interfaces/eth0'', JObj [(''iface_id'', JStr ''eth0''), (''host_dev_name'', JStr (bs_TapDev spec)),
          (''guest_mac'', JStr (bs_GuestMAC spec))]),
       (''/actions'', JObj [(''action_type'', JStr ''InstanceStart'')])]) \<and>
    set (vmms env (trace w')) \<subseteq> set (vmms env (trace w))"
proof -
  obtain res where v: "vm_boot env ser (drop 2 (vm_command e spec)) w = (res, w')" "code = 0 \<longleftrightarrow> res = None"
    by (rule fc_main_vm_boot [OF assms(4,3)])
  have p: "op_kernel (runner_opts e spec) \<noteq> []" "op_rootfs (runner_opts e spec) \<noteq> []"
    using assms(1,2) by (simp_all add: runner_opts_def)
  note run = vm_boot_run [OF v(1) read_vm_command [symmetric] p, folded spec_requests_def]
  then show ?thesis
    using v(2) unfolding transmitted_def spec_requests_length boot_args_def [symmetric] spec_requests_eq [symmetric]
    by blast
qed

text \<open>An environment in which every call succeeds and Firecracker accepts every request.\<close>

definition kind_line :: string where
  "kind_line = ''HTTP/1.1 204 No Content''"

definition kind_reply :: reply where
  "kind_reply = ok_reply\<lparr>r_out := kind_line\<rparr>"

definition kind_env :: env where
  "kind_env h c = kind_reply"

lemma kind_env_reply [simp]: "reply_of kind_env c w = kind_reply" "r_err kind_reply = None"
  by (simp_all add: reply_of_def perform_def kind_env_def kind_reply_def ok_reply_def Let_def)

lemma leading_space_graphic:
  assumes "32 < byte c" "byte c < 128"
  shows "leading_space (c # s) = None"
proof -
  have "\<forall>p \<in> set space_seqs. p \<noteq> [] \<and> (byte (hd p) \<le> 32 \<or> 128 \<le> byte (hd p))"
    by (simp add: space_seqs_def)
  with assms have "\<not> HasPrefix (c # s) p" if "p \<in> set space_seqs" for p
    using that by (cases p) (auto simp: HasPrefix_def)
  then show ?thesis by (auto simp: leading_space_def find_None_iff)
qed

lemma leading_space_space: "leading_space (CHR '' '' # s) = Some '' ''"
proof -
  have "CHR '' '' \<noteq> char_of n" if "32 < n" "n < 256" for n :: nat
    using that by (auto dest: arg_cong [where f = "of_char :: char \<Rightarrow> nat"])
  moreover have "char_of (32::nat) = CHR '' ''" by code_simp
  ultimately show ?thesis by (simp add: leading_space_def space_seqs_def HasPrefix_def)
qed

lemma kind_status: "parse_status_code kind_line = Some 204"
proof -
  have u: "valid_utf8 kind_line" "kind_line \<noteq> []" by (simp_all add: kind_line_def valid_utf8_ascii)
  have s: "split_ws [] kind_line = [''HTTP/1.1'', ''204'', ''No'', ''Content'']"
    by (simp add: kind_line_def leading_space_graphic leading_space_space)
  have w: "(parse_unsigned ''204'' :: 16 word option) = Some 204"
    by (simp add: parse_unsigned_def is_digit_def dec_val_def digit_val_def)
  have "list_all (\<lambda>c. byte c \<noteq> 10) kind_line" by (simp add: kind_line_def)
  then have t: "takeWhile (\<lambda>c. c \<noteq> char_of (10::nat)) kind_line = kind_line"
    by (auto simp: takeWhile_eq_all_conv list_all_iff)
  show ?thesis using u w by (simp only: parse_status_code_def t s list.case if_False simp_thms)
qed

lemma kind_len: "take 1024 kind_line = kind_line"
  by (simp add: kind_line_def)

lemma kind_accepted [simp]: "accepted kind_reply"
  using kind_status
  by (simp add: kind_len accepted_def answer_status_def answer_bytes_def kind_reply_def ok_reply_def unwrap_or_def)

lemma kind_put: "\<exists>w'. put kind_env sock route body w = (None, w')"
  by (simp add: put_def perform_eq)

lemma kind_put_all: "\<exists>w'. put_all kind_env ser sock ps w = (None, w')"
proof (induction ps arbitrary: w)
  case (Cons q ps)
  obtain route body where q: "q = (route, body)" by (cases q)
  obtain w1 where "put kind_env sock route (ser body) w = (None, w1)" using kind_put by blast
  with Cons.IH [of w1] q show ?case by simp
qed simp

lemma kind_bring_up:
  assumes "valid_utf8 (vc_kernel_image_path cfg)" "valid_utf8 (vc_rootfs_path cfg)"
  shows "\<exists>w'. bring_up kind_env ser sock cfg w = (None, w')"
proof -
  have "wait_for_socket kind_env sock 5000000000 w = (None, exec kind_env (PathExists sock) w)"
    by (simp add: wait_for_socket_def socket_loop.simps perform_eq)
  moreover obtain w2 where "configure kind_env ser sock cfg (exec kind_env (PathExists sock) w) = (None, w2)"
    using kind_put_all [of ser sock "config_puts cfg" "exec kind_env (PathExists sock) w"] assms
    by (auto simp: configure_def)
  moreover obtain w3 where "put kind_env sock ''/actions'' (ser start_json) w2 = (None, w3)"
    using kind_put by blast
  ultimately show ?thesis by (simp add: bring_up_def)
qed

lemma kind_console: "\<exists>w'. open_console kind_env console w = (None, w')"
  by (cases console) (simp_all add: open_console_def perform_eq)

lemma kind_vm_boot:
  assumes "p = read_flags args fc_defaults" "op_kernel p \<noteq> []" "op_rootfs p \<noteq> []"
    and u: "valid_utf8 (op_kernel p)" "valid_utf8 (op_rootfs p)"
  shows "fst (vm_boot kind_env ser args w) = None"
proof -
  have c: "vc_kernel_image_path (opts_config p) = op_kernel p" "vc_rootfs_path (opts_config p) = op_rootfs p"
    by (simp_all add: opts_config_def VmConfig_new_def Let_def)
  have "\<exists>w'. boot kind_env ser (op_fc_bin p) (op_sock p) (opts_config p) w = (Inr (r_pid kind_reply), w')"
  proof -
    obtain w1 where "open_console kind_env (vc_console_log (opts_config p)) (exec kind_env (RemoveFile (op_sock p)) w) = (None, w1)"
      using kind_console by blast
    moreover obtain w2 where "bring_up kind_env ser (op_sock p) (opts_config p)
        (exec kind_env (Spawn (vmm_command (op_fc_bin p) (op_sock p))) w1) = (None, w2)"
      using kind_bring_up [of "opts_config p"] u c by metis
    ultimately show ?thesis by (simp add: boot_def perform_eq Let_def)
  qed
  then obtain w' where "boot kind_env ser (op_fc_bin p) (op_sock p) (opts_config p) w = (Inr (r_pid kind_reply), w')" ..
  then show ?thesis
    unfolding vm_boot_def Let_def assms(1) [symmetric] using assms(2,3)
    by (simp add: stay_def perform_eq)
qed

definition demo_exec :: exec_cfg where
  "demo_exec = fst (NewExec ''fc-driver'' ''firecracker'' ''/vmlinux'' ''/rootfs.ext4'' ''dev'')"

theorem guest_configured_as_specified_witness:
  "fst (fc_main kind_env json_enc (tl (vm_command demo_exec demo_spec)) boot_os) = 0 \<and>
   length (sent (trace (snd (fc_main kind_env json_enc (tl (vm_command demo_exec demo_spec)) boot_os)))) = 5"
proof -
  define args where "args = drop 2 (vm_command demo_exec demo_spec)"
  have e: "KernelPath demo_exec = ''/vmlinux''" "boot_rootfs demo_exec demo_spec = ''/rootfs.ext4''"
    by (simp_all add: demo_exec_def NewExec_def boot_rootfs_def demo_spec_def)
  then have ne: "KernelPath demo_exec \<noteq> []" "boot_rootfs demo_exec demo_spec \<noteq> []"
    "valid_utf8 (KernelPath demo_exec)" "valid_utf8 (boot_rootfs demo_exec demo_spec)"
    by (simp_all add: valid_utf8_ascii)
  have a: "tl (vm_command demo_exec demo_spec) = ''vm-boot'' # args"
    by (simp add: vm_command_def args_def)
  have u: "list_all valid_utf8 (''vm-boot'' # args)"
    unfolding a [symmetric]
    by (simp add: vm_command_def demo_exec_def NewExec_def demo_spec_def boot_rootfs_def boot_args_def sock_path_def
        valid_utf8_ascii)
  obtain res w' where m: "vm_boot kind_env json_enc args boot_os = (res, w')"
    by (cases "vm_boot kind_env json_enc args boot_os")
  have "res = None"
    using kind_vm_boot [OF read_vm_command [symmetric], of demo_exec demo_spec json_enc boot_os] ne m
    by (simp add: args_def runner_opts_def)
  with m u have f: "fc_main kind_env json_enc (''vm-boot'' # args) boot_os = (0, w')"
    by (simp add: fc_main_def)
  obtain j k xs where x: "j = 5" "j \<le> k" "sent (trace w') = sent (trace boot_os) @ take k xs" "length xs = 5"
    using guest_configured_as_specified [OF ne(1,2), unfolded a, OF u f]
    by (elim exE conjE) (rule that, simp, assumption+, simp)
  then have "length (sent (trace w')) = 5" by (simp add: boot_os_def)
  with f a show ?thesis by simp
qed

end
