(* ===== verification/Guest.thy ===== *)
theory Guest
  imports Interleaving Fc_Driver
begin

text \<open>
  From a deploy to the guest: the command line with which the orchestrator's runner starts
  \<^verbatim>\<open>fc-driver\<close> (\<^verbatim>\<open>internal/runner/exec.go\<close>) carries the network identity that the orchestrator
  returns and routes, and \<^verbatim>\<open>fc-driver\<close> (\<^verbatim>\<open>crates/fc-driver\<close>) configures the guest with exactly it.
\<close>

lemma trace_waitHTTP: "waitHTTP env addr dur w = (r, w') \<Longrightarrow> set (trace w) \<subseteq> set (trace w')"
  by (drule quiet_waitHTTP) (auto simp: quiet_def)

lemma Boot_starts:
  assumes "Boot env e spec h = (None, h')"
  shows "Start (vm_command e spec) \<in> set (trace (world h'))"
proof -
  obtain err w where st: "setup_tap env e spec (world h) = (err, w)" by (cases "setup_tap env e spec (world h)")
  let ?c = "Start (vm_command e spec)" and ?w2 = "fresh_files env (bs_TapDev spec) w"
  obtain werr w4 where wt: "waitHTTP env (bs_GuestIP spec @ '':80'') 30000000000 (exec env ?c ?w2) = (werr, w4)"
    by (cases "waitHTTP env (bs_GuestIP spec @ '':80'') 30000000000 (exec env ?c ?w2)")
  have "world h' = w4"
    using assms st wt Stop_result
    by (auto simp: Boot_def perform_eq Let_def split: option.splits)
  with trace_waitHTTP [OF wt] show ?thesis by simp
qed

text \<open>
  C5. The guest behind a live deploy. When \<^verbatim>\<open>Deploy\<close> succeeds, the runner has started \<^verbatim>\<open>fc-driver\<close>
  with arguments on which, whatever the operating system does, an exit with code 0 means that
  Firecracker was told, in this order: the kernel with the very guest address the deploy returned
  and routed in its boot arguments, the root file system built for the request (or the default one),
  the TAP device of the result with the MAC address leased with it, and then to start the guest.
\<close>

theorem live_deploy_configures_guest:
  assumes "Deploy (real_orc env path cfg be tr base domain) req a st = (Inr res, a', st')"
  shows "\<exists>args l rp s1. Start (FcDriverBin cfg # args) \<in> set (trace (world (fst st'))) \<and>
    Allocate a = (Inr l, a') \<and> dp_GuestIP res = l_GuestIP l \<and> dp_TapDev res = l_TapDev l \<and>
    build_rootfs (real_orc env path cfg be tr base domain) req st = (Inr rp, s1) \<and>
    (\<forall>env' ser w w'. fc_main env' ser args w = (0, w') \<longrightarrow>
       sent (trace w') = sent (trace w) @ map (\<lambda>(route, body). build_put_request route (ser body))
      [(''/boot-source'', JObj [(''kernel_image_path'', JStr (KernelPath cfg)),
          (''boot_args'', JStr (''console=ttyS0 reboot=k panic=1 pci=off ip='' @ dp_GuestIP res @
             ''::'' @ HostIP a' @ '':255.255.255.0::eth0:off init=/init''))]),
       (''/drives/rootfs'', JObj [(''drive_id'', JStr ''rootfs''),
          (''path_on_host'', JStr (if rp \<noteq> [] then rp else x_RootfsPath cfg)),
          (''is_root_device'', JBool True), (''is_read_only'', JBool False)]),
       (''/machine-config'', JObj [(''vcpu_count'', JInt 1), (''mem_size_mib'', JInt 256)]),
       (''/network-interfaces/eth0'', JObj [(''iface_id'', JStr ''eth0''),
          (''host_dev_name'', JStr (dp_TapDev res)), (''guest_mac'', JStr (l_GuestMAC l))]),
       (''/actions'', JObj [(''action_type'', JStr ''InstanceStart'')])])"
proof -
  let ?orc = "real_orc env path cfg be tr base domain"
  obtain rp s1 l s2 where d: "build_rootfs ?orc req st = (Inr rp, s1)" "Allocate a = (Inr l, a')"
    "o_boot ?orc (boot_spec l (HostIP a') (dr_Image req) rp) s1 = (None, s2)"
    "o_register ?orc (route_host ?orc req) [lease_addr l] s2 = (None, st')" "res = live_result ?orc req l"
    using assms by (cases rule: Deploy_cases) auto
  let ?spec = "boot_spec l (HostIP a') (dr_Image req) rp"
  have "Boot env cfg ?spec (fst s1) = (None, fst s2)" "fst st' = fst s2"
    using d(3,4) by (auto simp: real_orc_def NewOrchestrator_def WithBuilder_def site_boot_def site_register_def
        split: prod.splits)
  with Boot_starts have s: "Start (vm_command cfg ?spec) \<in> set (trace (world (fst st')))" by metis
  have c: "vm_command cfg ?spec = FcDriverBin cfg # tl (vm_command cfg ?spec)" by (simp add: vm_command_def)
  have f: "bs_TapDev ?spec = dp_TapDev res" "boot_rootfs cfg ?spec = (if rp \<noteq> [] then rp else x_RootfsPath cfg)"
    "bs_GuestMAC ?spec = l_GuestMAC l"
    "boot_args ?spec = ''console=ttyS0 reboot=k panic=1 pci=off ip='' @ dp_GuestIP res @
       ''::'' @ HostIP a' @ '':255.255.255.0::eth0:off init=/init''"
    by (simp_all add: boot_spec_def d(5) live_result_def boot_rootfs_def boot_args_def)
  note run = fc_main_success [of _ _ cfg ?spec, unfolded spec_requests_eq f]
  have r: "dp_GuestIP res = l_GuestIP l" "dp_TapDev res = l_TapDev l"
    by (simp_all add: d(5) live_result_def)
  show ?thesis
    by (intro exI [of _ "tl (vm_command cfg ?spec)"] exI [of _ l] exI [of _ rp] exI [of _ s1] conjI allI impI)
      (use s c d(1,2) r run in \<open>simp_all only:\<close>)
qed

theorem live_deploy_configures_guest_witness:
  "\<exists>a' st' args. Deploy (demo_orc calm) web_req New (demo_host, []) =
      (Inr \<lparr>dp_Host = ''web.local'', dp_URL = ''http://web.local'', dp_GuestIP = ''172.16.0.2'',
        dp_TapDev = ''fctap2''\<rparr>, a', st') \<and>
     Start (FcDriverBin demo_cfg # args) \<in> set (trace (world (fst st')))"
proof -
  obtain a' st' where d: "Deploy (demo_orc calm) web_req New (demo_host, []) =
      (Inr \<lparr>dp_Host = ''web.local'', dp_URL = ''http://web.local'', dp_GuestIP = ''172.16.0.2'',
        dp_TapDev = ''fctap2''\<rparr>, a', st')"
    using demo_Deploy by blast
  from live_deploy_configures_guest [OF d [unfolded demo_orc_def]]
  obtain args where "Start (FcDriverBin demo_cfg # args) \<in> set (trace (world (fst st')))" by (elim exE conjE)
  with d show ?thesis by blast
qed

end
