(* ===== verification/Rootfs_Build.thy ===== *)
theory Rootfs_Build
  imports Buildrunner Json_Codec
begin

text \<open>
  The builder, \<^verbatim>\<open>services/builder/internal/build/build.go\<close> and \<^verbatim>\<open>cmd/builder/main.go\<close>: build a
  project with Docker, export its file system, write an init script that runs the image's command,
  and make an ext4 image of it. The theorems: a POSIX shell reads from the init script exactly the
  commands the image asks for, whatever characters they contain; the container and the temporary
  directory are removed on every path; and the size of the image is computed from the output of
  \<^verbatim>\<open>du\<close> in 64-bit arithmetic.
\<close>

section \<open>The image configuration\<close>

record image_config =
  ic_Entrypoint :: "string list"
  ic_Cmd :: "string list"
  ic_Env :: "string list"
  ic_WorkingDir :: string

text \<open>
  Decoding into a string slice: an array of strings is stored, a \<^verbatim>\<open>null\<close> element being the empty
  string; \<^verbatim>\<open>null\<close> clears the slice; anything else is a type error.
\<close>

fun elem_str :: "json \<Rightarrow> string \<times> bool" where
  "elem_str (JStr s) = (s, False)"
| "elem_str JNull = ([], False)"
| "elem_str _ = ([], True)"

fun set_strs :: "json \<Rightarrow> string list \<times> bool \<Rightarrow> string list \<times> bool" where
  "set_strs (JArr vs) (_, e) = (map (fst \<circ> elem_str) vs, e \<or> list_ex (snd \<circ> elem_str) vs)"
| "set_strs JNull (_, e) = ([], e)"
| "set_strs _ (v, e) = (v, True)"

definition strs_field :: "string list \<Rightarrow> string \<Rightarrow> (string \<times> json) list \<Rightarrow> string list \<times> bool" where
  "strs_field names f ms =
     foldl (\<lambda>a (k, v). if key_matches names f k then set_strs v a else a) ([], False) ms"

definition decode_config :: "string \<Rightarrow> image_config option" where
  "decode_config s =
     (case json_unmarshal s of
        Some (JObj ms) \<Rightarrow>
          (let names = [''Entrypoint'', ''Cmd'', ''Env'', ''WorkingDir''];
               (ep, e1) = strs_field names ''Entrypoint'' ms;
               (cmd, e2) = strs_field names ''Cmd'' ms;
               (envs, e3) = strs_field names ''Env'' ms;
               (wd, e4) = str_field names ''WorkingDir'' ms
           in if e1 \<or> e2 \<or> e3 \<or> e4 then None
              else Some \<lparr>ic_Entrypoint = ep, ic_Cmd = cmd, ic_Env = envs, ic_WorkingDir = wd\<rparr>)
      | Some JNull \<Rightarrow> Some \<lparr>ic_Entrypoint = [], ic_Cmd = [], ic_Env = [], ic_WorkingDir = []\<rparr>
      | _ \<Rightarrow> None)"

section \<open>The init script\<close>

abbreviation squote :: char where "squote \<equiv> CHR 0x27"
abbreviation lf :: char where "lf \<equiv> CHR 0x0A"

definition shQuote :: "string \<Rightarrow> string" where
  "shQuote s = [squote] @ ReplaceAll s squote [squote, bslash, squote, squote] @ [squote]"

definition init_argv :: "image_config \<Rightarrow> string list" where
  "init_argv cfg =
     (let argv = ic_Entrypoint cfg @ ic_Cmd cfg in if argv = [] then [''/bin/sh''] else argv)"

definition buildInitScript :: "image_config \<Rightarrow> string" where
  "buildInitScript cfg =
     ''#!/bin/sh'' @ [lf] @
     (if ic_WorkingDir cfg \<noteq> [] then ''cd '' @ shQuote (ic_WorkingDir cfg) @ [lf] else []) @
     concat (map (\<lambda>e. ''export '' @ shQuote e @ [lf]) (ic_Env cfg)) @
     ''exec '' @ Join (map shQuote (init_argv cfg)) '' '' @ [lf]"

section \<open>Building\<close>

record build_result =
  br_ImageRef :: string
  br_RootfsPath :: string

text \<open>\<^verbatim>\<open>run\<close> reports the combined output on failure, \<^verbatim>\<open>output\<close> only the error.\<close>

definition run_cmd :: "env \<Rightarrow> string list \<Rightarrow> os \<Rightarrow> string option \<times> os" where
  "run_cmd env argv w =
     (let (r, w') = perform env (Run argv) w in
      (map_option (\<lambda>e. hd argv @ '' '' @ Join (tl argv) '' '' @ '': '' @ e @ '': '' @ r_out r) (r_err r), w'))"

definition cmd_output :: "env \<Rightarrow> string list \<Rightarrow> os \<Rightarrow> (string, string) result \<times> os" where
  "cmd_output env argv w =
     (let (r, w') = perform env (Run argv) w in
      (case r_err r of Some e \<Rightarrow> Inl e | None \<Rightarrow> Inr (r_out r), w'))"

text \<open>The detail of a JSON error is not part of the text here.\<close>

definition inspectConfig :: "env \<Rightarrow> string \<Rightarrow> os \<Rightarrow> (string, image_config) result \<times> os" where
  "inspectConfig env tag w =
     (case cmd_output env [''docker'', ''inspect'', ''--format'', ''{{json .Config}}'', tag] w of
        (Inl e, w') \<Rightarrow> (Inl (''docker inspect: '' @ e), w')
      | (Inr txt, w') \<Rightarrow>
          (case decode_config txt of
             None \<Rightarrow> (Inl ''parse image config'', w')
           | Some cfg \<Rightarrow> (Inr cfg, w')))"

text \<open>\<^verbatim>\<open>docker export\<close> piped into \<^verbatim>\<open>tar\<close>: start the reader, run the writer, wait for the reader.\<close>

definition exportFS :: "env \<Rightarrow> string \<Rightarrow> string \<Rightarrow> os \<Rightarrow> string option \<times> os" where
  "exportFS env cid dir w =
     (let (r1, w1) = perform env (Start [''tar'', ''-x'', ''-C'', dir]) w in
      if r_err r1 \<noteq> None then (r_err r1, w1)
      else (let (r2, w2) = perform env (Run [''docker'', ''export'', cid]) w1 in
            if r_err r2 \<noteq> None then (r_err r2, w2)
            else (let (r3, w3) = perform env (WaitFor (r_pid r1)) w2 in (r_err r3, w3))))"

definition parseLeadingInt :: "string \<Rightarrow> int option" where
  "parseLeadingInt str =
     (let ds = takeWhile is_digit (TrimSpace str) in
      if ds = [] then None
      else Some (foldl (\<lambda>n c. wrap64 (n * 10 + int (digit_val c))) 0 ds))"

definition sizeFor :: "env \<Rightarrow> string \<Rightarrow> os \<Rightarrow> string \<times> os" where
  "sizeFor env dir w =
     (let (r, w') = cmd_output env [''du'', ''-sm'', dir] w;
          mib = (case r of
                   Inr txt \<Rightarrow> (case parseLeadingInt txt of Some n \<Rightarrow> wrap64 (n + 64) | None \<Rightarrow> 64)
                 | Inl _ \<Rightarrow> 64)
      in (itoa mib @ ''M'', w'))"

text \<open>The part of \<^verbatim>\<open>BuildRootfs\<close> between making the temporary directory and removing it.\<close>

definition fill_rootfs ::
  "env \<Rightarrow> image_config \<Rightarrow> string \<Rightarrow> string \<Rightarrow> string \<Rightarrow> string \<Rightarrow> os \<Rightarrow>
   (string, build_result) result \<times> os" where
  "fill_rootfs env cfg cid rootDir tag outExt4 w =
     (case exportFS env cid rootDir w of
        (Some e, w1) \<Rightarrow> (Inl (''export rootfs: '' @ e), w1)
      | (None, w1) \<Rightarrow>
          (let (r, w2) = perform env (WriteFile (JoinPath [rootDir, ''init'']) (buildInitScript cfg)) w1 in
           case r_err r of
             Some e \<Rightarrow> (Inl (''write init: '' @ e), w2)
           | None \<Rightarrow>
               (let (size, w3) = sizeFor env rootDir w2 in
                case run_cmd env [''mkfs.ext4'', ''-q'', ''-F'', ''-L'', ''rootfs'', ''-d'', rootDir,
                                  outExt4, size] w3 of
                  (Some e, w4) \<Rightarrow> (Inl (''mkfs.ext4: '' @ e), w4)
                | (None, w4) \<Rightarrow> (Inr \<lparr>br_ImageRef = tag, br_RootfsPath = outExt4\<rparr>, w4))))"

text \<open>The deferred calls run in reverse: the directory is removed, then the container.\<close>

definition BuildRootfs ::
  "env \<Rightarrow> string \<Rightarrow> string \<Rightarrow> string \<Rightarrow> os \<Rightarrow> (string, build_result) result \<times> os" where
  "BuildRootfs env projectDir tag outExt4 w =
     (case run_cmd env [''docker'', ''build'', ''-t'', tag, projectDir] w of
        (Some e, w1) \<Rightarrow> (Inl (''docker build: '' @ e), w1)
      | (None, w1) \<Rightarrow>
          (case inspectConfig env tag w1 of
             (Inl e, w2) \<Rightarrow> (Inl e, w2)
           | (Inr cfg, w2) \<Rightarrow>
               (case cmd_output env [''docker'', ''create'', tag] w2 of
                  (Inl e, w3) \<Rightarrow> (Inl (''docker create: '' @ e), w3)
                | (Inr txt, w3) \<Rightarrow>
                    (let cid = TrimSpace txt;
                         (res, w7) =
                           (let (r, w4) = perform env (MkdirTemp [] ''antariksh-rootfs-'') w3 in
                            case r_err r of
                              Some e \<Rightarrow> (Inl e, w4)
                            | None \<Rightarrow>
                                (let rootDir = r_out r;
                                     (res, w5) = fill_rootfs env cfg cid rootDir tag outExt4 w4
                                 in (res, exec env (RemoveAll rootDir) w5)))
                     in (res, exec env (Run [''docker'', ''rm'', ''-f'', cid]) w7)))))"

text \<open>The command line, \<^verbatim>\<open>builder build <projectDir> <out.ext4> [tag]\<close>.\<close>

definition runBuild :: "env \<Rightarrow> string list \<Rightarrow> os \<Rightarrow> (string, build_result) result \<times> os" where
  "runBuild env args w =
     (if length args < 2 then (Inl ''usage: builder build <projectDir> <out.ext4> [tag]'', w)
      else BuildRootfs env (args ! 0) (if length args > 2 then args ! 2 else ''antariksh/app:latest'')
             (args ! 1) w)"

section \<open>How a shell reads a script\<close>

text \<open>
  The part of the POSIX shell's grammar that the script uses: words made of plain characters,
  single-quoted text and backslash-escaped characters, separated by spaces; commands separated by
  line breaks; comments. A character with any other meaning to the shell, outside quotes, is
  refused, so a script this reader accepts is one in which nothing is expanded.
\<close>

definition sh_special :: "char list" where
  "sh_special = ''|&;<>()$*?[]~{}!'' @ [CHR 0x22, CHR 0x60, CHR 0x09, CHR 0x0D]"

definition emit :: "string option \<Rightarrow> string list \<Rightarrow> string list list" where
  "emit w ws = (let c = ws @ (case w of None \<Rightarrow> [] | Some x \<Rightarrow> [x]) in if c = [] then [] else [c])"

definition word :: "string option \<Rightarrow> string" where
  "word w = (case w of None \<Rightarrow> [] | Some x \<Rightarrow> x)"

fun sh_plain :: "string option \<Rightarrow> string list \<Rightarrow> string \<Rightarrow> string list list option"
  and sh_quoted :: "string \<Rightarrow> string list \<Rightarrow> string \<Rightarrow> string list list option"
  and sh_escaped :: "string option \<Rightarrow> string list \<Rightarrow> string \<Rightarrow> string list list option"
  and sh_comment :: "string \<Rightarrow> string list list option"
where
  "sh_plain w ws [] = Some (emit w ws)"
| "sh_plain w ws (c # s) =
     (if c = lf then map_option ((@) (emit w ws)) (sh_plain None [] s)
      else if c = CHR '' '' then
        sh_plain None (case w of None \<Rightarrow> ws | Some x \<Rightarrow> ws @ [x]) s
      else if c = squote then sh_quoted (word w) ws s
      else if c = bslash then sh_escaped w ws s
      else if c = CHR ''#'' \<and> w = None then map_option ((@) (emit w ws)) (sh_comment s)
      else if c \<in> set sh_special then None
      else sh_plain (Some (word w @ [c])) ws s)"
| "sh_quoted x ws [] = None"
| "sh_quoted x ws (c # s) =
     (if c = squote then sh_plain (Some x) ws s else sh_quoted (x @ [c]) ws s)"
| "sh_escaped w ws [] = None"
| "sh_escaped w ws (c # s) =
     (if c = lf then sh_plain w ws s else sh_plain (Some (word w @ [c])) ws s)"
| "sh_comment [] = Some []"
| "sh_comment (c # s) = (if c = lf then sh_plain None [] s else sh_comment s)"

definition sh_commands :: "string \<Rightarrow> string list list option" where
  "sh_commands s = sh_plain None [] s"

lemma sh_quoted_shQuote:
  "sh_quoted x ws (ReplaceAll s squote [squote, bslash, squote, squote] @ squote # r) =
     sh_plain (Some (x @ s)) ws r"
  by (induction s arbitrary: x) (auto simp: word_def)

lemma sh_plain_shQuote: "sh_plain w ws (shQuote s @ r) = sh_plain (Some (word w @ s)) ws r"
  by (simp add: shQuote_def sh_quoted_shQuote)

lemma append_single: "(@) [x] = (#) x"
  by (rule ext) simp

lemma sh_plain_argv:
  "argv \<noteq> [] \<Longrightarrow> sh_plain None ws (Join (map shQuote argv) '' '' @ lf # r) =
     map_option ((#) (ws @ argv)) (sh_plain None [] r)"
proof (induction argv arbitrary: ws)
  case (Cons a argv)
  show ?case
  proof (cases "argv = []")
    case True
    then show ?thesis by (simp add: sh_plain_shQuote emit_def word_def append_single)
  next
    case False
    then have "Join (map shQuote (a # argv)) '' '' = shQuote a @ CHR '' '' # Join (map shQuote argv) '' ''"
      by (simp add: Join_Cons)
    with False Cons.IH [of "ws @ [a]"] show ?thesis by (simp add: sh_plain_shQuote word_def)
  qed
qed simp

lemma sh_plain_exports:
  "sh_plain None [] (concat (map (\<lambda>e. ''export '' @ shQuote e @ [lf]) es) @ r) =
     map_option ((@) (map (\<lambda>e. [''export'', e]) es)) (sh_plain None [] r)"
proof (induction es)
  case Nil
  show ?case by (simp add: option.map_ident)
next
  case (Cons e es)
  then show ?case
    by (simp add: sh_plain_shQuote word_def emit_def sh_special_def option.map_comp comp_def)
qed

lemma sh_shebang: "sh_plain None [] (''#!/bin/sh'' @ lf # r) = sh_plain None [] r"
  by (cases "sh_plain None [] r") (simp_all add: emit_def)

section \<open>Numbers\<close>

lemma fold_wrap:
  "foldl (\<lambda>n c. wrap64 (n * 10 + int (digit_val c))) (wrap64 a) ds =
     wrap64 (foldl (\<lambda>n c. n * 10 + int (digit_val c)) a ds)"
proof (induction ds arbitrary: a)
  case (Cons d ds)
  have "wrap64 (wrap64 a * 10 + int (digit_val d)) = wrap64 (a * 10 + int (digit_val d))"
    by (rule wrap64_cong) (metis mod_add_left_eq mod_mult_left_eq wrap64_mod_eq)
  then show ?case using Cons.IH [of "a * 10 + int (digit_val d)"] by simp
qed simp

lemma fold_dec_val:
  "foldl (\<lambda>n c. n * 10 + int (digit_val c)) (int a) ds = int (foldl (\<lambda>n c. 10 * n + digit_val c) a ds)"
proof (induction ds arbitrary: a)
  case (Cons d ds)
  show ?case using Cons.IH [of "10 * a + digit_val d"] by (simp add: mult.commute)
qed simp

lemma parseLeadingInt_digits:
  assumes "takeWhile is_digit (TrimSpace s) = ds" "ds \<noteq> []"
  shows "parseLeadingInt s = Some (wrap64 (int (dec_val ds)))"
  using assms fold_wrap [of 0 ds] fold_dec_val [of 0 ds]
  by (simp add: parseLeadingInt_def dec_val_def wrap64_id int64_def)

lemma space_seqs_not_plain: "p \<in> set space_seqs \<Longrightarrow> c \<in> set p \<Longrightarrow> \<not> plain_char c"
  by (auto simp: space_seqs_def plain_char_def)

lemma TrimRightSpace_keeps:
  "list_all plain_char xs \<Longrightarrow> \<exists>t'. TrimRightSpace (xs @ t) = xs @ t' \<and> prefix t' t"
proof (induction "xs @ t" arbitrary: t rule: TrimRightSpace.induct)
  case 1
  show ?case
  proof (cases "trailing_space (xs @ t)")
    case None
    then show ?thesis by (auto simp: TrimRightSpace.simps [of "xs @ t"])
  next
    case (Some p)
    then have p: "p \<noteq> []" "suffix p (xs @ t)" "p \<in> set space_seqs"
      using trailing_space_SomeD [OF Some]
      by (auto simp: HasSuffix_suffix trailing_space_def find_Some_iff)
    have "length p \<le> length t"
    proof (rule ccontr)
      assume "\<not> length p \<le> length t"
      with p(2) obtain u where u: "p = u @ t" "suffix u xs" "u \<noteq> []"
        by (metis append_Nil le_refl suffix_append suffix_length_le)
      then have "hd u \<in> set xs" by (metis hd_in_set set_mono_suffix subsetD)
      with 1(2) u(1,3) p(3) space_seqs_not_plain [of p "hd u"] show False
        by (auto simp: list_all_iff)
    qed
    then have "take (length (xs @ t) - length p) (xs @ t) = xs @ take (length t - length p) t" by simp
    with 1 Some show ?thesis
      using 1(1) [OF Some] by (simp add: TrimRightSpace.simps [of "xs @ t"]) (metis prefix_order.trans take_is_prefix)
  qed
qed

lemma TrimSpace_leading_digits:
  "\<exists>t'. TrimSpace (dec n @ t) = dec n @ t' \<and> prefix t' t"
proof -
  have "plain_char (hd (dec n))" using dec_hd_digit by (rule is_digit_plain)
  then have "TrimLeftSpace (dec n @ t) = dec n @ t" by (intro TrimLeftSpace_plain) simp
  then show ?thesis using TrimRightSpace_keeps [OF dec_plain, of n t] by (simp add: TrimSpace_def)
qed

lemma parseLeadingInt_dec:
  assumes "t = [] \<or> \<not> is_digit (hd t)"
  shows "parseLeadingInt (dec n @ t) = Some (wrap64 (int n))"
proof -
  obtain t' where t': "TrimSpace (dec n @ t) = dec n @ t'" "prefix t' t"
    using TrimSpace_leading_digits by blast
  then have "t' = [] \<or> \<not> is_digit (hd t')" using assms by (cases t'; cases t) auto
  then have "takeWhile is_digit (dec n @ t') = dec n"
    using dec_digits [of n] by (cases t') (auto simp: list_all_iff takeWhile_append)
  with t'(1) show ?thesis using parseLeadingInt_digits [of "dec n @ t" "dec n"] by simp
qed

section \<open>Properties\<close>

text \<open>
  C24. The init script runs the image's command and nothing else: reading it as a POSIX shell
  does, the commands are a change to the working directory if there is one, one export for each
  variable, and an exec of the entrypoint and command word for word, whatever bytes (quotes,
  line breaks, dollar signs, semicolons) these contain; nothing in it is subject to expansion.
\<close>

theorem init_script_commands:
  "sh_commands (buildInitScript cfg) =
     Some ((if ic_WorkingDir cfg \<noteq> [] then [[''cd'', ic_WorkingDir cfg]] else []) @
           map (\<lambda>e. [''export'', e]) (ic_Env cfg) @
           [''exec'' # init_argv cfg])"
proof -
  let ?ex = "''exec '' @ Join (map shQuote (init_argv cfg)) '' '' @ [lf]"
  let ?en = "concat (map (\<lambda>e. ''export '' @ shQuote e @ [lf]) (ic_Env cfg)) @ ?ex"
  have "init_argv cfg \<noteq> []" by (simp add: init_argv_def Let_def)
  then have ex: "sh_plain None [] ?ex = Some [''exec'' # init_argv cfg]"
    using sh_plain_argv [of "init_argv cfg" "[''exec'']" "[]"]
    by (simp add: word_def sh_special_def emit_def)
  have en: "sh_plain None [] ?en =
      Some (map (\<lambda>e. [''export'', e]) (ic_Env cfg) @ [''exec'' # init_argv cfg])"
    unfolding sh_plain_exports ex by simp
  have cd: "sh_plain None [] (''cd '' @ shQuote d @ lf # r) = map_option ((#) [''cd'', d]) (sh_plain None [] r)" for d r
    by (simp add: sh_plain_shQuote word_def sh_special_def emit_def append_single)
  have "sh_commands (buildInitScript cfg) =
      sh_plain None [] ((if ic_WorkingDir cfg \<noteq> [] then ''cd '' @ shQuote (ic_WorkingDir cfg) @ [lf] else []) @ ?en)"
    unfolding sh_commands_def buildInitScript_def using sh_shebang by simp
  then show ?thesis using cd [of "ic_WorkingDir cfg" ?en] en by simp
qed

text \<open>
  C39. A build leaves nothing behind: once the container has been created, the last thing
  \<^verbatim>\<open>BuildRootfs\<close> does, on every path, is to remove it, and if the temporary directory was made it
  is removed just before.
\<close>

theorem BuildRootfs_cleans_up:
  assumes b: "BuildRootfs env projectDir tag outExt4 w = (res, w')"
    and "run_cmd env [''docker'', ''build'', ''-t'', tag, projectDir] w = (None, w1)"
    and "inspectConfig env tag w1 = (Inr cfg, w2)"
    and "cmd_output env [''docker'', ''create'', tag] w2 = (Inr cid, w3)"
    and t: "perform env (MkdirTemp [] ''antariksh-rootfs-'') w3 = (rt, w4)"
  shows "last (trace w') = Run [''docker'', ''rm'', ''-f'', TrimSpace cid] \<and>
    (r_err rt = None \<longrightarrow> last (butlast (trace w')) = RemoveAll (r_out rt)) \<and>
    (\<forall>r. res = Inr r \<longrightarrow> r = \<lparr>br_ImageRef = tag, br_RootfsPath = outExt4\<rparr>)"
proof (cases "r_err rt")
  case (Some e)
  with assms show ?thesis by (auto simp: BuildRootfs_def)
next
  case None
  obtain fr w5 where f: "fill_rootfs env cfg (TrimSpace cid) (r_out rt) tag outExt4 w4 = (fr, w5)"
    by (cases "fill_rootfs env cfg (TrimSpace cid) (r_out rt) tag outExt4 w4")
  have "r = \<lparr>br_ImageRef = tag, br_RootfsPath = outExt4\<rparr>" if "fr = Inr r" for r
    using f that by (auto simp: fill_rootfs_def Let_def split: prod.splits option.splits)
  with None assms f show ?thesis by (auto simp: BuildRootfs_def butlast_append)
qed

definition docker_env :: env where
  "docker_env h c = ok_reply\<lparr>r_out := ''{}''\<rparr>"

lemma docker_config: "decode_config ''{}'' =
    Some \<lparr>ic_Entrypoint = [], ic_Cmd = [], ic_Env = [], ic_WorkingDir = []\<rparr>"
proof -
  have "json_unmarshal (json_enc (JObj [])) = Some (JObj [])" by (rule json_unmarshal_enc) simp_all
  then show ?thesis by (simp add: decode_config_def strs_field_def str_field_def)
qed

theorem BuildRootfs_cleans_up_witness:
  "\<exists>res w'. BuildRootfs docker_env ''/src'' ''t'' ''/out'' boot_os = (res, w') \<and>
     last (trace w') = Run [''docker'', ''rm'', ''-f'', ''{}''] \<and>
     last (butlast (trace w')) = RemoveAll ''{}''"
proof -
  obtain res w' where b: "BuildRootfs docker_env ''/src'' ''t'' ''/out'' boot_os = (res, w')"
    by (cases "BuildRootfs docker_env ''/src'' ''t'' ''/out'' boot_os")
  have p: "perform docker_env c w = (ok_reply\<lparr>r_out := ''{}''\<rparr>, exec docker_env c w)" for c w
    by (simp add: perform_def exec_def docker_env_def Let_def)
  have run: "run_cmd docker_env argv w = (None, exec docker_env (Run argv) w)"
    "cmd_output docker_env argv w = (Inr ''{}'', exec docker_env (Run argv) w)" for argv w
    by (simp_all add: run_cmd_def cmd_output_def p ok_reply_def)
  have i: "inspectConfig docker_env ''t'' w =
      (Inr \<lparr>ic_Entrypoint = [], ic_Cmd = [], ic_Env = [], ic_WorkingDir = []\<rparr>,
       exec docker_env (Run [''docker'', ''inspect'', ''--format'', ''{{json .Config}}'', ''t'']) w)" for w
    by (simp add: inspectConfig_def run docker_config)
  have trim: "TrimSpace ''{}'' = ''{}''" by (rule TrimSpace_plain) (simp add: plain_char_def)
  from BuildRootfs_cleans_up [OF b run(1) i run(2) p] b show ?thesis
    by (simp add: ok_reply_def trim)
qed

text \<open>
  The image is sized from \<^verbatim>\<open>du\<close>: when \<^verbatim>\<open>du -sm\<close> prints a number of megabytes followed by
  anything that does not start with a digit, the size is that number plus 64, computed in 64-bit
  arithmetic and exact below 2^63 - 64; when \<^verbatim>\<open>du\<close> fails it is 64.
\<close>

theorem sizeFor_reads_du:
  assumes "perform env (Run [''du'', ''-sm'', dir]) w = (r, w')"
  shows "sizeFor env dir w =
    ((case r_err r of
        Some _ \<Rightarrow> ''64M''
      | None \<Rightarrow> (case parseLeadingInt (r_out r) of
                    Some n \<Rightarrow> itoa (wrap64 (n + 64)) @ ''M'' | None \<Rightarrow> ''64M'')), w') \<and>
    (\<forall>n t. r_err r = None \<longrightarrow> r_out r = dec n @ t \<longrightarrow> (t = [] \<or> \<not> is_digit (hd t)) \<longrightarrow>
       int n < 2 ^ 63 - 64 \<longrightarrow> fst (sizeFor env dir w) = dec (n + 64) @ ''M'')"
proof -
  have m: "itoa 64 = ''64''" by (simp add: itoa_def dec.simps digit_def)
  have s: "sizeFor env dir w =
    ((case r_err r of
        Some _ \<Rightarrow> ''64M''
      | None \<Rightarrow> (case parseLeadingInt (r_out r) of
                    Some n \<Rightarrow> itoa (wrap64 (n + 64)) @ ''M'' | None \<Rightarrow> ''64M'')), w')"
    using assms m by (auto simp: sizeFor_def cmd_output_def split: option.splits)
  have "itoa (wrap64 (wrap64 (int n) + 64)) = dec (n + 64)" if "int n < 2 ^ 63 - 64" for n
  proof -
    have "wrap64 (int n) = int n" "wrap64 (int n + 64) = int n + 64"
      using that by (auto intro!: wrap64_id simp: int64_def)
    then show ?thesis by (simp add: itoa_def nat_add_distrib)
  qed
  with s show ?thesis by (auto simp: parseLeadingInt_dec)
qed

definition du_env :: env where
  "du_env h c = ok_reply\<lparr>r_out := dec 120 @ [CHR 0x09] @ ''/tmp/x''\<rparr>"

theorem sizeFor_reads_du_witness:
  "fst (sizeFor du_env ''/tmp/x'' boot_os) = dec 184 @ ''M''"
proof -
  let ?c = "Run [''du'', ''-sm'', ''/tmp/x'']"
  have p: "perform du_env ?c boot_os = (ok_reply\<lparr>r_out := dec 120 @ [CHR 0x09] @ ''/tmp/x''\<rparr>, exec du_env ?c boot_os)"
    by (simp add: perform_def exec_def du_env_def Let_def)
  have "fst (sizeFor du_env ''/tmp/x'' boot_os) = dec (120 + 64) @ ''M''"
    by (rule sizeFor_reads_du [OF p, THEN conjunct2, rule_format, where t = "[CHR 0x09] @ ''/tmp/x''"])
      (simp_all add: ok_reply_def is_digit_def)
  then show ?thesis by simp
qed

end
