(* ===== verification/Builder_Main.thy ===== *)
theory Builder_Main
  imports Rootfs_Build
begin

text \<open>
  The builder's command, \<^verbatim>\<open>services/builder/cmd/builder/main.go\<close>, and its contract with the
  scheduler's build runner (\<^verbatim>\<open>services/scheduler/internal/buildrunner\<close>), which starts it: the
  command line that one writes is the build that the other does.
\<close>

definition built_line :: "build_result \<Rightarrow> string" where
  "built_line r = ''built '' @ br_ImageRef r @ '' '' @ arrow @ '' '' @ br_RootfsPath r @ [lf]"

text \<open>
  What the command prints and its exit code; \<open>None\<close> is the mode without arguments, which waits
  forever for a queue that is not implemented.
\<close>

definition builder_main :: "env \<Rightarrow> string list \<Rightarrow> os \<Rightarrow> (string \<times> nat) option \<times> os" where
  "builder_main env args w =
     (case args of
        a # rest \<Rightarrow>
          if a = ''build'' then
            (case runBuild env rest w of
               (Inl _, w') \<Rightarrow> (Some ([], 1), w')
             | (Inr r, w') \<Rightarrow> (Some (built_line r, 0), w'))
          else (None, w)
      | [] \<Rightarrow> (None, w))"

section \<open>What a build leaves\<close>

definition mkfs_call :: "string \<Rightarrow> string \<Rightarrow> string \<Rightarrow> os_call" where
  "mkfs_call dir img sz =
     Run [''mkfs.ext4'', ''-q'', ''-F'', ''-L'', ''rootfs'', ''-d'', dir, img, sz]"

lemma fill_rootfs_calls:
  assumes "fill_rootfs env cfg cid dir tag img w = (Inr r, w')"
  shows "r = \<lparr>br_ImageRef = tag, br_RootfsPath = img\<rparr> \<and>
    (\<exists>us sz. trace w' = us @ [WriteFile (JoinPath [dir, ''init'']) (buildInitScript cfg),
       Run [''du'', ''-sm'', dir], mkfs_call dir img sz])"
proof -
  obtain x w1 where e: "exportFS env cid dir w = (x, w1)" by (cases "exportFS env cid dir w")
  let ?wr = "WriteFile (JoinPath [dir, ''init'']) (buildInitScript cfg)"
  let ?w2 = "exec env ?wr w1"
  obtain sz w3 where s: "sizeFor env dir ?w2 = (sz, w3)" by (cases "sizeFor env dir ?w2")
  then have w3: "w3 = exec env (Run [''du'', ''-sm'', dir]) ?w2"
    by (auto simp: sizeFor_def cmd_output_def perform_eq Let_def)
  have "r = \<lparr>br_ImageRef = tag, br_RootfsPath = img\<rparr>" "w' = exec env (mkfs_call dir img sz) w3"
    using assms e s
    by (auto simp: fill_rootfs_def run_cmd_def perform_eq mkfs_call_def Let_def split: option.splits)
  then show ?thesis by (intro conjI exI [of _ "trace w1"] exI [of _ sz]) (simp_all add: w3)
qed

lemma BuildRootfs_calls:
  assumes "BuildRootfs env src tag img w = (Inr r, w')"
  shows "r = \<lparr>br_ImageRef = tag, br_RootfsPath = img\<rparr> \<and>
    (\<exists>us cfg dir sz cid. trace w' = us @ [WriteFile (JoinPath [dir, ''init'']) (buildInitScript cfg),
       Run [''du'', ''-sm'', dir], mkfs_call dir img sz, RemoveAll dir, Run [''docker'', ''rm'', ''-f'', cid]])"
proof -
  obtain cfg cid dir w4 w5 where f: "fill_rootfs env cfg cid dir tag img w4 = (Inr r, w5)"
    and w': "w' = exec env (Run [''docker'', ''rm'', ''-f'', cid]) (exec env (RemoveAll dir) w5)"
    using assms
    by (auto simp: BuildRootfs_def perform_eq Let_def split: prod.splits option.splits sum.splits)
  note c = fill_rootfs_calls [OF f]
  then obtain us sz where "trace w5 = us @ [WriteFile (JoinPath [dir, ''init'']) (buildInitScript cfg),
       Run [''du'', ''-sm'', dir], mkfs_call dir img sz]" by blast
  with c w' show ?thesis
    by (intro conjI exI [of _ us] exI [of _ cfg] exI [of _ dir] exI [of _ sz] exI [of _ cid]) simp_all
qed

section \<open>The command line between the two\<close>

lemma Build_runs_builder:
  assumes "Build env path e src tag w = (Inr img, w')"
  shows "last (trace w') = Run ((''PATH='' @ ensureSbin path) # be_Bin e # [''build'', src, img, tag])"
  using assms by (auto simp: Build_def perform_eq build_command_def Let_def split: option.splits)

lemma builder_main_builds:
  assumes m: "builder_main env [''build'', src, img, tag] w = (ans, w')"
  shows "\<exists>text code res. ans = Some (text, code) \<and> BuildRootfs env src tag img w = (res, w') \<and>
    (code = 0 \<longleftrightarrow> res = Inr \<lparr>br_ImageRef = tag, br_RootfsPath = img\<rparr>) \<and>
    (code = 0 \<longrightarrow> (\<exists>us cfg dir sz cid. trace w' = us @
       [WriteFile (JoinPath [dir, ''init'']) (buildInitScript cfg), Run [''du'', ''-sm'', dir],
        Run [''mkfs.ext4'', ''-q'', ''-F'', ''-L'', ''rootfs'', ''-d'', dir, img, sz],
        RemoveAll dir, Run [''docker'', ''rm'', ''-f'', cid]]))"
proof -
  obtain res w1 where b: "BuildRootfs env src tag img w = (res, w1)" by (cases "BuildRootfs env src tag img w")
  show ?thesis
  proof (cases res)
    case (Inl x)
    with m b have "ans = Some ([], 1)" "w' = w1" by (auto simp: builder_main_def runBuild_def)
    with b Inl show ?thesis by simp
  next
    case (Inr r)
    with m b have "ans = Some (built_line r, 0)" "w' = w1" by (auto simp: builder_main_def runBuild_def)
    with b Inr BuildRootfs_calls [OF b [unfolded Inr]] show ?thesis
      by (intro exI [of _ "built_line r"] exI [of _ 0] exI [of _ res]) (simp add: mkfs_call_def)
  qed
qed

section \<open>Properties\<close>

text \<open>
  C14. The scheduler's build runner and the builder agree on what is built. When \<^verbatim>\<open>Build\<close> returns an
  image, the last thing it did was to run the builder with arguments on which, whatever the builder's
  operating system does, the builder terminates, and exits with code 0 exactly when \<^verbatim>\<open>BuildRootfs\<close> has
  built the given source under the given tag into exactly the file that \<^verbatim>\<open>Build\<close> returned; and then
  that file was made from a directory whose \<^verbatim>\<open>init\<close> had just been written from an image configuration.
\<close>

theorem builder_builds_what_was_asked:
  assumes "Build env path e src tag w = (Inr img, w')"
  shows "\<exists>args. last (trace w') = Run ((''PATH='' @ ensureSbin path) # be_Bin e # args) \<and>
    (\<forall>env2 w2 ans w2'. builder_main env2 args w2 = (ans, w2') \<longrightarrow>
       (\<exists>text code res. ans = Some (text, code) \<and> BuildRootfs env2 src tag img w2 = (res, w2') \<and>
          (code = 0 \<longleftrightarrow> res = Inr \<lparr>br_ImageRef = tag, br_RootfsPath = img\<rparr>) \<and>
          (code = 0 \<longrightarrow> (\<exists>us cfg dir sz cid. trace w2' = us @
             [WriteFile (JoinPath [dir, ''init'']) (buildInitScript cfg), Run [''du'', ''-sm'', dir],
              Run [''mkfs.ext4'', ''-q'', ''-F'', ''-L'', ''rootfs'', ''-d'', dir, img, sz],
              RemoveAll dir, Run [''docker'', ''rm'', ''-f'', cid]]))))"
proof (intro exI [of _ "[''build'', src, img, tag]"] conjI allI impI)
  show "last (trace w') = Run ((''PATH='' @ ensureSbin path) # be_Bin e # [''build'', src, img, tag])"
    by (rule Build_runs_builder [OF assms])
qed (rule builder_main_builds)

theorem builder_builds_what_was_asked_witness:
  "\<exists>img w' args. Build calm ''/bin'' (NewBuildExec ''/tmp'' ''builder'' []) ''/src'' ''t'' boot_os = (Inr img, w') \<and>
     last (trace w') = Run ((''PATH='' @ ensureSbin ''/bin'') # ''builder'' # args)"
proof -
  obtain img w' where b: "Build calm ''/bin'' (NewBuildExec ''/tmp'' ''builder'' []) ''/src'' ''t'' boot_os = (Inr img, w')"
    by (simp add: Build_def perform_eq ok_reply_def Let_def)
  from builder_builds_what_was_asked [OF b] obtain args where
    "last (trace w') = Run ((''PATH='' @ ensureSbin ''/bin'') # ''builder'' # args)"
    by (auto simp: NewBuildExec_def)
  with b show ?thesis by blast
qed

end
