(* ===== verification/End_To_End.thy ===== *)
theory End_To_End
  imports Cli Guest Builder_Main
begin

text \<open>
  The whole path of a deploy: from a project directory, through \<^verbatim>\<open>antctl deploy\<close>, the control plane
  API, the scheduler with its builder, runner and proxy client, to a guest that the edge proxy serves.
  Every part is the modelled code; the operating system of the scheduler reports no error and the
  proxy is reachable.
\<close>

section \<open>A deploy from source\<close>

lemma Build_never_fails:
  assumes "never_fails env"
  shows "\<exists>img w' cs. Build env path be src tag w = (Inr img, w') \<and> img \<noteq> [] \<and>
    trace w' = trace w @ cs @ [Run ((''PATH='' @ ensureSbin path) # be_Bin be # [''build'', src, img, tag])] \<and>
    (\<forall>fs. fold file_effect cs fs = fs)"
proof -
  let ?w2 = "exec env (MkdirTemp (be_OutDir be) ''rootfs-'') (exec env (MkdirAll (be_OutDir be)) w)"
  let ?img = "JoinPath [r_out (reply_of env (MkdirTemp (be_OutDir be) ''rootfs-'') (exec env (MkdirAll (be_OutDir be)) w)),
        sanitizeTag tag @ ''.ext4'']"
  have "Build env path be src tag w = (Inr ?img, exec env (Run (build_command be path src ?img tag)) ?w2)"
    by (simp add: Build_def perform_eq never_fails_reply assms Let_def)
  moreover have "?img \<noteq> []" by (simp add: JoinPath_nonempty)
  ultimately show ?thesis
    by (intro exI [of _ ?img] exI [of _ "exec env (Run (build_command be path src ?img tag)) ?w2"]
        exI [of _ "[MkdirAll (be_OutDir be), MkdirTemp (be_OutDir be) ''rootfs-'']"])
      (simp add: build_command_def)
qed

lemma Allocate_genuine: "Allocate a = (Inr l, a') \<Longrightarrow> l = mk_lease (l_octet l)"
  by (auto simp: Allocate_def mk_lease_def split: if_splits)

lemma Allocate_when_free:
  assumes "ipam_inv a L"
  obtains (full) "card L = 253" "Allocate a = (Inl PoolExhausted, a)"
  | (free) m a' where "card L \<noteq> 253" "Allocate a = (Inr (mk_lease m), a')" "m \<notin> L" "ipam_inv a' (insert m L)"
      "genuine (mk_lease m)"
proof (cases "Allocate a")
  case (Pair r a1)
  show thesis
  proof (cases r)
    case (Inl e)
    with Pair Allocate_fail_iff [OF assms] Allocate_fail [of a e a1] show thesis
      by (cases e) (auto intro: full)
  next
    case (Inr l)
    with Pair have al: "Allocate a = (Inr l, a1)" by simp
    with Allocate_fail_iff [OF assms] have "card L \<noteq> 253" by auto
    moreover note Allocate_genuine [OF al] Allocate_fresh [OF assms al]
    ultimately show thesis using al by (metis free)
  qed
qed

text \<open>
  What the deployer does with an extracted source: it builds, takes an address if one is free, boots
  and registers the route.
\<close>

lemma site_deploy_source:
  assumes n: "never_fails env" and w: "admin_wire fs" and i: "ipam_inv a L"
    and u: "valid_utf8 (svc @ ''.'' @ domain)" and src: "src \<noteq> []"
    and d: "Deploy (real_orc env path xc (Some be) (deliver fs base) base domain)
      \<lparr>dr_Service = svc, dr_Image = [], dr_SourceDir = src\<rparr> a (\<lparr>procs = p, world = w0\<rparr>, rt) =
      (res, a', h', rt')"
  shows "if card L = 253 then res = Inl (AllocateFailed PoolExhausted) \<and> a' = a \<and> procs h' = p \<and> rt' = rt
    else \<exists>m img cs vs pid. m \<notin> L \<and> ipam_inv a' (insert m L) \<and> img \<noteq> [] \<and>
      res = Inr \<lparr>dp_Host = svc @ ''.'' @ domain, dp_URL = ''http://'' @ svc @ ''.'' @ domain,
        dp_GuestIP = l_GuestIP (mk_lease m), dp_TapDev = l_TapDev (mk_lease m)\<rparr> \<and>
      procs h' = p(l_TapDev (mk_lease m) \<mapsto> pid) \<and>
      rt' = upsert rt (svc @ ''.'' @ domain) [l_GuestIP (mk_lease m) @ '':80''] \<and>
      trace (world h') = trace w0 @ cs @
        Run ((''PATH='' @ ensureSbin path) # be_Bin be # [''build'', src, img, image_tag svc]) # vs \<and>
      (\<forall>F. fold file_effect cs F = F) \<and>
      Start (vm_command xc (boot_spec (mk_lease m) (HostIP a') [] img)) \<in> set vs"
proof -
  obtain img w1 cs where b: "Build env path be src (image_tag svc) w0 = (Inr img, w1)" "img \<noteq> []"
    "trace w1 = trace w0 @ cs @ [Run ((''PATH='' @ ensureSbin path) # be_Bin be # [''build'', src, img, image_tag svc])]"
    "\<forall>F. fold file_effect cs F = F"
    using Build_never_fails [OF n] by meson
  let ?orc = "real_orc env path xc (Some be) (deliver fs base) base domain"
  let ?req = "\<lparr>dr_Service = svc, dr_Image = [], dr_SourceDir = src\<rparr>"
  have br: "build_rootfs ?orc ?req (\<lparr>procs = p, world = w0\<rparr>, rt) = (Inr img, \<lparr>procs = p, world = w1\<rparr>, rt)"
    using b(1) src by (cases src) (simp_all add: build_rootfs_def real_orc_def WithBuilder_def NewOrchestrator_def
        site_build_def)
  have host: "route_host ?orc ?req = svc @ ''.'' @ domain"
    by (simp add: route_host_def real_orc_def WithBuilder_def NewOrchestrator_def)
  from i show ?thesis
  proof (cases rule: Allocate_when_free)
    case full
    with d br show ?thesis by (auto simp: Deploy_def)
  next
    case (free m a1)
    let ?spec = "boot_spec (mk_lease m) (HostIP a1) [] img"
    obtain pid w2 vs where bt: "Boot env xc ?spec \<lparr>procs = p, world = w1\<rparr> =
        (None, \<lparr>procs = p(l_TapDev (mk_lease m) \<mapsto> pid), world = w2\<rparr>)"
      "trace w2 = trace w1 @ vs" "Start (vm_command xc ?spec) \<in> set vs"
      using Boot_never_fails [OF n, of xc ?spec "\<lparr>procs = p, world = w1\<rparr>"] by (auto simp: boot_spec_def)
    have rg: "RegisterRoute (deliver fs base) base (svc @ ''.'' @ domain) [lease_addr (mk_lease m)] rt =
        (None, upsert rt (svc @ ''.'' @ domain) [lease_addr (mk_lease m)])"
      using lease_addr_utf8 [OF free(5)] u by (intro admin_wire.register_delivered [OF w]) simp_all
    have "o_boot ?orc ?spec (\<lparr>procs = p, world = w1\<rparr>, rt) =
        (None, \<lparr>procs = p(l_TapDev (mk_lease m) \<mapsto> pid), world = w2\<rparr>, rt)"
      using bt(1) by (simp add: real_orc_def WithBuilder_def NewOrchestrator_def site_boot_def)
    moreover have "o_register ?orc (svc @ ''.'' @ domain) [lease_addr (mk_lease m)] (h, rt) =
        (None, h, upsert rt (svc @ ''.'' @ domain) [lease_addr (mk_lease m)])" for h
      using rg by (simp add: real_orc_def WithBuilder_def NewOrchestrator_def site_register_def)
    ultimately have "res = Inr (live_result ?orc ?req (mk_lease m))" "a' = a1"
      "h' = \<lparr>procs = p(l_TapDev (mk_lease m) \<mapsto> pid), world = w2\<rparr>"
      "rt' = upsert rt (svc @ ''.'' @ domain) [lease_addr (mk_lease m)]"
      using d br free(2) host by (simp_all add: Deploy_def)
    with free b(2-4) bt(2,3) host show ?thesis
      by (auto simp: live_result_def lease_addr_def)
  qed
qed

text \<open>The answers of the deployer are valid UTF-8, whatever the state it runs in.\<close>

lemma site_deployer_utf8:
  assumes "valid_utf8 (dr_Service req @ ''.'' @ domain)"
    and d: "site_deployer env path xc be tr base domain req st = (Inr y, st')"
  shows "result_utf8 y"
proof -
  obtain w0 a p rt where st: "st = (w0, a, p, rt)" by (cases st)
  let ?orc = "real_orc env path xc be tr base domain"
  obtain a' h' r' where D: "Deploy ?orc req a (\<lparr>procs = p, world = w0\<rparr>, rt) = (Inr y, a', h', r')"
    using d by (auto simp: site_deployer_def st split: prod.splits)
  have h: "route_host ?orc req = dr_Service req @ ''.'' @ domain"
    by (simp add: route_host_def real_orc_def WithBuilder_def NewOrchestrator_def)
  from D show ?thesis
  proof (cases rule: Deploy_cases)
    case (live rootfs s1 l s2)
    have l: "l = mk_lease (l_octet l)" by (rule Allocate_genuine [OF live(2)])
    have "valid_utf8 (l_GuestIP (mk_lease n)) \<and> valid_utf8 (l_TapDev (mk_lease n))" for n
      unfolding mk_lease_def by (simp add: dec_valid_utf8)
    then have "valid_utf8 (l_GuestIP l)" "valid_utf8 (l_TapDev l)" using l by metis+
    with live(5) assms(1) h show ?thesis
      by (simp add: result_utf8_def live_result_def)
  qed simp_all
qed

text \<open>What a run of \<^verbatim>\<open>fc-driver\<close> on the runner's command line for a lease and an image tells Firecracker.\<close>

lemma leased_guest_requests:
  assumes "fc_main env ser (tl (vm_command xc (boot_spec (mk_lease n) gw [] img))) w = (0, w')" "img \<noteq> []"
  shows "sent (trace w') = sent (trace w) @ map (\<lambda>(route, body). build_put_request route (ser body))
      [(''/boot-source'', JObj [(''kernel_image_path'', JStr (KernelPath xc)),
          (''boot_args'', JStr (''console=ttyS0 reboot=k panic=1 pci=off ip=172.16.0.'' @ dec n @
             ''::'' @ gw @ '':255.255.255.0::eth0:off init=/init''))]),
       (''/drives/rootfs'', JObj [(''drive_id'', JStr ''rootfs''), (''path_on_host'', JStr img),
          (''is_root_device'', JBool True), (''is_read_only'', JBool False)]),
       (''/machine-config'', JObj [(''vcpu_count'', JInt 1), (''mem_size_mib'', JInt 256)]),
       (''/network-interfaces/eth0'', JObj [(''iface_id'', JStr ''eth0''),
          (''host_dev_name'', JStr (l_TapDev (mk_lease n))), (''guest_mac'', JStr (l_GuestMAC (mk_lease n)))]),
       (''/actions'', JObj [(''action_type'', JStr ''InstanceStart'')])]"
proof -
  let ?spec = "boot_spec (mk_lease n) gw [] img"
  have "boot_rootfs xc ?spec = img" "bs_TapDev ?spec = l_TapDev (mk_lease n)" "bs_GuestMAC ?spec = l_GuestMAC (mk_lease n)"
    "boot_args ?spec = ''console=ttyS0 reboot=k panic=1 pci=off ip=172.16.0.'' @ dec n @
       ''::'' @ gw @ '':255.255.255.0::eth0:off init=/init''"
    using assms(2) by (simp_all add: boot_rootfs_def boot_args_def boot_spec_def mk_lease_def)
  with fc_main_success [OF assms(1)] show ?thesis by (simp only: spec_requests_eq)
qed

text \<open>What the proxy does once a route to a leased address is stored.\<close>

lemma upserted_route_serves:
  assumes "CHR '':'' \<notin> set host" "uri \<noteq> ''/healthz''" "uri \<noteq> []"
    and "upstream (''http://'' @ addr @ uri @ query) = Some resp"
  shows "handle hash upstream (upsert rt host [addr]) peer
    \<lparr>px_path = uri, px_query = query, px_host = Some host, px_uri_host = None\<rparr> = resp"
  using assms by (simp add: handle_def edge.look_up_same select_def forward_def path_and_query_def)

section \<open>Properties\<close>



end
