(* ===== verification/Api_Server.thy ===== *)
theory Api_Server
  imports Api
begin

text \<open>
  The control plane API as a process, \<^verbatim>\<open>main\<close> of \<^verbatim>\<open>services/api/cmd/api/main.go\<close>: the wiring of the
  handlers from the environment, and the life of the server from listening through the signal and the
  graceful shutdown to its exit. The HTTP server of the standard library serves each request by a
  handler call; a handler's effect on the deployment store happens under the store's lock, so the
  calls are taken one after the other in the order in which they end. The theorems: a shutdown gives
  up on a request only after its 15 seconds, and \<^verbatim>\<open>main\<close> then ends.
\<close>

section \<open>Wiring\<close>

type_synonym api_input = "time \<times> nat list \<times> api_request"

definition api_handler ::
  "mux \<Rightarrow> (time \<Rightarrow> api_request \<Rightarrow> http_response) \<Rightarrow>
   ((deployment \<Rightarrow> deployment \<Rightarrow> bool) \<Rightarrow> deployment list \<Rightarrow> deployment list) \<Rightarrow> 's sched_transport \<Rightarrow>
   (string \<Rightarrow> string) \<Rightarrow> api_input \<Rightarrow> store \<times> 's \<Rightarrow> http_response \<times> store \<times> 's" where
  "api_handler chi unmatched sorter tr getenv x st =
     (case x of (now, rnd, r) \<Rightarrow>
        root_handler
          (v1Router chi unmatched (fst (credentials_of getenv)) sorter (scheduler_of getenv tr) now rnd)
          (unmatched now) r st)"

section \<open>The life of the process\<close>

datatype life = Serving | Draining nat | Exited nat   \<comment> \<open>the deadline of the shutdown; the exit code\<close>

text \<open>
  The open connections that wait for a request, the requests received, those a handler is working on, the answers
  given so far, the store with the rest of the world, and the clock in nanoseconds.
\<close>

record 's api_process =
  ap_life :: life
  ap_idle :: nat
  ap_received :: "api_input list"
  ap_working :: "api_input list"
  ap_answered :: "(api_input \<times> http_response) list"
  ap_world :: "store \<times> 's"
  ap_clock :: nat

datatype api_event =
    Connect
  | Request api_input
  | Answer nat
  | CloseIdle
  | ListenError
  | Signal
  | Pass nat
  | MainTurn

definition api_start :: "'s \<Rightarrow> 's api_process" where
  "api_start s = \<lparr>ap_life = Serving, ap_idle = 0, ap_received = [], ap_working = [], ap_answered = [], ap_world = (NewStore, s), ap_clock = 0\<rparr>"

definition drop_nth :: "nat \<Rightarrow> 'a list \<Rightarrow> 'a list" where
  "drop_nth i xs = take i xs @ drop (Suc i) xs"

text \<open>
  A connection is accepted while the server listens. During a shutdown the connections that are already
  open may still bring a request, but none is kept alive. \<^verbatim>\<open>main\<close> waits for the first signal, then
  for \<^verbatim>\<open>Shutdown\<close>, which returns when no request is being worked on or when its context has expired;
  the end of \<^verbatim>\<open>main\<close> ends the process.
\<close>

fun api_happen ::
  "(api_input \<Rightarrow> store \<times> 's \<Rightarrow> http_response \<times> store \<times> 's) \<Rightarrow> api_event \<Rightarrow> 's api_process \<Rightarrow> 's api_process" where
  "api_happen srv Connect p = (if ap_life p = Serving then p\<lparr>ap_idle := ap_idle p + 1\<rparr> else p)"
| "api_happen srv (Request x) p =
     (case ap_life p of
        Exited _ \<Rightarrow> p
      | _ \<Rightarrow> if ap_idle p > 0 then p\<lparr>ap_idle := ap_idle p - 1, ap_received := ap_received p @ [x], ap_working := ap_working p @ [x]\<rparr> else p)"
| "api_happen srv (Answer i) p =
     (case ap_life p of
        Exited _ \<Rightarrow> p
      | _ \<Rightarrow>
          if i < length (ap_working p)
          then (let x = ap_working p ! i; (resp, st) = srv x (ap_world p) in
                p\<lparr>ap_idle := ap_idle p + (if ap_life p = Serving then 1 else 0),
                  ap_working := drop_nth i (ap_working p), ap_answered := ap_answered p @ [(x, resp)],
                  ap_world := st\<rparr>)
          else p)"
| "api_happen srv CloseIdle p = p\<lparr>ap_idle := ap_idle p - 1\<rparr>"
| "api_happen srv ListenError p = (if ap_life p = Serving then p\<lparr>ap_life := Exited 1\<rparr> else p)"
| "api_happen srv Signal p =
     (if ap_life p = Serving then p\<lparr>ap_life := Draining (ap_clock p + 15000000000)\<rparr> else p)"
| "api_happen srv (Pass d) p = p\<lparr>ap_clock := ap_clock p + d\<rparr>"
| "api_happen srv MainTurn p =
     (case ap_life p of
        Draining deadline \<Rightarrow>
          if ap_working p = [] \<or> deadline \<le> ap_clock p then p\<lparr>ap_life := Exited 0\<rparr> else p
      | _ \<Rightarrow> p)"

definition api_life ::
  "(api_input \<Rightarrow> store \<times> 's \<Rightarrow> http_response \<times> store \<times> 's) \<Rightarrow> 's \<Rightarrow> api_event list \<Rightarrow> 's api_process" where
  "api_life srv s evs = fold (api_happen srv) evs (api_start s)"

section \<open>Answers and the store\<close>

lemma api_life_snoc: "api_life srv s (evs @ [e]) = api_happen srv e (api_life srv s evs)"
  by (simp add: api_life_def)

lemma api_run_snoc:
  "api_run srv xs st = (resps, st1) \<Longrightarrow> srv x st1 = (resp, st2) \<Longrightarrow> api_run srv (xs @ [x]) st = (resps @ [resp], st2)"
  by (induction xs arbitrary: st resps) (auto split: prod.splits)

lemma mset_drop_nth: "i < length xs \<Longrightarrow> mset xs = mset (drop_nth i xs) + {#xs ! i#}"
  using id_take_nth_drop [of i xs] by (metis add.commute drop_nth_def mset_append mset.simps(2) union_mset_add_mset_right add_mset_add_single)

definition accounted ::
  "(api_input \<Rightarrow> store \<times> 's \<Rightarrow> http_response \<times> store \<times> 's) \<Rightarrow> 's \<Rightarrow> 's api_process \<Rightarrow> bool" where
  "accounted srv s p \<longleftrightarrow>
     api_run srv (map fst (ap_answered p)) (NewStore, s) = (map snd (ap_answered p), ap_world p) \<and>
     mset (ap_received p) = mset (map fst (ap_answered p)) + mset (ap_working p)"

lemma accounted_happen: "accounted srv s p \<Longrightarrow> accounted srv s (api_happen srv e p)"
proof (cases e)
  case (Answer i)
  assume a: "accounted srv s p"
  obtain resp st where r: "srv (ap_working p ! i) (ap_world p) = (resp, st)" by (meson surj_pair)
  from a api_run_snoc [where srv = srv, OF _ r]
  show ?thesis
    using Answer r mset_drop_nth [of i "ap_working p"]
    by (auto simp: accounted_def Let_def split: life.split)
qed (auto simp: accounted_def split: life.split)

lemma accounted_life: "accounted srv s (api_life srv s evs)"
  by (induction evs rule: rev_induct)
    (simp_all add: api_life_snoc accounted_happen, simp add: accounted_def api_life_def api_start_def)

section \<open>Time\<close>

fun pause :: "api_event \<Rightarrow> nat" where
  "pause (Pass d) = d"
| "pause _ = 0"

definition elapsed :: "api_event list \<Rightarrow> nat" where
  "elapsed evs = sum_list (map pause evs)"

lemma elapsed_append [simp]: "elapsed (xs @ ys) = elapsed xs + elapsed ys"
  and elapsed_Cons [simp]: "elapsed (x # xs) = pause x + elapsed xs"
  and elapsed_Nil [simp]: "elapsed [] = 0"
  by (simp_all add: elapsed_def)

lemma clock_happen: "ap_clock (api_happen srv e p) = ap_clock p + pause e"
  by (cases e) (auto simp: Let_def split: life.split prod.split)

lemma clock_life: "ap_clock (api_life srv s evs) = elapsed evs"
  by (induction evs rule: rev_induct) (simp_all add: api_life_snoc clock_happen, simp add: api_life_def api_start_def)

text \<open>Where the process is, by the events so far: \<open>us\<close> are those before the first signal.\<close>

definition stage_ok :: "api_event list \<Rightarrow> 's api_process \<Rightarrow> bool" where
  "stage_ok evs p \<longleftrightarrow>
     (case ap_life p of
        Serving \<Rightarrow> Signal \<notin> set evs \<and> ListenError \<notin> set evs
      | Draining dl \<Rightarrow> (\<exists>us vs. evs = us @ Signal # vs \<and> Signal \<notin> set us \<and> ListenError \<notin> set us \<and>
          dl = elapsed us + 15000000000)
      | Exited c \<Rightarrow>
          (c = 1 \<and> ListenError \<in> set evs) \<or>
          (c = 0 \<and> (\<exists>us vs. evs = us @ Signal # vs \<and> Signal \<notin> set us \<and>
             (ap_working p = [] \<or> 15000000000 \<le> elapsed vs))))"


lemma stage_happen:
  assumes "stage_ok evs p" "ap_clock p = elapsed evs"
  shows "stage_ok (evs @ [e]) (api_happen srv e p)"
proof (cases "ap_life p")
  case Serving
  then have n: "Signal \<notin> set evs" "ListenError \<notin> set evs" using assms(1) by (simp_all add: stage_ok_def)
  show ?thesis
  proof (cases "e = Signal")
    case True
    with Serving assms(2) have l: "ap_life (api_happen srv e p) = Draining (elapsed evs + 15000000000)" by simp
    show ?thesis
      unfolding stage_ok_def l life.case using n True by (intro exI [of _ evs] exI [of _ "[]"]) simp
  next
    case False
    with Serving n show ?thesis
      by (cases e) (auto simp: stage_ok_def Let_def split: prod.split)
  qed
next
  case (Draining dl)
  then obtain us vs where d: "evs = us @ Signal # vs" "Signal \<notin> set us" "ListenError \<notin> set us"
    "dl = elapsed us + 15000000000" using assms(1) by (auto simp: stage_ok_def)
  then have e: "evs @ [e] = us @ Signal # (vs @ [e])" by simp
  show ?thesis
  proof (cases "e = MainTurn \<and> (ap_working p = [] \<or> dl \<le> ap_clock p)")
    case True
    with Draining have l: "ap_life (api_happen srv e p) = Exited 0" "ap_working (api_happen srv e p) = ap_working p" by auto
    have "15000000000 \<le> elapsed (vs @ [e])" if "dl \<le> ap_clock p" using that d assms(2) by simp
    with True have "ap_working p = [] \<or> 15000000000 \<le> elapsed (vs @ [e])" by blast
    with d(2) e have "\<exists>us' vs'. evs @ [e] = us' @ Signal # vs' \<and> Signal \<notin> set us' \<and>
        (ap_working p = [] \<or> 15000000000 \<le> elapsed vs')" by blast
    with l show ?thesis by (simp add: stage_ok_def)
  next
    case False
    with Draining have l: "ap_life (api_happen srv e p) = Draining dl"
      by (cases e) (auto simp: Let_def split: prod.split)
    show ?thesis
      unfolding stage_ok_def l life.case using d(2-4) e by (intro exI [of _ us] exI [of _ "vs @ [e]"]) simp
  qed
next
  case (Exited c)
  have "ap_life (api_happen srv e p) = Exited c" "ap_working (api_happen srv e p) = ap_working p"
    using Exited by (cases e; simp)+
  moreover have "\<exists>us' vs'. evs @ [e] = us' @ Signal # vs' \<and> Signal \<notin> set us' \<and> (ap_working p = [] \<or> 15000000000 \<le> elapsed vs')"
    if "\<exists>us vs. evs = us @ Signal # vs \<and> Signal \<notin> set us \<and> (ap_working p = [] \<or> 15000000000 \<le> elapsed vs)"
  proof -
    from that obtain us vs where "evs = us @ Signal # vs" "Signal \<notin> set us" "ap_working p = [] \<or> 15000000000 \<le> elapsed vs"
      by blast
    then show ?thesis by (intro exI [of _ us] exI [of _ "vs @ [e]"]) auto
  qed
  ultimately show ?thesis using assms(1) Exited by (auto simp: stage_ok_def)
qed

lemma stage_life: "stage_ok evs (api_life srv s evs)"
proof (induction evs rule: rev_induct)
  case Nil
  then show ?case by (simp add: stage_ok_def api_life_def api_start_def)
next
  case (snoc e evs)
  then show ?case unfolding api_life_snoc by (rule stage_happen) (rule clock_life)
qed

text \<open>The split of a list at the first occurrence of an element is the earliest.\<close>

lemma first_split:
  assumes "xs @ x # ys = us @ x # vs" "x \<notin> set us"
  shows "\<exists>zs. vs = zs @ ys"
  using assms
proof (induction us arbitrary: xs)
  case Nil
  then show ?case by (cases xs) (auto intro: exI [of _ "tl xs @ [x]"])
next
  case (Cons u us)
  then show ?case by (cases xs) auto
qed

lemma api_handler_step:
  assumes "\<And>t q. rs_status (unmatched t q) \<noteq> 202"
    and "api_handler chi unmatched sorter tr getenv x (sto, s) = (resp, sto', s')"
  shows "recorded_step (x, resp) sto sto'"
proof -
  obtain now rnd r where x: "x = (now, rnd, r)" by (metis surj_pair)
  let ?v = "v1Router chi unmatched (fst (credentials_of getenv)) sorter (scheduler_of getenv tr) now rnd"
  let ?r = "r\<lparr>ar_path := drop 3 (ar_path r)\<rparr>"
  have v: "recorded_step ((now, rnd, r), resp) sto sto'" if "?v ?r (sto, s) = (resp, sto', s')"
    using v1Router_step [where unmatched = unmatched, OF assms(1) that]
    by (auto simp: recorded_step_def answered_with_def split: if_splits)
  with assms x show ?thesis
    by (auto simp: api_handler_def root_handler_def recorded_step_def split: if_splits)
qed

section \<open>Properties\<close>


definition demo_input :: api_input where
  "demo_input = (0, [1], get_regions\<lparr>ar_path := ''/healthz''\<rparr>)"

definition demo_api_handler :: "api_input \<Rightarrow> store \<times> unit \<Rightarrow> http_response \<times> store \<times> unit" where
  "demo_api_handler = api_handler exact_mux (\<lambda>_ _. NotFound) insertion_sort (\<lambda>_ _ s. (Inl (Transport []), s)) (\<lambda>_. [])"

lemma demo_answer_given:
  "demo_api_handler demo_input st =
     (\<lparr>rs_status = 200, rs_ctype = ''text/plain; charset=utf-8'', rs_body = json_enc (JObj [(''status'', JStr ''ok'')])\<rparr>, st)"
  by (simp add: demo_api_handler_def api_handler_def demo_input_def root_handler_def get_regions_def)


text \<open>
  C22. The API stops when it is told to. Whatever requests are still being worked on, once 15 seconds have
  passed since a signal the next turn of \<^verbatim>\<open>main\<close> finds the process ended, with code 0 unless the server had
  failed to listen; and an ended process answers nothing any more.
\<close>

theorem signal_stops:
  assumes "15000000000 \<le> elapsed vs"
  shows "\<exists>code. ap_life (api_life srv s (us @ Signal # vs @ [MainTurn])) = Exited code \<and>
    (code = 0 \<or> (code = 1 \<and> ListenError \<in> set (us @ vs))) \<and>
    (\<forall>more. ap_life (api_life srv s (us @ Signal # vs @ MainTurn # more)) = Exited code \<and>
       ap_answered (api_life srv s (us @ Signal # vs @ MainTurn # more)) =
         ap_answered (api_life srv s (us @ Signal # vs @ [MainTurn])))"
proof -
  let ?evs = "us @ Signal # vs" and ?p = "api_life srv s (us @ Signal # vs)"
  let ?q = "api_happen srv MainTurn ?p"
  have q: "api_life srv s (us @ Signal # vs @ [MainTurn]) = ?q"
    using api_life_snoc [of srv s ?evs MainTurn] by simp
  have "\<exists>code. ap_life ?q = Exited code"
  proof (cases "ap_life ?p")
    case Serving
    with stage_life [of ?evs srv s] show ?thesis by (simp add: stage_ok_def)
  next
    case (Draining dl)
    with stage_life [of ?evs srv s] obtain us1 vs1 where
      d: "?evs = us1 @ Signal # vs1" "Signal \<notin> set us1" "dl = elapsed us1 + 15000000000"
      by (auto simp: stage_ok_def)
    obtain zs where "vs1 = zs @ vs" using first_split [OF d(1,2)] by blast
    then have "elapsed ?evs = elapsed us1 + (elapsed zs + elapsed vs)" unfolding d(1) by simp
    then have "dl \<le> ap_clock ?p" using d(3) assms unfolding clock_life by simp
    with Draining show ?thesis by simp
  next
    case (Exited c)
    then show ?thesis by simp
  qed
  then obtain code where c: "ap_life ?q = Exited code" ..
  have still: "ap_life (fold (api_happen srv) more ?q) = Exited code \<and>
      ap_answered (fold (api_happen srv) more ?q) = ap_answered ?q" for more
  proof (induction more rule: rev_induct)
    case (snoc e more)
    then show ?case by (cases e) auto
  qed (simp add: c del: api_happen.simps)
  have "api_life srv s (us @ Signal # vs @ MainTurn # more) = fold (api_happen srv) more ?q" for more
    by (simp add: api_life_def)
  moreover have "code = 0 \<or> (code = 1 \<and> ListenError \<in> set (us @ vs))"
    using stage_life [of "us @ Signal # vs @ [MainTurn]" srv s] c unfolding q [symmetric]
    by (auto simp: stage_ok_def)
  ultimately show ?thesis using c q still by (auto simp del: api_happen.simps)
qed

theorem signal_stops_witness:
  "15000000000 \<le> elapsed [Pass 15000000000] \<and>
   (\<exists>code. ap_life (api_life demo_api_handler () ([Connect, Request demo_input] @ Signal # [Pass 15000000000] @ [MainTurn])) =
      Exited code)"
proof -
  have e: "15000000000 \<le> elapsed [Pass 15000000000]" by simp
  from signal_stops [OF e, of demo_api_handler "()" "[Connect, Request demo_input]"] e show ?thesis by blast
qed

end
