(* ===== verification/Scheduler_Main.thy ===== *)
theory Scheduler_Main
  imports Sched_Client
begin

text \<open>
  The scheduler's command, \<^verbatim>\<open>services/scheduler/cmd/scheduler/main.go\<close>: the orchestrator built from
  the environment, the direct deploy \<^verbatim>\<open>scheduler deploy\<close>, and the handler it serves otherwise. A
  process starts with a fresh address pool and an empty process map; the machine and the edge
  proxy outlive it. The theorem shows what that means for two direct deploys.
\<close>

section \<open>Wiring\<close>

definition schedEnvOr :: "(string \<Rightarrow> string) \<Rightarrow> string \<Rightarrow> string \<Rightarrow> string" where
  "schedEnvOr getenv key def = (if getenv key \<noteq> [] then getenv key else def)"

text \<open>
  \<open>path\<close> and \<open>tmp\<close> are the search path of commands and the directory of temporary files, \<open>tr\<close> is the
  network to the edge proxy. The result is the orchestrator, and the allocator and the process map
  it starts with.
\<close>

definition buildOrchestrator ::
  "env \<Rightarrow> string \<Rightarrow> string \<Rightarrow> (string \<Rightarrow> string) \<Rightarrow> router transport \<Rightarrow>
   site orchestrator \<times> allocator \<times> (string \<rightharpoonup> nat)" where
  "buildOrchestrator env path tmp getenv tr =
     (let (cfg, procs0) = NewExec
            (schedEnvOr getenv ''FC_DRIVER_BIN'' ''fc-driver'')
            (schedEnvOr getenv ''FIRECRACKER_BIN'' ''firecracker'')
            (schedEnvOr getenv ''FC_KERNEL'' (getenv ''HOME'' @ ''/fc-assets/vmlinux-5.10.223''))
            (schedEnvOr getenv ''FC_ROOTFS'' (getenv ''HOME'' @ ''/fc-assets/alpine-http.ext4''))
            (schedEnvOr getenv ''TAP_USER'' (getenv ''USER''));
          builder = NewBuildExec tmp (schedEnvOr getenv ''BUILDER_BIN'' ''builder'')
            (schedEnvOr getenv ''BUILD_OUT_DIR'' [])
      in (real_orc env path cfg (Some builder) tr
            (schedEnvOr getenv ''EDGE_PROXY_ADMIN'' ''http://127.0.0.1:9901'')
            (schedEnvOr getenv ''DEPLOY_DOMAIN'' ''local''),
          New, procs0))"

section \<open>The direct deploy\<close>

text \<open>\<open>is_dir\<close> tells whether \<^verbatim>\<open>os.Stat\<close> finds a directory.\<close>

definition deploy_args :: "(string \<Rightarrow> bool) \<Rightarrow> string list \<Rightarrow> dep_request" where
  "deploy_args is_dir args =
     (let req = \<lparr>dr_Service = ''web'', dr_Image = ''local-rootfs'', dr_SourceDir = []\<rparr>;
          req1 = (case args of [] \<Rightarrow> req | a # _ \<Rightarrow> req\<lparr>dr_Service := a\<rparr>)
      in (case args of
            _ # b # _ \<Rightarrow> if is_dir b then req1\<lparr>dr_SourceDir := b, dr_Image := []\<rparr> else req1\<lparr>dr_Image := b\<rparr>
          | _ \<Rightarrow> req1))"

definition deployed_line :: "dep_request \<Rightarrow> dep_result \<Rightarrow> string" where
  "deployed_line req res = ''deployed '' @ dr_Service req @ '' '' @ arrow @ '' '' @ dp_URL res @ '' (guest '' @
     dp_GuestIP res @ '', tap '' @ dp_TapDev res @ '')'' @ newline"

definition runDeploy ::
  "env \<Rightarrow> string \<Rightarrow> string \<Rightarrow> (string \<Rightarrow> string) \<Rightarrow> router transport \<Rightarrow> (string \<Rightarrow> bool) \<Rightarrow> string list \<Rightarrow>
   os \<times> router \<Rightarrow> (deploy_error, string) result \<times> os \<times> router" where
  "runDeploy env path tmp getenv tr is_dir args s =
     (let (orc, alloc, procs0) = buildOrchestrator env path tmp getenv tr;
          req = deploy_args is_dir args;
          (res, _, h, rt) = Deploy orc req alloc (\<lparr>procs = procs0, world = fst s\<rparr>, snd s)
      in (case res of Inl e \<Rightarrow> Inl e | Inr x \<Rightarrow> Inr (deployed_line req x), world h, rt))"

text \<open>
  The command: a deploy and the exit code it gives, or the handler to serve on an address. (Cases
  of a list of words after the program's name.)
\<close>

datatype sched_mode = DirectDeploy "string list" | Serve string

definition sched_main :: "(string \<Rightarrow> string) \<Rightarrow> string list \<Rightarrow> sched_mode" where
  "sched_main getenv args =
     (case args of
        a # rest \<Rightarrow> if a = ''deploy'' then DirectDeploy rest else Serve (schedEnvOr getenv ''SCHEDULER_ADDR'' '':7070'')
      | [] \<Rightarrow> Serve (schedEnvOr getenv ''SCHEDULER_ADDR'' '':7070''))"

section \<open>Two direct deploys\<close>

lemma fresh_deploy:
  assumes w: "admin_wire fs" and n: "lossy_net fs base tr"
    and d: "Deploy (real_orc env path cfg be tr base domain) req New (\<lparr>procs = Map.empty, world = w0\<rparr>, rt) =
      (Inr res, a', st')"
    and h: "valid_utf8 (dr_Service req @ ''.'' @ domain)"
  shows "map_of (snd st') = (map_of rt)(dr_Service req @ ''.'' @ domain \<mapsto> [''172.16.0.2:80'']) \<and>
    dp_GuestIP res = ''172.16.0.2'' \<and> dp_TapDev res = ''fctap2''"
proof -
  let ?orc = "real_orc env path cfg be tr base domain"
  let ?st = "(\<lparr>procs = Map.empty, world = w0\<rparr>, rt)"
  have host: "route_host ?orc req = dr_Service req @ ''.'' @ domain"
    by (simp add: route_host_def real_orc_def NewOrchestrator_def WithBuilder_def)
  have s: "vm_platform.steady site_running New {} ?st"
    using ipam_inv_New steady_site [OF w n] by (simp add: vm_taps_def)
  from d have l2: "res = live_result ?orc req (mk_lease 2)"
  proof (cases rule: Deploy_cases)
    case (live rootfs s1 l s2)
    then show ?thesis by (simp add: Allocate_def New_def)
  qed simp_all
  obtain l where l: "res = live_result ?orc req l"
    "routable_host (route_host ?orc req) \<longrightarrow>
       site_routes st' = (site_routes ?st)(route_host ?orc req \<mapsto> [lease_addr l])"
    using vm_platform.live_deploy [OF real_platform [OF w n] d s] by blast
  have ip: "l_GuestIP l = ''172.16.0.2''" using l(1) l2 mk_lease_two by (simp add: live_result_def)
  show ?thesis
    using l(2) h host ip l2 mk_lease_two
    by (simp add: routable_host_def site_routes_def lease_addr_def live_result_def)
qed

lemma runDeploy_wired:
  "\<exists>cfg be. runDeploy env path tmp getenv tr is_dir args s =
     (case Deploy (real_orc env path cfg (Some be) tr
         (schedEnvOr getenv ''EDGE_PROXY_ADMIN'' ''http://127.0.0.1:9901'') (schedEnvOr getenv ''DEPLOY_DOMAIN'' ''local''))
         (deploy_args is_dir args) New (\<lparr>procs = Map.empty, world = fst s\<rparr>, snd s) of
        (res, _, h, rt) \<Rightarrow>
          (case res of Inl e \<Rightarrow> Inl e | Inr x \<Rightarrow> Inr (deployed_line (deploy_args is_dir args) x), world h, rt))"
  unfolding runDeploy_def buildOrchestrator_def NewExec_def Let_def prod.case by blast

lemma runDeploy_deploys:
  assumes "runDeploy env path tmp getenv tr is_dir args (w0, rt) = (Inr msg, w1, rt1)"
  obtains cfg be a' h res where
    "Deploy (real_orc env path cfg (Some be) tr (schedEnvOr getenv ''EDGE_PROXY_ADMIN'' ''http://127.0.0.1:9901'')
        (schedEnvOr getenv ''DEPLOY_DOMAIN'' ''local'')) (deploy_args is_dir args) New
      (\<lparr>procs = Map.empty, world = w0\<rparr>, rt) = (Inr res, a', h, rt1)"
    "msg = deployed_line (deploy_args is_dir args) res"
  using assms unfolding runDeploy_def buildOrchestrator_def NewExec_def Let_def prod.case
  by (auto split: prod.splits sum.splits)

text \<open>
  C33. Direct deploys do not know of each other: each process of \<^verbatim>\<open>scheduler deploy\<close> starts with a
  fresh address pool, so when two of them succeed, for services with different hosts, the edge proxy
  ends up sending both hosts to the same guest address, 172.16.0.2.
\<close>

theorem direct_deploys_collide:
  assumes w: "admin_wire fs" and n: "lossy_net fs (schedEnvOr getenv ''EDGE_PROXY_ADMIN'' ''http://127.0.0.1:9901'') tr"
    and r1: "runDeploy env path tmp getenv tr is_dir args1 (w0, rt0) = (Inr msg1, w1, rt1)"
    and r2: "runDeploy env path tmp getenv tr is_dir args2 (w1, rt1) = (Inr msg2, w2, rt2)"
    and h1: "host1 = dr_Service (deploy_args is_dir args1) @ ''.'' @ schedEnvOr getenv ''DEPLOY_DOMAIN'' ''local''"
    and h2: "host2 = dr_Service (deploy_args is_dir args2) @ ''.'' @ schedEnvOr getenv ''DEPLOY_DOMAIN'' ''local''"
    and u: "valid_utf8 host1" "valid_utf8 host2" "CHR '':'' \<notin> set host1" "CHR '':'' \<notin> set host2"
  shows "lookup rt2 host1 = Some [''172.16.0.2:80''] \<and> lookup rt2 host2 = Some [''172.16.0.2:80'']"
proof -
  have "map_of rt1 = (map_of rt0)(host1 \<mapsto> [''172.16.0.2:80''])"
    using r1
  proof (rule runDeploy_deploys)
    fix cfg be a' h res
    assume "Deploy (real_orc env path cfg (Some be) tr (schedEnvOr getenv ''EDGE_PROXY_ADMIN'' ''http://127.0.0.1:9901'')
        (schedEnvOr getenv ''DEPLOY_DOMAIN'' ''local'')) (deploy_args is_dir args1) New
      (\<lparr>procs = Map.empty, world = w0\<rparr>, rt0) = (Inr res, a', h, rt1)"
    from fresh_deploy [OF w n this] u(1) h1 show ?thesis by simp
  qed
  moreover have "map_of rt2 = (map_of rt1)(host2 \<mapsto> [''172.16.0.2:80''])"
    using r2
  proof (rule runDeploy_deploys)
    fix cfg be a' h res
    assume "Deploy (real_orc env path cfg (Some be) tr (schedEnvOr getenv ''EDGE_PROXY_ADMIN'' ''http://127.0.0.1:9901'')
        (schedEnvOr getenv ''DEPLOY_DOMAIN'' ''local'')) (deploy_args is_dir args2) New
      (\<lparr>procs = Map.empty, world = w1\<rparr>, rt1) = (Inr res, a', h, rt2)"
    from fresh_deploy [OF w n this] u(2) h2 show ?thesis by simp
  qed
  ultimately show ?thesis
    using u(3,4) by (simp add: edge.look_tab Split_no_sep_id)
qed

lemma calm_runDeploy:
  fixes getenv :: "string \<Rightarrow> string"
  defines "base \<equiv> schedEnvOr getenv ''EDGE_PROXY_ADMIN'' ''http://127.0.0.1:9901''"
  assumes "dr_SourceDir (deploy_args is_dir args) = []"
    and "valid_utf8 (dr_Service (deploy_args is_dir args) @ ''.'' @ schedEnvOr getenv ''DEPLOY_DOMAIN'' ''local'')"
  shows "\<exists>msg s'. runDeploy calm path tmp getenv (deliver read_route base) is_dir args s = (Inr msg, s')"
proof -
  let ?host = "dr_Service (deploy_args is_dir args) @ ''.'' @ schedEnvOr getenv ''DEPLOY_DOMAIN'' ''local''"
  have a: "Allocate New = (Inr (mk_lease 2), New\<lparr>next_octet := 3\<rparr>)" "genuine (mk_lease 2)"
    by (simp_all add: Allocate_def New_def genuine_def)
  obtain cfg be where r: "runDeploy calm path tmp getenv (deliver read_route base) is_dir args s =
     (case Deploy (real_orc calm path cfg (Some be) (deliver read_route base) base
         (schedEnvOr getenv ''DEPLOY_DOMAIN'' ''local''))
         (deploy_args is_dir args) New (\<lparr>procs = Map.empty, world = fst s\<rparr>, snd s) of
        (res, _, h, rt) \<Rightarrow>
          (case res of Inl e \<Rightarrow> Inl e | Inr x \<Rightarrow> Inr (deployed_line (deploy_args is_dir args) x), world h, rt))"
    using runDeploy_wired [of calm path tmp getenv "deliver read_route base" is_dir args s] unfolding base_def by blast
  show ?thesis
    using calm_real_deploy [OF assms(2,3) a, of path cfg "Some be" base "(\<lparr>procs = Map.empty, world = fst s\<rparr>, snd s)"]
    unfolding r by auto
qed

theorem direct_deploys_collide_witness:
  "\<exists>msg1 w1 rt1 msg2 w2 rt2.
     runDeploy calm [] ''/tmp'' (\<lambda>_. []) (deliver read_route ''http://127.0.0.1:9901'') (\<lambda>_. False) [''web''] (boot_os, []) =
       (Inr msg1, w1, rt1) \<and>
     runDeploy calm [] ''/tmp'' (\<lambda>_. []) (deliver read_route ''http://127.0.0.1:9901'') (\<lambda>_. False) [''api''] (w1, rt1) =
       (Inr msg2, w2, rt2) \<and>
     lookup rt2 ''web.local'' = lookup rt2 ''api.local''"
proof -
  have e: "schedEnvOr (\<lambda>_. []) k def = def" for k def by (simp add: schedEnvOr_def)
  have a: "dr_SourceDir (deploy_args (\<lambda>_. False) [s]) = []" "dr_Service (deploy_args (\<lambda>_. False) [s]) = s" for s
    by (simp_all add: deploy_args_def Let_def)
  note run = calm_runDeploy [where getenv = "\<lambda>_. []" and is_dir = "\<lambda>_. False", unfolded e]
  obtain msg1 w1 rt1 where r1: "runDeploy calm [] ''/tmp'' (\<lambda>_. []) (deliver read_route ''http://127.0.0.1:9901'')
      (\<lambda>_. False) [''web''] (boot_os, []) = (Inr msg1, w1, rt1)"
    using run [of "[''web'']" "[]" "''/tmp''" "(boot_os, [])"] by (auto simp: a valid_utf8_ascii)
  obtain msg2 w2 rt2 where r2: "runDeploy calm [] ''/tmp'' (\<lambda>_. []) (deliver read_route ''http://127.0.0.1:9901'')
      (\<lambda>_. False) [''api''] (w1, rt1) = (Inr msg2, w2, rt2)"
    using run [of "[''api'']" "[]" "''/tmp''" "(w1, rt1)"] by (auto simp: a valid_utf8_ascii)
  have n: "lossy_net read_route (schedEnvOr (\<lambda>_. []) ''EDGE_PROXY_ADMIN'' ''http://127.0.0.1:9901'')
      (deliver read_route ''http://127.0.0.1:9901'')"
    unfolding e by (rule prompt_lossy [OF prompt_deliver])
  have "lookup rt2 ''web.local'' = lookup rt2 ''api.local''"
    using direct_deploys_collide [OF wire.admin_wire_axioms n r1 r2, of "''web.local''" "''api.local''"]
    by (simp add: a e valid_utf8_ascii)
  with r1 r2 show ?thesis by blast
qed

end
