(* ===== verification/Idle_Services.thy ===== *)
theory Idle_Services
  imports Api Scheduler_Main
begin

text \<open>
  The services without logic yet: \<^verbatim>\<open>services/billing\<close>, \<^verbatim>\<open>services/dns\<close>, \<^verbatim>\<open>services/storage-cp\<close> and the idle
  mode of \<^verbatim>\<open>services/builder\<close>. Each reads its settings from the environment, logs one line with them and
  then blocks forever; the definitions are that line: its message and its attributes. The services
  share their infrastructure through these settings, which the lemma at the end compares.
\<close>

type_synonym log_line = "string \<times> (string \<times> string) list"

definition billingEnvOr :: "(string \<Rightarrow> string) \<Rightarrow> string \<Rightarrow> string \<Rightarrow> string" where
  "billingEnvOr getenv key def = (if getenv key \<noteq> [] then getenv key else def)"

definition billing_main :: "(string \<Rightarrow> string) \<Rightarrow> log_line" where
  "billing_main getenv =
     (''billing starting'',
      [(''lago_url'', billingEnvOr getenv ''LAGO_URL'' ''http://127.0.0.1:3000''),
       (''nats_url'', billingEnvOr getenv ''NATS_URL'' ''nats://127.0.0.1:4222'')])"

definition dnsEnvOr :: "(string \<Rightarrow> string) \<Rightarrow> string \<Rightarrow> string \<Rightarrow> string" where
  "dnsEnvOr getenv key def = (if getenv key \<noteq> [] then getenv key else def)"

definition dns_main :: "(string \<Rightarrow> string) \<Rightarrow> log_line" where
  "dns_main getenv =
     (''dns-mgr starting'',
      [(''pdns_api'', dnsEnvOr getenv ''PDNS_API_URL'' ''http://127.0.0.1:8081''),
       (''nats_url'', dnsEnvOr getenv ''NATS_URL'' ''nats://127.0.0.1:4222'')])"

definition storageEnvOr :: "(string \<Rightarrow> string) \<Rightarrow> string \<Rightarrow> string \<Rightarrow> string" where
  "storageEnvOr getenv key def = (if getenv key \<noteq> [] then getenv key else def)"

definition storage_main :: "(string \<Rightarrow> string) \<Rightarrow> log_line" where
  "storage_main getenv =
     (''storage-cp starting'',
      [(''pageserver_url'', storageEnvOr getenv ''PAGESERVER_URL'' ''http://127.0.0.1:9898''),
       (''safekeeper_addrs'', storageEnvOr getenv ''SAFEKEEPER_ADDRS'' ''127.0.0.1:5454''),
       (''minio_endpoint'', storageEnvOr getenv ''MINIO_ENDPOINT'' ''http://127.0.0.1:9000'')])"

definition builderEnvOr :: "(string \<Rightarrow> string) \<Rightarrow> string \<Rightarrow> string \<Rightarrow> string" where
  "builderEnvOr getenv key def = (if getenv key \<noteq> [] then getenv key else def)"

definition builder_idle :: "(string \<Rightarrow> string) \<Rightarrow> log_line" where
  "builder_idle getenv =
     (''builder starting'',
      [(''registry'', builderEnvOr getenv ''REGISTRY_URL'' ''http://127.0.0.1:5000''),
       (''nats_url'', builderEnvOr getenv ''NATS_URL'' ''nats://127.0.0.1:4222''),
       (''buildkit_addr'', builderEnvOr getenv ''BUILDKIT_ADDR'' ''unix:///run/buildkit/buildkitd.sock'')])"

lemmas env_or_defs = billingEnvOr_def dnsEnvOr_def storageEnvOr_def builderEnvOr_def envOr_def schedEnvOr_def

text \<open>All services read a setting the same way, and those that name the message queue name the same one.\<close>

lemma settings_agree:
  "billingEnvOr = envOr \<and> dnsEnvOr = envOr \<and> storageEnvOr = envOr \<and> builderEnvOr = envOr \<and> schedEnvOr = envOr"
  by (intro conjI ext) (simp_all add: env_or_defs)

lemma same_queue:
  "map_of (snd (billing_main getenv)) ''nats_url'' = map_of (snd (dns_main getenv)) ''nats_url''"
  "map_of (snd (builder_idle getenv)) ''nats_url'' = map_of (snd (dns_main getenv)) ''nats_url''"
  by (simp_all add: billing_main_def dns_main_def builder_idle_def settings_agree)

end
