(* ===== verification/Spec2Isabelle.thy ===== *)
theory Spec2Isabelle
  imports Nomadspec Cli_Root Domain_Types Progress End_To_End Api_Server Idle_Services
begin

text \<open>
  A verification development for the Antariksh platform-as-a-service.

  The program. \<^verbatim>\<open>antctl\<close> (\<^verbatim>\<open>cli/\<close>) uploads a project to the control plane API (\<^verbatim>\<open>services/api\<close>),
  which authenticates the call, asks the scheduler (\<^verbatim>\<open>services/scheduler\<close>) to deploy and records
  the deployment. The scheduler extracts the source, has the builder (\<^verbatim>\<open>services/builder\<close>) turn it
  into a root file system, leases a network identity, boots a microVM through \<^verbatim>\<open>fc-driver\<close> and
  registers a route with the edge proxy (\<^verbatim>\<open>crates/edge-proxy\<close>), which forwards the service's traffic.

  The theories, bottom up.

  Language and library. \<open>Prelude\<close>: results of fallible functions as sums, Go's 64-bit integers.
  \<open>Go_Strings\<close>, \<open>Go_Path\<close>, \<open>Go_Time\<close>, \<open>Utf8\<close>, \<open>Json\<close>, \<open>Json_Codec\<close>, \<open>Base64\<close>, \<open>Sha256\<close>: what the
  source uses of \<^verbatim>\<open>strings\<close>, \<^verbatim>\<open>strconv\<close>, \<^verbatim>\<open>path/filepath\<close>, \<^verbatim>\<open>time\<close>, \<^verbatim>\<open>encoding/json\<close>, \<^verbatim>\<open>encoding/base64\<close>
  and \<^verbatim>\<open>crypto\<close>, with their round trips. \<open>Os_World\<close>: the operating system as an arbitrary function
  from the history of calls to a reply, so that every pattern of failures is covered. \<open>Http\<close>:
  messages and transports.

  Scheduler. \<open>Ipam\<close> (\<^verbatim>\<open>internal/ipam/ipam.go\<close>): the allocator, the contract \<open>address_pool\<close> and its
  interpretation. \<open>Runner\<close> (\<^verbatim>\<open>internal/runner/exec.go\<close>): boot, stop and the bounded wait.
  \<open>Buildrunner\<close> (\<^verbatim>\<open>internal/buildrunner\<close>). \<open>Edgeproxy\<close> (\<^verbatim>\<open>internal/edgeproxy/client.go\<close>).
  \<open>Orchestrator\<close> (\<^verbatim>\<open>internal/orchestrator\<close>): \<^verbatim>\<open>Deploy\<close>, the contract \<open>vm_platform\<close> it relies on and
  what it guarantees. \<open>Platform\<close>: the modelled runner, builder and proxy client are such a platform.
  \<open>Interleaving\<close>: \<^verbatim>\<open>Deploy\<close> as a phase machine and all interleavings of concurrent deploys.
  \<open>Progress\<close>: their fair executions, in which every deploy is answered for good.
  \<open>Schedhttp\<close> (\<^verbatim>\<open>internal/schedhttp/server.go\<close>): handlers and archive extraction. \<open>Nomadspec\<close>
  (\<^verbatim>\<open>internal/nomadspec\<close>): the job template. \<open>Scheduler_Main\<close> (\<^verbatim>\<open>cmd/scheduler/main.go\<close>): the wiring and
  the direct deploy.

  Builder. \<open>Rootfs_Build\<close> (\<^verbatim>\<open>internal/build/build.go\<close>), \<open>Builder_Main\<close> (\<^verbatim>\<open>cmd/builder\<close> and its contract
  with the build runner).

  Firecracker driver. \<open>Fc_Driver\<close> (\<^verbatim>\<open>crates/fc-driver/src\<close> \<^verbatim>\<open>main.rs\<close>, \<^verbatim>\<open>firecracker.rs\<close>): the flags, the
  requests to the API socket, the life of a microVM, against the command line of \<open>Runner\<close>. \<open>Guest\<close>:
  from a deploy to what Firecracker is told.

  Control plane. \<open>Token\<close> (\<^verbatim>\<open>internal/auth/token.go\<close>), \<open>Domain\<close> (\<^verbatim>\<open>internal/domain\<close>,
  \<^verbatim>\<open>internal/regions\<close>), \<open>Domain_Types\<close> (the rest of \<^verbatim>\<open>internal/domain\<close>), \<open>Deploystore\<close> (\<^verbatim>\<open>internal/deploystore\<close>), \<open>Sched_Client\<close>
  (\<^verbatim>\<open>internal/scheduler/client.go\<close>), \<open>Api\<close> (\<^verbatim>\<open>cmd/api\<close>).
  \<open>Api_Server\<close> (its \<^verbatim>\<open>main\<close>): the wiring from the environment, the life of the process and its graceful shutdown.
  \<open>Idle_Services\<close> (\<^verbatim>\<open>services/billing\<close>, \<^verbatim>\<open>services/dns\<close>, \<^verbatim>\<open>services/storage-cp\<close>, the builder's idle mode): what they
  read and log before they block.

  Command line. \<open>Manifest\<close> (\<^verbatim>\<open>cli/internal/manifest\<close>): \<^verbatim>\<open>platform.toml\<close> and its validation. \<open>Upload\<close>
  (\<^verbatim>\<open>tarGzDir\<close> of \<^verbatim>\<open>cli/cmd/deploy.go\<close>): the walk over a file tree, against the scheduler's extraction.
  \<open>Cli\<close> (\<^verbatim>\<open>cli/cmd\<close> \<^verbatim>\<open>client.go\<close>, \<^verbatim>\<open>login.go\<close>, \<^verbatim>\<open>regions.go\<close>, \<^verbatim>\<open>deploy.go\<close>): the API client and its commands,
  delivered to the API and through it to the scheduler. \<open>Cli_Stubs\<close>: the commands without an
  implementation. \<open>Cli_Root\<close> (\<^verbatim>\<open>cli/main.go\<close>, \<^verbatim>\<open>cli/cmd/root.go\<close>): the command tree, the configuration
  and the exit code.

  Edge proxy. \<open>Edge_Router\<close> (\<^verbatim>\<open>router.rs\<close>, \<^verbatim>\<open>proxy.rs\<close>, \<^verbatim>\<open>config.rs\<close>, \<^verbatim>\<open>main.rs\<close>): the settings, the table, its
  contract \<open>route_table\<close>, the admin API, the routing and forwarding of requests.

  The whole path. \<open>End_To_End\<close>: from a project directory, through all of the above, to a guest that the
  proxy serves.

  What the groups of lemmas show. Each component's theory has its operations, the invariant they
  keep or the contract they meet, and ends with its properties. The contracts are locales:
  \<open>address_pool\<close> (interpreted by the allocator), \<open>vm_platform\<close> and \<open>exact_platform\<close> (by the real
  orchestrator), \<open>route_table\<close> (by the router), \<open>admin_wire\<close> (by a reader built from the JSON
  decoder), \<open>slice_sorting\<close> (by insertion sort). The properties that span components are in
  \<open>Platform\<close>, \<open>Interleaving\<close>, \<open>Progress\<close>, \<open>Guest\<close>, \<open>Builder_Main\<close>, \<open>Api\<close>, \<open>Upload\<close>, \<open>Cli\<close>,
  \<open>Cli_Root\<close> and \<open>End_To_End\<close>.

  Bounds and fuel. The JSON decoder runs on fuel linear in its input, which is shown never to
  decide its answer; the wait for a guest ends within 60 probes; the wait for Firecracker's socket
  within 101 polls; a guest is configured with five requests; a deploy takes at most six steps;
  the API ends at most 15 seconds after a signal.

  Not modelled. Logging, apart from the lines of the idle services; how the HTTP servers of the standard
  library and of hyper accept and read connections; the time limits of the HTTP clients and of the
  deploy route, which a transport that fails at any time covers; the cancellation of a request's
  context, which an operating system and a network that fail at any time cover; the alignment of the
  tables \<^verbatim>\<open>antctl\<close> prints.
  Third-party code is a parameter: the chi multiplexer, \<^verbatim>\<open>serde_json\<close>, go-toml, the configuration package
  and the HTTP client of the edge proxy, cobra (from the command tree and the arguments to an invocation)
  and viper (from the settings, files and environment to a configuration, with \<open>viper_documented\<close> as the
  behaviour relied on). The archive packages \<^verbatim>\<open>compress/gzip\<close> and \<^verbatim>\<open>archive/tar\<close> are a pair of functions
  of which only \<open>archive_codec\<close> is assumed: reading gives what was written.
\<close>

end
